theory Spec2Isabelle
  imports Main "HOL-Library.Word"
begin

unbundle bit_operations_syntax

section \<open>Simple Socket Protocol: data model\<close>

text \<open>
  The embedding follows \<^verbatim>\<open>arduino/ssp.c\<close> (reliability engine, public interface) and
  \<^verbatim>\<open>example/arduino/ssp_com.c\<close> (codec, parser, receive loop). Machine integers are
  words of the width the source declares (\<^verbatim>\<open>UINT8\<close>, \<^verbatim>\<open>UINT16\<close>, \<^verbatim>\<open>UINT32\<close>). The
  linked list of \<^verbatim>\<open>SendData\<close> blocks hanging from \<^verbatim>\<open>sendDataListHead[portId]\<close> is a HOL
  list, head first; the \<^verbatim>\<open>next\<close> link is the list position. Arrays indexed by a socket
  identifier are functions on \<^verbatim>\<open>UINT8\<close>; the source guards every index by
  \<^verbatim>\<open>SSP_SOCKET_MAX\<close> and the guards are kept where the source has them. The software
  lock is not modelled: every function runs to completion on one thread.
  The host is little-endian (\<^verbatim>\<open>LE()\<close> is true), so \<^verbatim>\<open>bswap16\<close> is never applied.
\<close>

type_synonym u8 = "8 word"
type_synonym u16 = "16 word"
type_synonym u32 = "32 word"

datatype SspDataType = SSP_RECEIVE | SSP_SEND

datatype SspErr =
    SSP_SUCCESS
  | SSP_BAD_SIGNATURE
  | SSP_PARTIAL_PACKET
  | SSP_PARTIAL_PACKET_HEADER_VALID
  | SSP_PORT_OPEN_FAILED
  | SSP_SOCKET_NOT_OPEN
  | SSP_PORT_NOT_OPEN
  | SSP_BAD_SOCKET_ID
  | SSP_SOCKET_ALREADY_OPEN
  | SSP_PACKET_TOO_LARGE
  | SSP_DATA_SIZE_TOO_LARGE
  | SSP_PARSE_ERROR
  | SSP_CORRUPTED_PACKET
  | SSP_BAD_HEADER_CHECKSUM
  | SSP_SEND_RETRIES_FAILED
  | SSP_QUEUE_FULL
  | SSP_OUT_OF_MEMORY
  | SSP_BAD_ARGUMENT
  | SSP_SEND_FAILURE
  | SSP_NOT_INITIALIZED
  | SSP_DUPLICATE_LISTENER
  | SSP_SOFTWARE_FAULT

datatype SspPortId = SSP_INVALID_PORT | SSP_PORT1 | SSP_PORT2

datatype SendDataState = SEND_STATE | RECEIVE_STATE

datatype ParseState =
    PS_SIGNATURE_1
  | PS_SIGNATURE_2
  | PS_DESTINATION
  | PS_SOURCE
  | PS_TYPE
  | PS_BODY_SIZE
  | PS_TRANSACTION
  | PS_CHECKSUM
  | PS_BODY
  | PS_FOOTER_1
  | PS_FOOTER_2

text \<open>Build options of \<^verbatim>\<open>ssp_opt.h\<close> and the sizes derived in \<^verbatim>\<open>ssp_common_p.h\<close>.\<close>

definition SSP_ACK_TIMEOUT :: nat where "SSP_ACK_TIMEOUT = 200"
definition SSP_MAX_RETRIES :: nat where "SSP_MAX_RETRIES = 4"
definition SSP_MAX_MESSAGES :: nat where "SSP_MAX_MESSAGES = 5"
definition SSP_MAX_PACKET_SIZE :: nat where "SSP_MAX_PACKET_SIZE = 64"
definition SSP_SOCKET_MAX :: nat where "SSP_SOCKET_MAX = 3"
definition HEADER_SIZE :: nat where "HEADER_SIZE = 8"
definition SSP_MAX_BODY_SIZE :: nat where
  "SSP_MAX_BODY_SIZE = SSP_MAX_PACKET_SIZE - HEADER_SIZE - 2"
definition MAX_PORT_RECV_BYTES :: nat where "MAX_PORT_RECV_BYTES = 1"
definition PARSE_HISTORY_SIZE :: nat where "PARSE_HISTORY_SIZE = HEADER_SIZE"

definition SIG_1 :: u8 where "SIG_1 = 0xBE"
definition SIG_2 :: u8 where "SIG_2 = 0xEF"

text \<open>The packet types of \<^verbatim>\<open>SspMsgType\<close>, as the byte stored in the header.\<close>

definition MSG_TYPE_DATA :: u8 where "MSG_TYPE_DATA = 0"
definition MSG_TYPE_ACK :: u8 where "MSG_TYPE_ACK = 1"
definition MSG_TYPE_NAK :: u8 where "MSG_TYPE_NAK = 2"

record SspPacketHeader =
  sig0 :: u8
  sig1 :: u8
  destId :: u8
  srcId :: u8
  type :: u8
  bodySize :: u8
  transId :: u8
  checksum :: u8

text \<open>
  \<^verbatim>\<open>SspData\<close> with its \<^verbatim>\<open>SspPacket\<close> flattened: \<open>header\<close> and \<open>body\<close> are the packet,
  \<open>body\<close> has the length the block was allocated for, and \<open>crc\<close> is the \<^verbatim>\<open>UINT16\<close> the
  \<^verbatim>\<open>crc\<close> pointer designates (the two bytes after the allocated body).
  The field \<^verbatim>\<open>type\<close> of \<^verbatim>\<open>SspData\<close> is \<open>dataType\<close> here, the header keeps \<open>type\<close>.
\<close>

record SspData =
  err :: SspErr
  dataType :: SspDataType
  crc :: u16
  packetSize :: u16
  header :: SspPacketHeader
  body :: "u8 list"

record SendData =
  sendTickStamp :: u32
  sendRetries :: u32
  state :: SendDataState
  sspData :: SspData

record ReceivedTransId =
  rtTransId :: u8
  rtCrc :: u16

text \<open>
  Module data of \<^verbatim>\<open>ssp_com.c\<close>. \<open>sspDataRecv\<close> is the receive block that
  \<^verbatim>\<open>SSPCOM_Init\<close> allocates with a body of \<^verbatim>\<open>SSP_MAX_BODY_SIZE\<close> bytes. The
  function-local statics of \<^verbatim>\<open>Receive\<close> are a record of their own.
\<close>

record SspComObj =
  socketToPortIdMap :: "u8 \<Rightarrow> SspPortId"
  parseState :: ParseState
  currentFooter :: u16
  sspDataRecv :: SspData
  parseBytes :: u16
  comInitOnce :: bool

record ReceiveStatics =
  parseHistory :: "u8 list"
  parseHistoryIdx :: nat

text \<open>
  Module data of \<^verbatim>\<open>ssp.c\<close>. A listener is a function pointer; it is modelled by an
  identifier, \<open>None\<close> being the null pointer. User data is an opaque number.
\<close>

record SspObj =
  sendTransId :: u8
  socketToCallbackMap :: "u8 \<Rightarrow> nat option"
  socketToUserDataMap :: "u8 \<Rightarrow> nat"
  initOnce :: bool
  sendDataListHead :: "SspPortId \<Rightarrow> SendData list"
  lastReceivedTransId :: "SspPortId \<Rightarrow> ReceivedTransId"
  sspDataForAckNak :: "SspData option"

text \<open>
  The transport (\<^verbatim>\<open>ssp_hal.h\<close>) is an external collaborator. Its state is what the
  core reads from it: which ports are open, whether opening a port and sending succeed,
  and the bytes waiting on each port.
\<close>

record Hal =
  portIsOpen :: "SspPortId \<Rightarrow> bool"
  portOpenOk :: bool
  portSendOk :: bool
  recvDataBuf :: "SspPortId \<Rightarrow> u8 list"
  powerSave :: bool

text \<open>
  What the core does to the outside world, in order: byte runs handed to the transport that
  the transport accepted, listener invocations with the arguments of \<^verbatim>\<open>SspDataCallback\<close>
  (callback, socket, data, size, type, status, user data), and error-handler invocations.
\<close>

datatype Event =
    PortSend SspPortId "u8 list"
  | Callback nat u8 "u8 list" u16 SspDataType SspErr nat
  | ErrorHandled nat SspErr

record World =
  com :: SspComObj
  recvStatics :: ReceiveStatics
  ssp :: SspObj
  hal :: Hal
  tick :: u32
  events :: "Event list"
  lastErr :: SspErr
  errorHandlerFunc :: "nat option"

section \<open>Codec (\<^verbatim>\<open>ssp_com.c\<close>)\<close>

text \<open>\<^verbatim>\<open>Checksum\<close>: the 8-bit wrapping sum of the bytes.\<close>

definition Checksum :: "u8 list \<Rightarrow> u8" where
  "Checksum data = foldl (+) 0 data"

text \<open>
  Modelled from the spec: \<^verbatim>\<open>Crc16CalcBlock\<close> (\<^verbatim>\<open>ssp_crc.c\<close> is not among the sources).
  The specification asks for a CRC-16 with the reflected polynomial 0xA001, the initial
  value given by the caller (0xFFFF at both call sites) and no final XOR.
\<close>

definition crc16_bit :: "u16 \<Rightarrow> u16" where
  "crc16_bit c = (if bit c 0 then drop_bit 1 c XOR 0xA001 else drop_bit 1 c)"

definition crc16_byte :: "u16 \<Rightarrow> u8 \<Rightarrow> u16" where
  "crc16_byte c b =
     crc16_bit (crc16_bit (crc16_bit (crc16_bit
       (crc16_bit (crc16_bit (crc16_bit (crc16_bit (c XOR ucast b))))))))"

definition Crc16CalcBlock :: "u8 list \<Rightarrow> u16 \<Rightarrow> u16" where
  "Crc16CalcBlock msg c = foldl crc16_byte c msg"

text \<open>The header as it lies in memory, and its first seven bytes.\<close>

definition header_bytes :: "SspPacketHeader \<Rightarrow> u8 list" where
  "header_bytes h =
     [sig0 h, sig1 h, destId h, srcId h, type h, bodySize h, transId h, checksum h]"

text \<open>
  The bytes \<^verbatim>\<open>Crc16CalcBlock\<close> reads at both call sites: the header followed by
  \<open>bodySize\<close> bytes of the body.
\<close>

definition crc_range :: "SspData \<Rightarrow> u8 list" where
  "crc_range d = header_bytes (header d) @ take (unat (bodySize (header d))) (body d)"

text \<open>
  The \<open>packetSize\<close> bytes starting at \<^verbatim>\<open>&sspData->packet\<close>: header, allocated body, and
  the CRC in host order (low byte first).
\<close>

definition packet_bytes :: "SspData \<Rightarrow> u8 list" where
  "packet_bytes d =
     take (unat (packetSize d))
       (header_bytes (header d) @ body d @ [ucast (crc d), ucast (drop_bit 8 (crc d))])"

text \<open>\<^verbatim>\<open>SSPCOM_InitSspData\<close> and \<^verbatim>\<open>SSPCOM_AllocateSspData\<close> (a zeroed block).\<close>

definition zero_header :: SspPacketHeader where
  "zero_header = \<lparr>sig0 = 0, sig1 = 0, destId = 0, srcId = 0, type = 0, bodySize = 0,
                  transId = 0, checksum = 0\<rparr>"

definition SSPCOM_AllocateSspData :: "u16 \<Rightarrow> SspData" where
  "SSPCOM_AllocateSspData dataSize =
     \<lparr>err = SSP_SUCCESS, dataType = SSP_RECEIVE, crc = 0,
      packetSize = of_nat (HEADER_SIZE + unat dataSize + 2),
      header = zero_header, body = replicate (unat dataSize) 0\<rparr>"

section \<open>Parser state machine (\<^verbatim>\<open>Parse\<close>)\<close>

definition ParseReset :: "SspComObj \<Rightarrow> SspComObj" where
  "ParseReset s = s\<lparr>parseState := PS_SIGNATURE_1, parseBytes := 0\<rparr>"

definition recv_err :: "SspErr \<Rightarrow> SspComObj \<Rightarrow> SspComObj" where
  "recv_err e s = s\<lparr>sspDataRecv := (sspDataRecv s)\<lparr>err := e\<rparr>\<rparr>"

definition recv_header :: "(SspPacketHeader \<Rightarrow> SspPacketHeader) \<Rightarrow> SspComObj \<Rightarrow> SspComObj" where
  "recv_header f s = s\<lparr>sspDataRecv := (sspDataRecv s)\<lparr>header := f (header (sspDataRecv s))\<rparr>\<rparr>"

text \<open>\<^verbatim>\<open>case PS_FOOTER_1\<close>, also reached by falling through from \<^verbatim>\<open>PS_BODY\<close>.\<close>

definition parse_footer_1 :: "SspComObj \<Rightarrow> u8 \<Rightarrow> SspComObj \<times> bool" where
  "parse_footer_1 s p = (s\<lparr>currentFooter := ucast p, parseState := PS_FOOTER_2\<rparr>, False)"

text \<open>\<^verbatim>\<open>case PS_FOOTER_2\<close>: destination check, then the CRC comparison.\<close>

definition parse_footer_2 :: "SspComObj \<Rightarrow> u8 \<Rightarrow> SspComObj \<times> bool" where
  "parse_footer_2 s p =
     (let d = destId (header (sspDataRecv s));
          s1 = (if unat d \<ge> SSP_SOCKET_MAX then recv_err SSP_BAD_SOCKET_ID s
                else if socketToPortIdMap s d = SSP_INVALID_PORT then recv_err SSP_SOCKET_NOT_OPEN s
                else
                  (let s2 = s\<lparr>currentFooter := currentFooter s + push_bit 8 (ucast p)\<rparr>;
                       c = Crc16CalcBlock (crc_range (sspDataRecv s2)) 0xFFFF
                   in if currentFooter s2 = c
                      then s2\<lparr>sspDataRecv := (sspDataRecv s2)\<lparr>err := SSP_SUCCESS, crc := c\<rparr>\<rparr>
                      else recv_err SSP_CORRUPTED_PACKET s2))
      in (ParseReset s1, True))"

text \<open>
  One iteration of the \<^verbatim>\<open>for\<close> loop of \<^verbatim>\<open>Parse\<close>: the new module data and
  \<^verbatim>\<open>parseComplete\<close>. In \<^verbatim>\<open>PS_BODY\<close> the body pointer is the address of the flexible array
  member and is never null, so the \<^verbatim>\<open>SSP_PARSE_ERROR\<close> branch cannot be taken.
\<close>

definition Parse_byte :: "SspComObj \<Rightarrow> u8 \<Rightarrow> SspComObj \<times> bool" where
  "Parse_byte s p =
     (case parseState s of
        PS_SIGNATURE_1 \<Rightarrow>
          (let s1 = recv_header (\<lambda>h. h\<lparr>sig0 := SIG_1, sig1 := SIG_2\<rparr>)
                      (recv_err SSP_PARTIAL_PACKET s)
           in if p = SIG_1 then (s1\<lparr>parseState := PS_SIGNATURE_2\<rparr>, False)
              else (ParseReset (recv_err SSP_BAD_SIGNATURE s1), False))
      | PS_SIGNATURE_2 \<Rightarrow>
          (if p = SIG_2 then (s\<lparr>parseState := PS_DESTINATION\<rparr>, False)
           else if p = SIG_1 then (s\<lparr>parseState := PS_SIGNATURE_2\<rparr>, False)
           else (ParseReset (recv_err SSP_BAD_SIGNATURE s), False))
      | PS_DESTINATION \<Rightarrow>
          ((recv_header (\<lambda>h. h\<lparr>destId := p\<rparr>) s)\<lparr>parseState := PS_SOURCE\<rparr>, False)
      | PS_SOURCE \<Rightarrow>
          ((recv_header (\<lambda>h. h\<lparr>srcId := p\<rparr>) s)\<lparr>parseState := PS_TYPE\<rparr>, False)
      | PS_TYPE \<Rightarrow>
          ((recv_header (\<lambda>h. h\<lparr>type := p\<rparr>) s)\<lparr>parseState := PS_BODY_SIZE\<rparr>, False)
      | PS_BODY_SIZE \<Rightarrow>
          ((recv_header (\<lambda>h. h\<lparr>bodySize := p\<rparr>) s)\<lparr>parseState := PS_TRANSACTION\<rparr>, False)
      | PS_TRANSACTION \<Rightarrow>
          ((recv_header (\<lambda>h. h\<lparr>transId := p\<rparr>) s)\<lparr>parseState := PS_CHECKSUM\<rparr>, False)
      | PS_CHECKSUM \<Rightarrow>
          (let s1 = recv_header (\<lambda>h. h\<lparr>checksum := p\<rparr>) s
           in if p = Checksum (take (HEADER_SIZE - 1) (header_bytes (header (sspDataRecv s1))))
              then
                (let s2 = recv_err SSP_PARTIAL_PACKET_HEADER_VALID s1
                 in if unat (bodySize (header (sspDataRecv s2))) \<le> SSP_MAX_BODY_SIZE
                    then (s2\<lparr>parseState := PS_BODY\<rparr>, False)
                    else (ParseReset (recv_err SSP_PACKET_TOO_LARGE s2), True))
              else (ParseReset (recv_err SSP_BAD_HEADER_CHECKSUM s1), True))
      | PS_BODY \<Rightarrow>
          (if bodySize (header (sspDataRecv s)) \<noteq> 0
           then
             (let s1 = s\<lparr>sspDataRecv :=
                          (sspDataRecv s)\<lparr>body := (body (sspDataRecv s))[unat (parseBytes s) := p]\<rparr>\<rparr>;
                  s2 = s1\<lparr>parseBytes := parseBytes s1 + 1\<rparr>
              in if unat (parseBytes s2) \<ge> unat (bodySize (header (sspDataRecv s2)))
                 then (s2\<lparr>parseState := PS_FOOTER_1\<rparr>, False)
                 else (s2, False))
           else parse_footer_1 (s\<lparr>parseState := PS_FOOTER_1\<rparr>) p)
      | PS_FOOTER_1 \<Rightarrow> parse_footer_1 s p
      | PS_FOOTER_2 \<Rightarrow> parse_footer_2 s p)"

text \<open>
  The \<^verbatim>\<open>for\<close> loop: bytes are consumed until the buffer ends or \<^verbatim>\<open>parseComplete\<close> is
  set; the third component is \<^verbatim>\<open>*bytesParsed\<close>.
\<close>

fun Parse_loop :: "SspComObj \<Rightarrow> u8 list \<Rightarrow> nat \<Rightarrow> SspComObj \<times> bool \<times> nat" where
  "Parse_loop s [] n = (s, False, n)"
| "Parse_loop s (p # ps) n =
     (case Parse_byte s p of
        (s1, True) \<Rightarrow> (s1, True, Suc n)
      | (s1, False) \<Rightarrow> Parse_loop s1 ps (Suc n))"

definition Parse :: "SspComObj \<Rightarrow> u8 list \<Rightarrow> SspComObj \<times> bool \<times> nat" where
  "Parse s buf = (if buf = [] then (s, True, 0) else Parse_loop s buf 0)"

section \<open>Transport and error reporting\<close>

text \<open>
  \<^verbatim>\<open>SSPHAL_PortRecv\<close> hands over up to \<open>maxLen\<close> waiting bytes; \<^verbatim>\<open>SSPHAL_PortSend\<close> is
  all-or-nothing and refuses an empty run; an accepted run is recorded as an event.
\<close>

definition SSPHAL_PortRecv :: "SspPortId \<Rightarrow> nat \<Rightarrow> World \<Rightarrow> u8 list \<times> World" where
  "SSPHAL_PortRecv portId maxLen w =
     (take maxLen (recvDataBuf (hal w) portId),
      w\<lparr>hal := (hal w)\<lparr>recvDataBuf :=
             (recvDataBuf (hal w))(portId := drop maxLen (recvDataBuf (hal w) portId))\<rparr>\<rparr>)"

definition SSPHAL_IsRecvQueueEmpty :: "SspPortId \<Rightarrow> World \<Rightarrow> bool" where
  "SSPHAL_IsRecvQueueEmpty portId w = (recvDataBuf (hal w) portId = [])"

definition SSPHAL_PortSend :: "SspPortId \<Rightarrow> u8 list \<Rightarrow> World \<Rightarrow> bool \<times> World" where
  "SSPHAL_PortSend portId buf w =
     (if buf = [] then (False, w)
      else if portSendOk (hal w) then (True, w\<lparr>events := events w @ [PortSend portId buf]\<rparr>)
      else (False, w))"

definition SSPHAL_PowerSave :: "bool \<Rightarrow> World \<Rightarrow> World" where
  "SSPHAL_PowerSave enable w = w\<lparr>hal := (hal w)\<lparr>powerSave := enable\<rparr>\<rparr>"

text \<open>\<^verbatim>\<open>SSPCMN_ReportErr\<close> (\<^verbatim>\<open>ssp_common_p.c\<close>).\<close>

definition SSPCMN_ReportErr :: "SspErr \<Rightarrow> World \<Rightarrow> SspErr \<times> World" where
  "SSPCMN_ReportErr e w =
     (e, (case errorHandlerFunc w of
            None \<Rightarrow> w\<lparr>lastErr := e\<rparr>
          | Some h \<Rightarrow> w\<lparr>lastErr := e, events := events w @ [ErrorHandled h e]\<rparr>))"

section \<open>Socket table and sending (\<^verbatim>\<open>ssp_com.c\<close>)\<close>

definition SSPCOM_IsPortOpen :: "SspPortId \<Rightarrow> World \<Rightarrow> bool" where
  "SSPCOM_IsPortOpen portId w = portIsOpen (hal w) portId"

definition SSPCOM_IsSocketOpen :: "u8 \<Rightarrow> World \<Rightarrow> bool" where
  "SSPCOM_IsSocketOpen socketId w =
     (if unat socketId \<ge> SSP_SOCKET_MAX then False
      else socketToPortIdMap (com w) socketId \<noteq> SSP_INVALID_PORT)"

definition SSPCOM_GetPortId :: "u8 \<Rightarrow> World \<Rightarrow> SspErr + SspPortId" where
  "SSPCOM_GetPortId socketId w =
     (if unat socketId \<ge> SSP_SOCKET_MAX then Inl SSP_BAD_SOCKET_ID
      else if socketToPortIdMap (com w) socketId = SSP_INVALID_PORT then Inl SSP_SOCKET_NOT_OPEN
      else Inr (socketToPortIdMap (com w) socketId))"

definition SSPCOM_CloseSocket :: "u8 \<Rightarrow> World \<Rightarrow> SspErr \<times> World" where
  "SSPCOM_CloseSocket socketId w =
     (if unat socketId \<ge> SSP_SOCKET_MAX then (SSP_BAD_SOCKET_ID, w)
      else (SSP_SUCCESS,
            w\<lparr>com := (com w)\<lparr>socketToPortIdMap :=
                   (socketToPortIdMap (com w))(socketId := SSP_INVALID_PORT)\<rparr>\<rparr>))"

definition SSPCOM_OpenSocket :: "SspPortId \<Rightarrow> u8 \<Rightarrow> World \<Rightarrow> SspErr \<times> World" where
  "SSPCOM_OpenSocket portId socketId w =
     (if \<not> SSPCOM_IsPortOpen portId w then (SSP_PORT_NOT_OPEN, w)
      else if unat socketId \<ge> SSP_SOCKET_MAX then (SSP_BAD_SOCKET_ID, w)
      else if SSPCOM_IsSocketOpen socketId w then (SSP_SOCKET_ALREADY_OPEN, w)
      else (SSP_SUCCESS,
            w\<lparr>com := (com w)\<lparr>socketToPortIdMap :=
                   (socketToPortIdMap (com w))(socketId := portId)\<rparr>\<rparr>))"

text \<open>
  The part of \<^verbatim>\<open>SSPCOM_Send\<close> that completes the packet in place: signature, header
  checksum over the first seven header bytes, then the CRC over header and body.
\<close>

definition fill_packet :: "SspData \<Rightarrow> SspData" where
  "fill_packet d =
     (let h1 = (header d)\<lparr>sig0 := SIG_1, sig1 := SIG_2\<rparr>;
          h2 = h1\<lparr>checksum := Checksum (take (HEADER_SIZE - 1) (header_bytes h1))\<rparr>;
          d1 = d\<lparr>header := h2\<rparr>
      in d1\<lparr>crc := Crc16CalcBlock (crc_range d1) 0xFFFF\<rparr>)"

text \<open>
  \<^verbatim>\<open>SSPCOM_Send\<close>. The block is passed by pointer and completed in place, so the
  completed block is returned with the status.
\<close>

definition SSPCOM_Send :: "SspData \<Rightarrow> World \<Rightarrow> SspErr \<times> SspData \<times> World" where
  "SSPCOM_Send d w =
     (if unat (srcId (header d)) \<ge> SSP_SOCKET_MAX then (SSP_BAD_SOCKET_ID, d, w)
      else if \<not> SSPCOM_IsSocketOpen (srcId (header d)) w then (SSP_SOCKET_NOT_OPEN, d, w)
      else
        (case SSPCOM_GetPortId (srcId (header d)) w of
           Inl e \<Rightarrow> (SSP_BAD_SOCKET_ID, d, w)
         | Inr portId \<Rightarrow>
             if \<not> SSPCOM_IsPortOpen portId w then (SSP_PORT_NOT_OPEN, d, w)
             else
               (let d1 = fill_packet d
                in case SSPHAL_PortSend portId (packet_bytes d1) w of
                     (True, w1) \<Rightarrow> (SSP_SUCCESS, d1, w1)
                   | (False, w1) \<Rightarrow> (SSP_SEND_FAILURE, d1, w1))))"

section \<open>Receive loop (\<^verbatim>\<open>Receive\<close>)\<close>

text \<open>
  The history loop: parsed bytes are stored while \<open>parseHistoryIdx\<close> is below
  \<^verbatim>\<open>PARSE_HISTORY_SIZE\<close>.
\<close>

fun save_history :: "u8 list \<Rightarrow> nat \<Rightarrow> u8 list \<Rightarrow> u8 list \<times> nat" where
  "save_history h idx [] = (h, idx)"
| "save_history h idx (b # bs) =
     (if idx \<ge> PARSE_HISTORY_SIZE then (h, idx)
      else save_history (h[idx := b]) (Suc idx) bs)"

text \<open>
  One pass through the body of the \<^verbatim>\<open>do ... while (!complete)\<close> loop. The result is the
  new state and, when the loop goes round again, the value of \<^verbatim>\<open>readFromPort\<close> for the
  next pass. When the history is re-parsed, \<^verbatim>\<open>parseData\<close> designates
  \<^verbatim>\<open>parseHistory[1..]\<close>; the history loop then copies those bytes one place down, which
  reads each byte before it is overwritten.
\<close>

definition Receive_pass :: "SspPortId \<Rightarrow> bool \<Rightarrow> World \<Rightarrow> World \<times> bool option" where
  "Receive_pass portId readFromPort w =
     (let (parseData, w1) =
            (if readFromPort then SSPHAL_PortRecv portId MAX_PORT_RECV_BYTES w
             else (take (PARSE_HISTORY_SIZE - 1) (drop 1 (parseHistory (recvStatics w))),
                   w\<lparr>recvStatics := (recvStatics w)\<lparr>parseHistoryIdx := 0\<rparr>\<rparr>))
      in if parseData \<noteq> [] then
           (let (c1, complete, n) = Parse (com w1) parseData;
                (h, idx) = save_history (parseHistory (recvStatics w1))
                             (parseHistoryIdx (recvStatics w1)) parseData;
                w2 = w1\<lparr>com := c1, recvStatics := \<lparr>parseHistory = h, parseHistoryIdx = idx\<rparr>\<rparr>
            in if complete \<and> err (sspDataRecv c1) = SSP_BAD_HEADER_CHECKSUM
                  \<and> idx = PARSE_HISTORY_SIZE
               then (w2, Some False)
               else if \<not> complete then (w2, Some True)
               else (w2, None))
         else (w1, None))"

definition Receive_measure :: "SspPortId \<Rightarrow> bool \<times> World \<Rightarrow> nat" where
  "Receive_measure portId = (\<lambda>(readFromPort, w).
     2 * length (recvDataBuf (hal w) portId) + (if readFromPort then 0 else 1))"

lemma save_history_idx: "snd (save_history h idx bs) \<le> idx + length bs"
  by (induction h idx bs rule: save_history.induct) auto

lemma Receive_pass_decreases:
  assumes "Receive_pass portId readFromPort w = (w', Some r)"
  shows "Receive_measure portId (r, w') < Receive_measure portId (readFromPort, w)"
proof (cases readFromPort)
  case True
  with assms show ?thesis
    by (cases "recvDataBuf (hal w) portId")
       (auto simp: Receive_pass_def Receive_measure_def SSPHAL_PortRecv_def
          MAX_PORT_RECV_BYTES_def Let_def split: prod.splits if_splits)
next
  case False
  have "snd (save_history h 0 (take (PARSE_HISTORY_SIZE - 1) bs)) < PARSE_HISTORY_SIZE" for h bs
    using save_history_idx [of h 0 "take (PARSE_HISTORY_SIZE - 1) bs"]
    by (simp add: PARSE_HISTORY_SIZE_def HEADER_SIZE_def)
  then have neq:
    "save_history h 0 (take (PARSE_HISTORY_SIZE - Suc 0) bs) \<noteq> (h', PARSE_HISTORY_SIZE)"
    for h bs h'
    by (metis One_nat_def less_irrefl snd_conv)
  from False assms show ?thesis
    by (auto simp: Receive_pass_def Receive_measure_def Let_def neq
          split: prod.splits if_splits)
qed

text \<open>
  The loop itself. It ends: a pass that reads the port consumes a byte or stops, and a pass
  that re-parses the history leaves \<open>parseHistoryIdx\<close> at seven, so the next pass reads the
  port again.
\<close>

function Receive_loop :: "SspPortId \<Rightarrow> bool \<Rightarrow> World \<Rightarrow> World" where
  "Receive_loop portId readFromPort w =
     (case Receive_pass portId readFromPort w of
        (w1, None) \<Rightarrow> w1
      | (w1, Some r) \<Rightarrow> Receive_loop portId r w1)"
  by pat_completeness auto
termination
  apply (relation "measure (\<lambda>(portId, r, w). Receive_measure portId (r, w))")
   apply simp
  using Receive_pass_decreases apply auto
  done

declare Receive_loop.simps [simp del]

text \<open>
  \<^verbatim>\<open>Receive\<close> returns the status of the receive block and a pointer to it;
  \<^verbatim>\<open>SSPCOM_ProcessReceive\<close> leaves the pointer null when the port is closed.
\<close>

definition Receive :: "SspPortId \<Rightarrow> World \<Rightarrow> SspErr \<times> SspData option \<times> World" where
  "Receive portId w =
     (let w1 = Receive_loop portId True w
      in (err (sspDataRecv (com w1)), Some (sspDataRecv (com w1)), w1))"

definition SSPCOM_ProcessReceive :: "SspPortId \<Rightarrow> World \<Rightarrow> SspErr \<times> SspData option \<times> World" where
  "SSPCOM_ProcessReceive portId w =
     (if \<not> SSPCOM_IsPortOpen portId w then (SSP_PORT_NOT_OPEN, None, w)
      else Receive portId w)"

text \<open>\<^verbatim>\<open>SSPCOM_Init\<close>: the first call resets the parser and allocates the receive block.\<close>

definition SSPHAL_PortOpen :: "SspPortId \<Rightarrow> World \<Rightarrow> bool \<times> World" where
  "SSPHAL_PortOpen portId w =
     (if portOpenOk (hal w)
      then (True, w\<lparr>hal := (hal w)\<lparr>portIsOpen := (portIsOpen (hal w))(portId := True)\<rparr>\<rparr>)
      else (False, w))"

definition SSPCOM_Init :: "SspPortId \<Rightarrow> World \<Rightarrow> SspErr \<times> World" where
  "SSPCOM_Init portId w =
     (let w1 = (if \<not> comInitOnce (com w)
                then w\<lparr>com := (com w)\<lparr>comInitOnce := True, parseState := PS_SIGNATURE_1,
                         sspDataRecv := (SSPCOM_AllocateSspData (of_nat SSP_MAX_BODY_SIZE))
                                           \<lparr>dataType := SSP_RECEIVE\<rparr>\<rparr>\<rparr>
                else w)
      in case SSPHAL_PortOpen portId w1 of
           (True, w2) \<Rightarrow> (SSP_SUCCESS, w2)
         | (False, w2) \<Rightarrow> (SSP_PORT_OPEN_FAILED, w2))"

section \<open>Send queue (\<^verbatim>\<open>ssp.c\<close>)\<close>

definition MAX_SEND_DATA_BLOCKS :: nat where "MAX_SEND_DATA_BLOCKS = SSP_MAX_MESSAGES"

definition queue :: "World \<Rightarrow> SspPortId \<Rightarrow> SendData list" where
  "queue w portId = sendDataListHead (ssp w) portId"

definition set_queue :: "SspPortId \<Rightarrow> SendData list \<Rightarrow> World \<Rightarrow> World" where
  "set_queue portId q w =
     w\<lparr>ssp := (ssp w)\<lparr>sendDataListHead := (sendDataListHead (ssp w))(portId := q)\<rparr>\<rparr>"

text \<open>
  Modelled from the spec: the fixed block allocator (\<^verbatim>\<open>fb_allocator.c\<close> is not among the
  sources). \<^verbatim>\<open>ssp.c\<close> defines a pool of \<^verbatim>\<open>MAX_SEND_DATA_BLOCKS\<close> blocks for \<^verbatim>\<open>SendData\<close>
  and \<^verbatim>\<open>ssp_com.c\<close> a pool whose blocks hold a body of \<^verbatim>\<open>SSP_MAX_BODY_SIZE\<close> bytes. A block
  is in use exactly while its entry is in one of the lists, so a request succeeds while
  fewer than \<^verbatim>\<open>MAX_SEND_DATA_BLOCKS\<close> entries are queued and the body fits a block. The new
  block is zeroed.
\<close>

definition blocks_in_use :: "World \<Rightarrow> nat" where
  "blocks_in_use w =
     length (queue w SSP_INVALID_PORT) + length (queue w SSP_PORT1) + length (queue w SSP_PORT2)"

definition AllocSendData :: "u16 \<Rightarrow> World \<Rightarrow> SendData option" where
  "AllocSendData dataSize w =
     (if blocks_in_use w < MAX_SEND_DATA_BLOCKS \<and> unat dataSize \<le> SSP_MAX_BODY_SIZE
      then Some \<lparr>sendTickStamp = 0, sendRetries = 0, state = SEND_STATE,
                 sspData = SSPCOM_AllocateSspData dataSize\<rparr>
      else None)"

definition ListInsert :: "SspPortId \<Rightarrow> SendData \<Rightarrow> World \<Rightarrow> World" where
  "ListInsert portId sendData w = set_queue portId (queue w portId @ [sendData]) w"

text \<open>The header identity \<^verbatim>\<open>ListErase\<close> compares.\<close>

definition same_packet :: "SendData \<Rightarrow> SendData \<Rightarrow> bool" where
  "same_packet a b =
     (let ha = header (sspData a); hb = header (sspData b)
      in transId ha = transId hb \<and> destId ha = destId hb \<and> srcId ha = srcId hb
         \<and> type ha = type hb \<and> checksum ha = checksum hb \<and> bodySize ha = bodySize hb)"

fun unlink_first :: "(SendData \<Rightarrow> bool) \<Rightarrow> SendData list \<Rightarrow> SendData list" where
  "unlink_first P [] = []"
| "unlink_first P (x # xs) = (if P x then xs else x # unlink_first P xs)"

definition ListErase :: "SspPortId \<Rightarrow> SendData \<Rightarrow> World \<Rightarrow> World" where
  "ListErase portId sendData w =
     set_queue portId (unlink_first (\<lambda>c. same_packet c sendData) (queue w portId)) w"

definition ListFront :: "SspPortId \<Rightarrow> World \<Rightarrow> SendData option" where
  "ListFront portId w = (case queue w portId of [] \<Rightarrow> None | x # xs \<Rightarrow> Some x)"

text \<open>
  \<^verbatim>\<open>ListFind\<close> returns a pointer to the first entry that answers the received header; the
  model returns its position in the list.
\<close>

definition answers :: "SspPacketHeader \<Rightarrow> SendData \<Rightarrow> bool" where
  "answers h msg =
     (destId (header (sspData msg)) = srcId h \<and> srcId (header (sspData msg)) = destId h
      \<and> transId (header (sspData msg)) = transId h)"

fun find_first :: "(SendData \<Rightarrow> bool) \<Rightarrow> SendData list \<Rightarrow> nat \<Rightarrow> nat option" where
  "find_first P [] i = None"
| "find_first P (x # xs) i = (if P x then Some i else find_first P xs (Suc i))"

definition ListFind :: "SspPortId \<Rightarrow> SspPacketHeader \<Rightarrow> World \<Rightarrow> nat option" where
  "ListFind portId h w = find_first (answers h) (queue w portId) 0"

definition ListSize :: "SspPortId \<Rightarrow> World \<Rightarrow> u16" where
  "ListSize portId w = of_nat (length (queue w portId))"

section \<open>Reliability engine (\<^verbatim>\<open>ssp.c\<close>)\<close>

text \<open>
  \<^verbatim>\<open>SendAck\<close> and \<^verbatim>\<open>SendNak\<close> fill the dedicated block and send it; the status of the
  send is dropped, as in the source.
\<close>

definition ack_nak_block :: "u8 \<Rightarrow> SspPacketHeader \<Rightarrow> SspData \<Rightarrow> SspData" where
  "ack_nak_block t h d =
     d\<lparr>err := SSP_SUCCESS, dataType := SSP_SEND,
       header := (header d)\<lparr>srcId := destId h, destId := srcId h, bodySize := 0,
                             transId := transId h, type := t\<rparr>\<rparr>"

definition SendAck :: "SspPacketHeader \<Rightarrow> World \<Rightarrow> World" where
  "SendAck headerToAck w =
     (case sspDataForAckNak (ssp w) of
        None \<Rightarrow> w
      | Some d \<Rightarrow>
          (case SSPCOM_Send (ack_nak_block MSG_TYPE_ACK headerToAck d) w of
             (e, d1, w1) \<Rightarrow> w1\<lparr>ssp := (ssp w1)\<lparr>sspDataForAckNak := Some d1\<rparr>\<rparr>))"

definition SendNak :: "SspPacketHeader \<Rightarrow> World \<Rightarrow> World" where
  "SendNak headerToNak w =
     (case sspDataForAckNak (ssp w) of
        None \<Rightarrow> w
      | Some d \<Rightarrow>
          (case SSPCOM_Send (ack_nak_block MSG_TYPE_NAK headerToNak d) w of
             (e, d1, w1) \<Rightarrow> w1\<lparr>ssp := (ssp w1)\<lparr>sspDataForAckNak := Some d1\<rparr>\<rparr>))"

definition GetCallbackListener :: "u8 \<Rightarrow> World \<Rightarrow> nat option" where
  "GetCallbackListener socketId w = socketToCallbackMap (ssp w) socketId"

text \<open>
  \<^verbatim>\<open>CallbackListener\<close>: the listener receives the body pointer and \<open>bodySize\<close>; the event
  records the bytes it may read. The listener itself is outside the model and does not
  change the module data.
\<close>

definition CallbackListener :: "u8 \<Rightarrow> SspData \<Rightarrow> World \<Rightarrow> World" where
  "CallbackListener socketId d w =
     (case GetCallbackListener socketId w of
        None \<Rightarrow> w
      | Some cb \<Rightarrow>
          w\<lparr>events := events w @
              [Callback cb socketId (take (unat (bodySize (header d))) (body d))
                 (ucast (bodySize (header d))) (dataType d) (err d)
                 (socketToUserDataMap (ssp w) socketId)]\<rparr>)"

definition NotifyListener :: "u8 \<Rightarrow> SspData \<Rightarrow> World \<Rightarrow> World" where
  "NotifyListener socketId d w =
     (if type (header d) \<noteq> MSG_TYPE_DATA then w
      else if err d \<noteq> SSP_SUCCESS then CallbackListener socketId d w
      else
        (case SSPCOM_GetPortId (srcId (header d)) w of
           Inr portId \<Rightarrow>
             if dataType d = SSP_SEND then CallbackListener socketId d w
             else
               (let lr = lastReceivedTransId (ssp w) portId
                in if rtTransId lr = transId (header d) \<and> rtCrc lr = crc d then w
                   else CallbackListener socketId d
                          (w\<lparr>ssp := (ssp w)\<lparr>lastReceivedTransId :=
                                 (lastReceivedTransId (ssp w))
                                   (portId := \<lparr>rtTransId = transId (header d), rtCrc = crc d\<rparr>)\<rparr>\<rparr>))
         | Inl e \<Rightarrow> w))"

text \<open>
  \<^verbatim>\<open>ProcessSend\<close>. The head entry is changed through the pointer \<^verbatim>\<open>ListFront\<close> returned,
  so the changed entry is written back to the head of the list. The retry counter is read
  for the comparison and then incremented (\<^verbatim>\<open>sendRetries++ <= SSP_MAX_RETRIES\<close>).
  \<^verbatim>\<open>FreeSendData\<close> returns the block to the pool, which shows as the shorter list.
\<close>

definition set_front :: "SspPortId \<Rightarrow> SendData \<Rightarrow> World \<Rightarrow> World" where
  "set_front portId sd w = set_queue portId ((queue w portId)[0 := sd]) w"

definition ProcessSend :: "SspPortId \<Rightarrow> World \<Rightarrow> World" where
  "ProcessSend portId w =
     (case ListFront portId w of
        None \<Rightarrow> w
      | Some sendData \<Rightarrow>
          if state sendData = SEND_STATE then
            (let sd1 = sendData\<lparr>sendRetries := sendRetries sendData + 1\<rparr>
             in if unat (sendRetries sendData) \<le> SSP_MAX_RETRIES then
                  (case SSPCOM_Send (sspData sd1) w of
                     (e, d, w1) \<Rightarrow>
                       if e = SSP_SUCCESS
                       then set_front portId
                              (sd1\<lparr>sspData := d, sendTickStamp := tick w1,
                                   state := RECEIVE_STATE\<rparr>) w1
                       else set_front portId (sd1\<lparr>sspData := d\<rparr>) w1)
                else
                  (let sd2 = sd1\<lparr>sspData := (sspData sd1)\<lparr>err := SSP_SEND_RETRIES_FAILED\<rparr>\<rparr>;
                       w1 = set_front portId sd2 w;
                       w2 = NotifyListener (srcId (header (sspData sd2))) (sspData sd2) w1
                   in ListErase portId sd2 w2))
          else w)"

text \<open>
  \<^verbatim>\<open>ProcessReceive\<close>, first part: what is done with the outcome of
  \<^verbatim>\<open>SSPCOM_ProcessReceive\<close> (status and pointer to the receive block).
\<close>

definition ProcessReceive_packet :: "SspPortId \<Rightarrow> SspErr \<Rightarrow> SspData option \<Rightarrow> World \<Rightarrow> World" where
  "ProcessReceive_packet portId e received w =
     (case received of
        None \<Rightarrow> w
      | Some d \<Rightarrow>
          if e = SSP_SUCCESS then
            (if type (header d) = MSG_TYPE_ACK then
               (case ListFind portId (header d) w of
                  None \<Rightarrow> w
                | Some i \<Rightarrow>
                    (let sd = queue w portId ! i;
                         sd1 = sd\<lparr>sspData := (sspData sd)\<lparr>err := SSP_SUCCESS\<rparr>\<rparr>;
                         w1 = set_queue portId ((queue w portId)[i := sd1]) w;
                         w2 = NotifyListener (srcId (header (sspData sd1))) (sspData sd1) w1
                     in ListErase portId sd1 w2))
             else if type (header d) = MSG_TYPE_NAK then
               (case ListFind portId (header d) w of
                  None \<Rightarrow> w
                | Some i \<Rightarrow>
                    set_queue portId
                      ((queue w portId)[i := (queue w portId ! i)\<lparr>state := SEND_STATE\<rparr>]) w)
             else if type (header d) = MSG_TYPE_DATA then
               (if GetCallbackListener (destId (header d)) w \<noteq> None
                then NotifyListener (destId (header d)) d (SendAck (header d) w)
                else SendNak (header d) w)
             else w)
          else if (e = SSP_CORRUPTED_PACKET \<or> e = SSP_PARTIAL_PACKET_HEADER_VALID)
                  \<and> type (header d) = MSG_TYPE_DATA
          then SendNak (header d) w
          else w)"

text \<open>
  Second part: the timeout sweep over at most \<^verbatim>\<open>MAX_SEND_DATA_BLOCKS\<close> entries, with the
  unsigned 32-bit difference of the tick counter and the time stamp.
\<close>

definition check_timeout :: "u32 \<Rightarrow> SendData \<Rightarrow> SendData" where
  "check_timeout now sd =
     (if state sd = RECEIVE_STATE \<and> unat (now - sendTickStamp sd) > SSP_ACK_TIMEOUT
      then sd\<lparr>state := SEND_STATE\<rparr> else sd)"

definition ProcessReceive_timeouts :: "SspPortId \<Rightarrow> World \<Rightarrow> World" where
  "ProcessReceive_timeouts portId w =
     set_queue portId
       (map (check_timeout (tick w)) (take MAX_SEND_DATA_BLOCKS (queue w portId))
        @ drop MAX_SEND_DATA_BLOCKS (queue w portId)) w"

definition ProcessReceive :: "SspPortId \<Rightarrow> World \<Rightarrow> World" where
  "ProcessReceive portId w =
     ProcessReceive_timeouts portId
       (if \<not> SSPHAL_IsRecvQueueEmpty portId w
        then (case SSPCOM_ProcessReceive portId w of
                (e, received, w1) \<Rightarrow> ProcessReceive_packet portId e received w1)
        else w)"

section \<open>Public interface (\<^verbatim>\<open>ssp.c\<close>)\<close>

definition SSP_Init :: "SspPortId \<Rightarrow> World \<Rightarrow> SspErr \<times> World" where
  "SSP_Init portId w =
     SSPCOM_Init portId
       (if \<not> initOnce (ssp w)
        then w\<lparr>ssp := (ssp w)\<lparr>initOnce := True,
                 sspDataForAckNak := Some (SSPCOM_AllocateSspData 0)\<rparr>\<rparr>
        else w)"

definition SSP_OpenSocket :: "SspPortId \<Rightarrow> u8 \<Rightarrow> World \<Rightarrow> SspErr \<times> World" where
  "SSP_OpenSocket portId socketId w = SSPCOM_OpenSocket portId socketId w"

definition SSP_CloseSocket :: "u8 \<Rightarrow> World \<Rightarrow> SspErr \<times> World" where
  "SSP_CloseSocket socketId w = SSPCOM_CloseSocket socketId w"

text \<open>
  \<^verbatim>\<open>SSP_SendMultiple\<close>. The arguments are the arrays as the caller passes them: \<open>None\<close> is
  a null pointer, an array is the list of its elements, and a data buffer is the list of its
  bytes. C gives no meaning to a read or a write outside an array, so the result of a call
  is optional: \<open>None\<close> is a call that makes such an access, and \<open>Some\<close> carries what the
  call returns and the state it leaves.

  The first loop adds the sizes in a \<^verbatim>\<open>UINT16\<close>, which wraps.
\<close>

definition total_size :: "nat \<Rightarrow> u16 list \<Rightarrow> u16" where
  "total_size numData dataSizeArray = foldl (+) 0 (take numData dataSizeArray)"

text \<open>
  \<^verbatim>\<open>memcpy(dest, src, n)\<close> with \<open>dest\<close> at an offset into the body. The body has the
  \<open>dataSize\<close> bytes \<^verbatim>\<open>AllocSendData\<close> was asked for. The copy is defined when the source is
  not null and holds \<open>n\<close> bytes and the \<open>n\<close> bytes written lie inside the body.
\<close>

definition memcpy_at :: "u8 list \<Rightarrow> nat \<Rightarrow> u8 list option \<Rightarrow> nat \<Rightarrow> u8 list option" where
  "memcpy_at dest off src n =
     (case src of
        None \<Rightarrow> None
      | Some bytes \<Rightarrow>
          if n \<le> length bytes \<and> off + n \<le> length dest
          then Some (take off dest @ take n bytes @ drop (off + n) dest)
          else None)"

text \<open>
  The copy loop, with \<^verbatim>\<open>bytesCopied\<close> and \<^verbatim>\<open>bufSize\<close> in \<^verbatim>\<open>UINT16\<close>; \<open>k\<close> counts the
  passes left and \<open>i\<close> is the loop index. A pass reads \<^verbatim>\<open>dataArray[i]\<close> and
  \<^verbatim>\<open>dataSizeArray[i]\<close> and copies. The result is the status and the body.
  \<^verbatim>\<open>ASSERT()\<close> is taken as returning (a release build).
\<close>

fun copy_loop ::
  "nat \<Rightarrow> nat \<Rightarrow> u8 list option list \<Rightarrow> u16 list \<Rightarrow> u16 \<Rightarrow> u16 \<Rightarrow> nat \<Rightarrow> u8 list
     \<Rightarrow> (bool \<times> u8 list) option" where
  "copy_loop 0 i dataArray dataSizeArray dataSize bytesCopied off dest = Some (True, dest)"
| "copy_loop (Suc k) i dataArray dataSizeArray dataSize bytesCopied off dest =
     (let bufSize = dataSize - bytesCopied
      in if bufSize \<le> dataSize
         then if i < length dataArray \<and> i < length dataSizeArray
              then (case memcpy_at dest off (dataArray ! i) (unat (dataSizeArray ! i)) of
                      None \<Rightarrow> None
                    | Some dest1 \<Rightarrow>
                        copy_loop k (Suc i) dataArray dataSizeArray dataSize
                          (bytesCopied + dataSizeArray ! i) (off + unat (dataSizeArray ! i)) dest1)
              else None
         else Some (False, dest))"

text \<open>
  The argument check reads \<^verbatim>\<open>*dataArray\<close>, the first element of the array, and the first
  loop reads \<^verbatim>\<open>numData\<close> sizes.
\<close>

definition SSP_SendMultiple ::
  "u8 \<Rightarrow> u8 \<Rightarrow> 16 word \<Rightarrow> u8 list option list option \<Rightarrow> u16 list option \<Rightarrow> World
     \<Rightarrow> (SspErr \<times> World) option" where
  "SSP_SendMultiple srcSocketId destSocketId numData dataArray dataSizeArray w =
     (case dataArray of
        None \<Rightarrow> Some (SSPCMN_ReportErr SSP_BAD_ARGUMENT w)
      | Some [] \<Rightarrow> None
      | Some (None # ds) \<Rightarrow> Some (SSPCMN_ReportErr SSP_BAD_ARGUMENT w)
      | Some (Some d0 # ds) \<Rightarrow>
          (case dataSizeArray of
             None \<Rightarrow> Some (SSPCMN_ReportErr SSP_BAD_ARGUMENT w)
           | Some sizes \<Rightarrow>
               (let n = nat (sint numData);
                    dataSize = total_size n sizes
                in if n > length sizes then None
                   else if unat dataSize > SSP_MAX_BODY_SIZE
                   then Some (SSPCMN_ReportErr SSP_DATA_SIZE_TOO_LARGE w)
                   else
                     (case SSPCOM_GetPortId srcSocketId w of
                        Inl e \<Rightarrow> Some (SSPCMN_ReportErr SSP_BAD_SOCKET_ID w)
                      | Inr portId \<Rightarrow>
                          if unat (ListSize portId w) \<ge> SSP_MAX_MESSAGES
                          then Some (SSPCMN_ReportErr SSP_QUEUE_FULL w)
                          else
                            (case AllocSendData dataSize w of
                               None \<Rightarrow> Some (SSPCMN_ReportErr SSP_OUT_OF_MEMORY w)
                             | Some sendData \<Rightarrow>
                                 (case (if dataSize > 0
                                        then copy_loop n 0 (Some d0 # ds) sizes dataSize 0 0
                                               (body (sspData sendData))
                                        else Some (True, body (sspData sendData))) of
                                    None \<Rightarrow> None
                                  | Some (True, b) \<Rightarrow>
                                      (let d = (sspData sendData)
                                                 \<lparr>body := b, dataType := SSP_SEND,
                                                  header := (header (sspData sendData))
                                                    \<lparr>bodySize := ucast dataSize, srcId := srcSocketId,
                                                     destId := destSocketId,
                                                     transId := sendTransId (ssp w),
                                                     type := MSG_TYPE_DATA\<rparr>\<rparr>;
                                           w1 = w\<lparr>ssp := (ssp w)\<lparr>sendTransId := sendTransId (ssp w) + 1\<rparr>\<rparr>;
                                           w2 = ListInsert portId (sendData\<lparr>sspData := d\<rparr>) w1
                                       in Some (SSP_SUCCESS, SSPHAL_PowerSave False w2))
                                  | Some (False, b) \<Rightarrow>
                                      Some (SSPCMN_ReportErr SSP_SOFTWARE_FAULT w)))))))"

definition SSP_Send ::
  "u8 \<Rightarrow> u8 \<Rightarrow> u8 list option \<Rightarrow> u16 \<Rightarrow> World \<Rightarrow> (SspErr \<times> World) option" where
  "SSP_Send srcSocketId destSocketId data dataSize w =
     SSP_SendMultiple srcSocketId destSocketId 1 (Some [data]) (Some [dataSize]) w"

definition SSP_Listen :: "u8 \<Rightarrow> nat option \<Rightarrow> nat \<Rightarrow> World \<Rightarrow> SspErr \<times> World" where
  "SSP_Listen socketId callback userData w =
     (if \<not> initOnce (ssp w) then SSPCMN_ReportErr SSP_NOT_INITIALIZED w
      else if callback = None then SSPCMN_ReportErr SSP_BAD_ARGUMENT w
      else if \<not> SSPCOM_IsSocketOpen socketId w then SSPCMN_ReportErr SSP_SOCKET_NOT_OPEN w
      else if socketToCallbackMap (ssp w) socketId = None
      then (SSP_SUCCESS,
            w\<lparr>ssp := (ssp w)\<lparr>socketToCallbackMap := (socketToCallbackMap (ssp w))(socketId := callback),
                     socketToUserDataMap := (socketToUserDataMap (ssp w))(socketId := userData)\<rparr>\<rparr>)
      else SSPCMN_ReportErr SSP_DUPLICATE_LISTENER w)"

definition SSP_GetSendQueueSize :: "SspPortId \<Rightarrow> World \<Rightarrow> u16" where
  "SSP_GetSendQueueSize portId w = ListSize portId w"

text \<open>
  \<^verbatim>\<open>SSP_Process\<close>: the loop over the ports \<^verbatim>\<open>SSP_PORT1\<close> .. \<^verbatim>\<open>SSP_MAX_PORTS - 1\<close>; the
  second component carried through the loop is the local \<^verbatim>\<open>powerSave\<close>.
\<close>

definition process_port :: "SspPortId \<Rightarrow> World \<times> bool \<Rightarrow> World \<times> bool" where
  "process_port portId = (\<lambda>(w, ps).
     if SSPCOM_IsPortOpen portId w then
       (let w1 = ProcessSend portId (ProcessReceive portId w)
        in (w1, if unat (ListSize portId w1) > 0 then False else ps))
     else (w, ps))"

definition SSP_Process :: "World \<Rightarrow> World" where
  "SSP_Process w =
     (case process_port SSP_PORT2 (process_port SSP_PORT1 (w, True)) of
        (w1, ps) \<Rightarrow> if ps then SSPHAL_PowerSave True w1 else w1)"

text \<open>
  The module data before the first call: C statics are zero, which is
  \<^verbatim>\<open>SSP_INVALID_PORT\<close> for every socket, no listener, and empty lists. The transport is
  given.
\<close>

definition power_on :: "Hal \<Rightarrow> World" where
  "power_on t =
     \<lparr>com = \<lparr>socketToPortIdMap = (\<lambda>s. SSP_INVALID_PORT), parseState = PS_SIGNATURE_1,
             currentFooter = 0,
             sspDataRecv = SSPCOM_AllocateSspData (of_nat SSP_MAX_BODY_SIZE),
             parseBytes = 0, comInitOnce = False\<rparr>,
      recvStatics = \<lparr>parseHistory = replicate PARSE_HISTORY_SIZE 0, parseHistoryIdx = 0\<rparr>,
      ssp = \<lparr>sendTransId = 0, socketToCallbackMap = (\<lambda>s. None),
             socketToUserDataMap = (\<lambda>s. 0), initOnce = False,
             sendDataListHead = (\<lambda>p. []),
             lastReceivedTransId = (\<lambda>p. \<lparr>rtTransId = 0, rtCrc = 0\<rparr>),
             sspDataForAckNak = None\<rparr>,
      hal = t, tick = 0, events = [], lastErr = SSP_SUCCESS, errorHandlerFunc = None\<rparr>"

section \<open>Example configurations\<close>

text \<open>
  A transport whose ports open and whose sends succeed, the module after \<^verbatim>\<open>SSP_Init\<close> on
  port 1, and a node with sockets 0 and 1 open on port 1 and listener 7 (user data 42) on
  socket 1. \<open>feed\<close> is the transport delivering bytes to a port.
\<close>

definition loopback_hal :: Hal where
  "loopback_hal = \<lparr>portIsOpen = (\<lambda>p. False), portOpenOk = True, portSendOk = True,
                    recvDataBuf = (\<lambda>p. []), powerSave = True\<rparr>"

definition started :: World where
  "started = snd (SSP_Init SSP_PORT1 (power_on loopback_hal))"

definition two_sockets :: World where
  "two_sockets =
     snd (SSP_Listen 1 (Some 7) 42
       (snd (SSP_OpenSocket SSP_PORT1 1 (snd (SSP_OpenSocket SSP_PORT1 0 started)))))"

definition feed :: "SspPortId \<Rightarrow> u8 list \<Rightarrow> World \<Rightarrow> World" where
  "feed p bs w =
     w\<lparr>hal := (hal w)\<lparr>recvDataBuf := (recvDataBuf (hal w))(p := recvDataBuf (hal w) p @ bs)\<rparr>\<rparr>"

section \<open>Basic facts about the send queue\<close>

lemma unat_ListSize:
  "length (queue w p) \<le> SSP_MAX_MESSAGES \<Longrightarrow> unat (ListSize p w) = length (queue w p)"
  by (simp add: ListSize_def SSP_MAX_MESSAGES_def unat_of_nat)

lemma queue_ReportErr [simp]: "queue (snd (SSPCMN_ReportErr e w)) = queue w"
  by (auto simp: SSPCMN_ReportErr_def queue_def split: option.splits)

lemma ssp_ReportErr [simp]: "ssp (snd (SSPCMN_ReportErr e w)) = ssp w"
  by (auto simp: SSPCMN_ReportErr_def split: option.splits)

lemma fst_ReportErr [simp]: "fst (SSPCMN_ReportErr e w) = e"
  by (simp add: SSPCMN_ReportErr_def)

lemma queue_set_queue [simp]: "queue (set_queue p q w) = (queue w)(p := q)"
  by (auto simp: queue_def set_queue_def)

lemma queue_PowerSave [simp]: "queue (SSPHAL_PowerSave b w) = queue w"
  by (auto simp: queue_def SSPHAL_PowerSave_def)

lemma queue_sendTransId [simp]: "queue (w\<lparr>ssp := (ssp w)\<lparr>sendTransId := t\<rparr>\<rparr>) = queue w"
  by (auto simp: queue_def)

section \<open>The size sum of \<^verbatim>\<open>SSP_SendMultiple\<close> wraps\<close>





section \<open>Queue capacity\<close>

definition five_queued :: World where
  "five_queued =
     foldl (\<lambda>w b. case SSP_Send 0 1 (Some [b]) 1 w of Some (e, w1) \<Rightarrow> w1 | None \<Rightarrow> w)
       two_sockets [1, 2, 3, 4, 5]"

lemma ReportErr_eq:
  "SSPCMN_ReportErr e w = (e', w') \<longleftrightarrow> e' = e \<and> w' = snd (SSPCMN_ReportErr e w)"
  by (cases "SSPCMN_ReportErr e w") (auto simp: SSPCMN_ReportErr_def)

lemma blocks_ReportErr [simp]:
  "blocks_in_use (snd (SSPCMN_ReportErr e w)) = blocks_in_use w"
  by (simp add: blocks_in_use_def)

text \<open>
  C7. While no list is longer than \<^verbatim>\<open>SSP_MAX_MESSAGES\<close>, a call of
  \<^verbatim>\<open>SSP_SendMultiple\<close> that returns keeps it so, whatever its arguments. When the list of
  the source socket's port already holds \<^verbatim>\<open>SSP_MAX_MESSAGES\<close> entries, a send whose
  arguments are in order (arrays and first buffer not null, \<^verbatim>\<open>numData\<close> sizes present,
  total at most \<^verbatim>\<open>SSP_MAX_BODY_SIZE\<close>) returns \<^verbatim>\<open>SSP_QUEUE_FULL\<close>, for
  \<^verbatim>\<open>SSP_SendMultiple\<close> and for \<^verbatim>\<open>SSP_Send\<close>, and leaves the module data of \<^verbatim>\<open>ssp.c\<close>
  as it was: the lists, the blocks in use and the transaction counter. Any other call on
  the full list that returns is refused by an earlier check, with \<^verbatim>\<open>SSP_BAD_ARGUMENT\<close> or
  \<^verbatim>\<open>SSP_DATA_SIZE_TOO_LARGE\<close>, and leaves the lists unchanged as well.
\<close>

theorem send_queue_capacity:
  assumes "\<forall>q. length (queue w q) \<le> SSP_MAX_MESSAGES"
  shows "(\<forall>e w'. SSP_SendMultiple src dst n da sa w = Some (e, w')
            \<longrightarrow> (\<forall>q. length (queue w' q) \<le> SSP_MAX_MESSAGES))
     \<and> (\<forall>p. SSPCOM_GetPortId src w = Inr p \<and> length (queue w p) = SSP_MAX_MESSAGES \<longrightarrow>
           (\<forall>d0 ds sizes. da = Some (Some d0 # ds) \<and> sa = Some sizes
                \<and> nat (sint n) \<le> length sizes
                \<and> unat (total_size (nat (sint n)) sizes) \<le> SSP_MAX_BODY_SIZE
              \<longrightarrow> (\<exists>w'. SSP_SendMultiple src dst n da sa w = Some (SSP_QUEUE_FULL, w')
                        \<and> ssp w' = ssp w \<and> queue w' = queue w
                        \<and> blocks_in_use w' = blocks_in_use w))
         \<and> (\<forall>bytes size. unat size \<le> SSP_MAX_BODY_SIZE
              \<longrightarrow> (\<exists>w'. SSP_Send src dst (Some bytes) size w = Some (SSP_QUEUE_FULL, w')
                        \<and> ssp w' = ssp w \<and> queue w' = queue w
                        \<and> blocks_in_use w' = blocks_in_use w))
         \<and> (\<forall>e w'. SSP_SendMultiple src dst n da sa w = Some (e, w')
              \<longrightarrow> queue w' = queue w
                  \<and> (e = SSP_QUEUE_FULL \<or> e = SSP_BAD_ARGUMENT \<or> e = SSP_DATA_SIZE_TOO_LARGE)))"
proof -
  have sz: "unat (ListSize p w) = length (queue w p)" for p
    using assms by (simp add: unat_ListSize)
  have le: "length (queue w q) \<le> SSP_MAX_MESSAGES" for q
    using assms by simp
  have a: "length (queue w' q) \<le> SSP_MAX_MESSAGES"
    if "SSP_SendMultiple src dst n da sa w = Some (e, w')" for e w' q
    using le [of q] that
    by (auto simp: SSP_SendMultiple_def Let_def sz ListInsert_def ReportErr_eq
          split: option.splits list.splits sum.splits prod.splits bool.splits if_splits)
  have full: "\<exists>w'. SSP_SendMultiple src dst m (Some (Some d0 # ds)) (Some sizes) w
                      = Some (SSP_QUEUE_FULL, w')
                \<and> ssp w' = ssp w \<and> queue w' = queue w \<and> blocks_in_use w' = blocks_in_use w"
    if "SSPCOM_GetPortId src w = Inr p" "length (queue w p) = SSP_MAX_MESSAGES"
      "nat (sint m) \<le> length sizes" "unat (total_size (nat (sint m)) sizes) \<le> SSP_MAX_BODY_SIZE"
    for p m d0 ds sizes
  proof -
    have "SSP_SendMultiple src dst m (Some (Some d0 # ds)) (Some sizes) w
            = Some (SSPCMN_ReportErr SSP_QUEUE_FULL w)"
      using that by (simp add: SSP_SendMultiple_def Let_def sz)
    then show ?thesis
      by (simp add: ReportErr_eq)
  qed
  have one: "\<exists>w'. SSP_Send src dst (Some bytes) size w = Some (SSP_QUEUE_FULL, w')
                \<and> ssp w' = ssp w \<and> queue w' = queue w \<and> blocks_in_use w' = blocks_in_use w"
    if "SSPCOM_GetPortId src w = Inr p" "length (queue w p) = SSP_MAX_MESSAGES"
      "unat size \<le> SSP_MAX_BODY_SIZE"
    for p bytes size
    unfolding SSP_Send_def
    using that by (intro full [of p]) (simp_all add: total_size_def)
  have any: "queue w' = queue w
      \<and> (e = SSP_QUEUE_FULL \<or> e = SSP_BAD_ARGUMENT \<or> e = SSP_DATA_SIZE_TOO_LARGE)"
    if "SSPCOM_GetPortId src w = Inr p" "length (queue w p) = SSP_MAX_MESSAGES"
      "SSP_SendMultiple src dst n da sa w = Some (e, w')" for p e w'
    using that
    by (auto simp: SSP_SendMultiple_def Let_def sz ReportErr_eq
          split: option.splits list.splits sum.splits prod.splits bool.splits if_splits)
  show ?thesis
    using a full one any by blast
qed

theorem send_queue_capacity_witness:
  "(\<forall>q. length (queue five_queued q) \<le> SSP_MAX_MESSAGES)
   \<and> SSPCOM_GetPortId 0 five_queued = Inr SSP_PORT1
   \<and> length (queue five_queued SSP_PORT1) = SSP_MAX_MESSAGES
   \<and> nat (sint (1 :: 16 word)) \<le> length [1 :: u16]
   \<and> unat (total_size (nat (sint (1 :: 16 word))) [1]) \<le> SSP_MAX_BODY_SIZE
   \<and> (\<exists>w'. SSP_SendMultiple 0 1 1 (Some [Some [6]]) (Some [1]) five_queued
                = Some (SSP_QUEUE_FULL, w')
          \<and> queue w' = queue five_queued)
   \<and> (\<exists>w'. SSP_Send 0 1 (Some [6]) 1 five_queued = Some (SSP_QUEUE_FULL, w')
          \<and> queue w' = queue five_queued)"
proof -
  have h: "\<forall>q. length (queue five_queued q) \<le> SSP_MAX_MESSAGES"
  proof
    fix q
    have "length (queue five_queued SSP_INVALID_PORT) \<le> SSP_MAX_MESSAGES" by code_simp
    moreover have "length (queue five_queued SSP_PORT1) \<le> SSP_MAX_MESSAGES" by code_simp
    moreover have "length (queue five_queued SSP_PORT2) \<le> SSP_MAX_MESSAGES" by code_simp
    ultimately show "length (queue five_queued q) \<le> SSP_MAX_MESSAGES"
      by (cases q) simp_all
  qed
  have h1: "SSPCOM_GetPortId 0 five_queued = Inr SSP_PORT1" by code_simp
  have h2: "length (queue five_queued SSP_PORT1) = SSP_MAX_MESSAGES" by code_simp
  have h3: "unat (total_size (nat (sint (1 :: 16 word))) [1]) \<le> SSP_MAX_BODY_SIZE" by code_simp
  have h4: "nat (sint (1 :: 16 word)) \<le> length [1 :: u16]" by simp
  have h5: "unat (1 :: u16) \<le> SSP_MAX_BODY_SIZE" by code_simp
  note t = send_queue_capacity [OF h, of 0 1 1 "Some [Some [6]]" "Some [1]"]
  from t h1 h2 h3 h4
  have a: "\<exists>w'. SSP_SendMultiple 0 1 1 (Some [Some [6]]) (Some [1]) five_queued
                = Some (SSP_QUEUE_FULL, w') \<and> queue w' = queue five_queued"
    by blast
  from t h1 h2 h5
  have b: "\<exists>w'. SSP_Send 0 1 (Some [6]) 1 five_queued = Some (SSP_QUEUE_FULL, w')
          \<and> queue w' = queue five_queued"
    by blast
  show ?thesis
    using h h1 h2 h3 h4 a b by blast
qed

section \<open>NAK reception\<close>

lemma find_first_Some:
  "find_first P xs k = Some i \<Longrightarrow>
     k \<le> i \<and> i - k < length xs \<and> P (xs ! (i - k)) \<and> (\<forall>j < i - k. \<not> P (xs ! j))"
proof (induction xs arbitrary: k)
  case Nil
  then show ?case by simp
next
  case (Cons x xs)
  show ?case
  proof (cases "P x")
    case True
    with Cons.prems show ?thesis by simp
  next
    case False
    with Cons.prems have ff: "find_first P xs (Suc k) = Some i" by simp
    from Cons.IH [OF ff] have *: "Suc k \<le> i" "i - Suc k < length xs" "P (xs ! (i - Suc k))"
      "\<forall>j < i - Suc k. \<not> P (xs ! j)" by auto
    have ik: "i - k = Suc (i - Suc k)" using * by simp
    show ?thesis using * False
      by (auto simp: ik nth_Cons split: nat.splits)
  qed
qed

lemma find_first_None: "find_first P xs k = None \<longleftrightarrow> (\<forall>x \<in> set xs. \<not> P x)"
  by (induction xs arbitrary: k) auto

lemma find_first_least:
  assumes "i < length xs" "P (xs ! i)" "\<forall>j < i. \<not> P (xs ! j)"
  shows "find_first P xs 0 = Some i"
proof (cases "find_first P xs 0")
  case None
  then show ?thesis using assms find_first_None [of P xs 0] by auto
next
  case (Some i')
  from find_first_Some [OF Some] have "i' < length xs" "P (xs ! i')" "\<forall>j < i'. \<not> P (xs ! j)"
    by auto
  with assms have "i' = i" by (metis linorder_neqE_nat)
  with Some show ?thesis by simp
qed

text \<open>
  C8. When \<^verbatim>\<open>ProcessReceive\<close> has received a NAK frame, the list of the port keeps its
  length and order and every entry keeps its packet, retry counter and time stamp; the
  first entry that answers the frame (source and destination swapped, same transaction
  identifier) has its state reset to \<^verbatim>\<open>SEND_STATE\<close> and no other entry changes; when no
  entry answers, nothing changes at all. Nothing outside that list changes.
\<close>

theorem nak_resets_state_only:
  assumes "type (header d) = MSG_TYPE_NAK"
  shows "let q = queue w portId;
             w' = ProcessReceive_packet portId SSP_SUCCESS (Some d) w;
             q' = queue w' portId
         in w' = set_queue portId q' w
          \<and> length q' = length q
          \<and> (\<forall>j < length q. sspData (q' ! j) = sspData (q ! j)
                \<and> sendRetries (q' ! j) = sendRetries (q ! j)
                \<and> sendTickStamp (q' ! j) = sendTickStamp (q ! j))
          \<and> ((\<forall>j < length q. \<not> answers (header d) (q ! j)) \<longrightarrow> w' = w)
          \<and> (\<forall>i < length q. answers (header d) (q ! i) \<and> (\<forall>j < i. \<not> answers (header d) (q ! j))
                \<longrightarrow> q' = q[i := (q ! i)\<lparr>state := SEND_STATE\<rparr>])"
proof -
  define q where "q = queue w portId"
  define w' where "w' = ProcessReceive_packet portId SSP_SUCCESS (Some d) w"
  have triv: "set_queue portId q w = w"
    by (simp add: set_queue_def queue_def q_def)
  have shape: "w' = (case find_first (answers (header d)) q 0 of
                       None \<Rightarrow> w
                     | Some i \<Rightarrow> set_queue portId (q[i := (q ! i)\<lparr>state := SEND_STATE\<rparr>]) w)"
    unfolding w'_def q_def using assms
    by (simp add: ProcessReceive_packet_def ListFind_def MSG_TYPE_NAK_def MSG_TYPE_ACK_def)
  have goal: "w' = set_queue portId (queue w' portId) w
          \<and> length (queue w' portId) = length q
          \<and> (\<forall>j < length q. sspData (queue w' portId ! j) = sspData (q ! j)
                \<and> sendRetries (queue w' portId ! j) = sendRetries (q ! j)
                \<and> sendTickStamp (queue w' portId ! j) = sendTickStamp (q ! j))
          \<and> ((\<forall>j < length q. \<not> answers (header d) (q ! j)) \<longrightarrow> w' = w)
          \<and> (\<forall>i < length q. answers (header d) (q ! i) \<and> (\<forall>j < i. \<not> answers (header d) (q ! j))
                \<longrightarrow> queue w' portId = q[i := (q ! i)\<lparr>state := SEND_STATE\<rparr>])"
  proof (cases "find_first (answers (header d)) q 0")
    case None
    then have w: "w' = w" using shape by simp
    have qq: "queue w portId = q" by (simp add: q_def)
    have no: "\<forall>x \<in> set q. \<not> answers (header d) x"
      using None by (simp add: find_first_None)
    have c5: "\<forall>i < length q. \<not> answers (header d) (q ! i)"
      using no by simp
    show ?thesis
      unfolding w qq using triv c5 by simp
  next
    case (Some i)
    from find_first_Some [OF Some] have i: "i < length q" "answers (header d) (q ! i)"
      by auto
    have w: "w' = set_queue portId (q[i := (q ! i)\<lparr>state := SEND_STATE\<rparr>]) w"
      using shape Some by simp
    have qq: "queue w' portId = q[i := (q ! i)\<lparr>state := SEND_STATE\<rparr>]"
      by (simp add: w)
    have uniq: "i' = i" if "i' < length q" "answers (header d) (q ! i')"
      "\<forall>j < i'. \<not> answers (header d) (q ! j)" for i'
      using find_first_least [OF that] Some by simp
    have c1: "w' = set_queue portId (queue w' portId) w"
      unfolding qq by (rule w)
    have c3: "\<forall>j < length q. sspData (queue w' portId ! j) = sspData (q ! j)
                \<and> sendRetries (queue w' portId ! j) = sendRetries (q ! j)
                \<and> sendTickStamp (queue w' portId ! j) = sendTickStamp (q ! j)"
      unfolding qq using i(1) by (auto simp: nth_list_update)
    have c4: "(\<forall>j < length q. \<not> answers (header d) (q ! j)) \<longrightarrow> w' = w"
      using i by blast
    have c5: "\<forall>i' < length q. answers (header d) (q ! i') \<and> (\<forall>j < i'. \<not> answers (header d) (q ! j))
                \<longrightarrow> queue w' portId = q[i' := (q ! i')\<lparr>state := SEND_STATE\<rparr>]"
      using uniq qq by blast
    show ?thesis
      using c1 c3 c4 c5 qq by simp
  qed
  show ?thesis
    using goal unfolding Let_def q_def w'_def by blast
qed


text \<open>A NAK frame from socket 1 to socket 0 for transaction 0, as the parser leaves it.\<close>

definition nak_frame :: SspData where
  "nak_frame =
     \<lparr>err = SSP_SUCCESS, dataType = SSP_RECEIVE, crc = 0, packetSize = 64,
      header = \<lparr>sig0 = SIG_1, sig1 = SIG_2, destId = 0, srcId = 1, type = MSG_TYPE_NAK,
                bodySize = 0, transId = 0, checksum = 0xB0\<rparr>,
      body = replicate 54 0\<rparr>"

theorem nak_resets_state_only_witness:
  "type (header nak_frame) = MSG_TYPE_NAK
   \<and> state (queue (SSP_Process five_queued) SSP_PORT1 ! 0) = RECEIVE_STATE
   \<and> queue (ProcessReceive_packet SSP_PORT1 SSP_SUCCESS (Some nak_frame) (SSP_Process five_queued))
        SSP_PORT1
      = (queue (SSP_Process five_queued) SSP_PORT1)
          [0 := (queue (SSP_Process five_queued) SSP_PORT1 ! 0)\<lparr>state := SEND_STATE\<rparr>]"
proof -
  have h1: "type (header nak_frame) = MSG_TYPE_NAK" by code_simp
  have h2: "0 < length (queue (SSP_Process five_queued) SSP_PORT1)" by code_simp
  have h3: "answers (header nak_frame) (queue (SSP_Process five_queued) SSP_PORT1 ! 0)"
    by code_simp
  have h4: "state (queue (SSP_Process five_queued) SSP_PORT1 ! 0) = RECEIVE_STATE" by code_simp
  show ?thesis
    using nak_resets_state_only [OF h1, of "SSP_Process five_queued" SSP_PORT1] h1 h2 h3 h4
    unfolding Let_def by simp
qed

section \<open>Listener registration\<close>

definition one_socket :: World where
  "one_socket = snd (SSP_OpenSocket SSP_PORT1 2 started)"

definition listened :: World where
  "listened = snd (SSP_Listen 2 (Some 7) 42 one_socket)"

definition reopened :: World where
  "reopened = snd (SSP_OpenSocket SSP_PORT1 2 (snd (SSP_CloseSocket 2 listened)))"

text \<open>
  C9, as the code has it. After \<^verbatim>\<open>SSP_Init\<close>, on an open socket without a listener, the
  first \<^verbatim>\<open>SSP_Listen\<close> with a non-null callback installs callback and user data and
  returns \<^verbatim>\<open>SSP_SUCCESS\<close>; a second one returns \<^verbatim>\<open>SSP_DUPLICATE_LISTENER\<close> and changes
  neither table. Closing the socket does not remove the listener: after
  \<^verbatim>\<open>SSP_CloseSocket\<close> and \<^verbatim>\<open>SSP_OpenSocket\<close> the socket is open again, and
  \<^verbatim>\<open>SSP_Listen\<close> still returns \<^verbatim>\<open>SSP_DUPLICATE_LISTENER\<close> and leaves the first
  registration in place.
\<close>

theorem listen_once:
  assumes "initOnce (ssp w)"
    and "SSPCOM_IsSocketOpen s w"
    and "socketToCallbackMap (ssp w) s = None"
    and "portIsOpen (hal w) p" and "p \<noteq> SSP_INVALID_PORT"
  shows "let (e1, w1) = SSP_Listen s (Some cb) ud w;
             (e2, w2) = SSP_Listen s (Some cb') ud' w1;
             (e3, w3) = SSP_CloseSocket s w2;
             (e4, w4) = SSP_OpenSocket p s w3;
             (e5, w5) = SSP_Listen s (Some cb'') ud'' w4
         in e1 = SSP_SUCCESS
          \<and> socketToCallbackMap (ssp w1) s = Some cb \<and> socketToUserDataMap (ssp w1) s = ud
          \<and> e2 = SSP_DUPLICATE_LISTENER
          \<and> socketToCallbackMap (ssp w2) = socketToCallbackMap (ssp w1)
          \<and> socketToUserDataMap (ssp w2) = socketToUserDataMap (ssp w1)
          \<and> e3 = SSP_SUCCESS \<and> e4 = SSP_SUCCESS \<and> SSPCOM_IsSocketOpen s w4
          \<and> e5 = SSP_DUPLICATE_LISTENER
          \<and> socketToCallbackMap (ssp w5) = socketToCallbackMap (ssp w1)
          \<and> socketToUserDataMap (ssp w5) = socketToUserDataMap (ssp w1)"
  using assms
  by (auto simp: SSP_Listen_def SSP_CloseSocket_def SSP_OpenSocket_def SSPCOM_CloseSocket_def
        SSPCOM_OpenSocket_def SSPCOM_IsSocketOpen_def SSPCOM_IsPortOpen_def SSPCMN_ReportErr_def
        Let_def split: if_splits option.splits)

theorem listen_once_witness:
  "initOnce (ssp one_socket) \<and> SSPCOM_IsSocketOpen 2 one_socket
   \<and> socketToCallbackMap (ssp one_socket) 2 = None
   \<and> portIsOpen (hal one_socket) SSP_PORT1
   \<and> fst (SSP_Listen 2 (Some 7) 42 one_socket) = SSP_SUCCESS
   \<and> fst (SSP_Listen 2 (Some 8) 43 (snd (SSP_Listen 2 (Some 7) 42 one_socket)))
        = SSP_DUPLICATE_LISTENER"
proof -
  have h1: "initOnce (ssp one_socket)" by code_simp
  have h2: "SSPCOM_IsSocketOpen 2 one_socket" by code_simp
  have h3: "socketToCallbackMap (ssp one_socket) 2 = None" by code_simp
  have h4: "portIsOpen (hal one_socket) SSP_PORT1" by code_simp
  have h5: "SSP_PORT1 \<noteq> SSP_INVALID_PORT" by simp
  show ?thesis
    using listen_once [OF h1 h2 h3 h4 h5, of 7 42 8 43 9 44] h1 h2 h3 h4
    by (simp add: Let_def split: prod.splits)
qed

text \<open>
  The claim as stated fails in its last part: socket 2 is opened, given listener 7, closed
  and opened again, each with \<^verbatim>\<open>SSP_SUCCESS\<close>; installing a listener on the new binding
  is refused.
\<close>

theorem listen_once_counterexample:
  "fst (SSP_Listen 2 (Some 7) 42 one_socket) = SSP_SUCCESS
   \<and> fst (SSP_CloseSocket 2 listened) = SSP_SUCCESS
   \<and> fst (SSP_OpenSocket SSP_PORT1 2 (snd (SSP_CloseSocket 2 listened))) = SSP_SUCCESS
   \<and> SSPCOM_IsSocketOpen 2 reopened
   \<and> fst (SSP_Listen 2 (Some 9) 0 reopened) = SSP_DUPLICATE_LISTENER
   \<and> socketToCallbackMap (ssp (snd (SSP_Listen 2 (Some 9) 0 reopened))) 2 = Some 7"
  by code_simp

section \<open>Facts about the codec\<close>

lemma Parse_loop_append:
  "Parse_loop c (xs @ ys) n =
     (case Parse_loop c xs n of
        (c1, True, m) \<Rightarrow> (c1, True, m)
      | (c1, False, m) \<Rightarrow> Parse_loop c1 ys m)"
  by (induction xs arbitrary: c n) (auto split: prod.splits bool.splits)

lemma word_recombine: "ucast (ucast (c :: u16) :: u8) + push_bit 8 (ucast (ucast (drop_bit 8 c) :: u8)) = c"
proof -
  have "ucast (ucast c :: u8) + push_bit 8 (ucast (ucast (drop_bit 8 c) :: u8) :: u16)
      = ucast (ucast c :: u8) OR push_bit 8 (ucast (ucast (drop_bit 8 c) :: u8) :: u16)"
    by (rule disjunctive_add) (auto simp: bit_simps)
  also have "\<dots> = c"
    by (rule bit_word_eqI) (auto simp: bit_simps)
  finally show ?thesis .
qed

lemma word_split_inj:
  assumes "ucast (a :: u8) + push_bit 8 (ucast (b :: u8)) = (c :: u16)"
  shows "a = ucast c \<and> b = ucast (drop_bit 8 c)"
proof -
  have "ucast a + push_bit 8 (ucast b :: u16) = ucast a OR push_bit 8 (ucast b)"
    by (rule disjunctive_add) (auto simp: bit_simps dest: bit_imp_le_length)
  then have c: "c = ucast a OR push_bit 8 (ucast b)"
    using assms by simp
  have hi: "\<not> bit a (8 + n)" for n
    using bit_imp_le_length [of a "8 + n"] by auto
  show ?thesis
    unfolding c by (auto intro!: bit_word_eqI simp: bit_simps hi)
qed

lemma crc16_bit_inj: "crc16_bit x = crc16_bit y \<Longrightarrow> x = y"
proof -
  assume a: "crc16_bit x = crc16_bit y"
  have b15: "bit (crc16_bit z) 15 = bit z 0" for z
    by (auto simp: crc16_bit_def bit_simps dest: bit_imp_le_length)
  have lo: "drop_bit 1 z = (if bit z 0 then crc16_bit z XOR 0xA001 else crc16_bit z)" for z
    by (auto simp: crc16_bit_def xor.assoc)
  have b0: "bit x 0 = bit y 0" using a b15 by metis
  have d: "drop_bit 1 x = drop_bit 1 y" using a b0 lo by metis
  show "x = y"
  proof (rule bit_word_eqI)
    fix n assume "n < LENGTH(16)"
    show "bit x n = bit y n"
    proof (cases n)
      case 0 then show ?thesis using b0 by simp
    next
      case (Suc m)
      have "bit x (Suc m) = bit (drop_bit 1 x) m" by (simp add: bit_simps)
      also have "\<dots> = bit (drop_bit 1 y) m" unfolding d ..
      also have "\<dots> = bit y (Suc m)" by (simp add: bit_simps)
      finally show ?thesis using Suc by simp
    qed
  qed
qed

lemma xor_right_cancel: "(a :: u16) XOR z = b XOR z \<Longrightarrow> a = b"
proof -
  assume e: "a XOR z = b XOR z"
  have "a = (a XOR z) XOR z" by (simp add: xor.assoc)
  also have "\<dots> = (b XOR z) XOR z" by (simp add: e)
  also have "\<dots> = b" by (simp add: xor.assoc)
  finally show ?thesis .
qed

lemma xor_left_cancel: "(z :: u16) XOR a = z XOR b \<Longrightarrow> a = b"
  using xor_right_cancel [of a z b] by (simp add: xor.commute)

lemma crc16_byte_inj_state: "crc16_byte a z = crc16_byte b z \<Longrightarrow> a = b"
  by (auto simp: crc16_byte_def dest!: crc16_bit_inj xor_right_cancel)

lemma ucast_u8_u16_inj: "(ucast (x :: u8) :: u16) = ucast y \<Longrightarrow> x = y"
proof -
  assume e: "(ucast x :: u16) = ucast y"
  have "x = ucast (ucast x :: u16)" by (simp add: ucast_up_ucast_id is_up)
  also have "\<dots> = ucast (ucast y :: u16)" by (simp add: e)
  also have "\<dots> = y" by (simp add: ucast_up_ucast_id is_up)
  finally show ?thesis .
qed

lemma crc16_byte_inj_byte: "crc16_byte c x = crc16_byte c y \<Longrightarrow> x = y"
  by (auto simp: crc16_byte_def dest!: crc16_bit_inj xor_left_cancel ucast_u8_u16_inj)

lemma crc_suffix_inj: "foldl crc16_byte a s = foldl crc16_byte b s \<Longrightarrow> a = b"
  by (induction s arbitrary: a b) (auto dest: crc16_byte_inj_state)

lemma crc_single_byte:
  assumes "x \<noteq> y"
  shows "Crc16CalcBlock (p @ x # s) c \<noteq> Crc16CalcBlock (p @ y # s) c"
proof
  assume "Crc16CalcBlock (p @ x # s) c = Crc16CalcBlock (p @ y # s) c"
  then have "foldl crc16_byte (crc16_byte (foldl crc16_byte c p) x) s
           = foldl crc16_byte (crc16_byte (foldl crc16_byte c p) y) s"
    by (simp add: Crc16CalcBlock_def)
  then have "crc16_byte (foldl crc16_byte c p) x = crc16_byte (foldl crc16_byte c p) y"
    by (rule crc_suffix_inj)
  then have "x = y" by (rule crc16_byte_inj_byte)
  with assms show False by simp
qed

section \<open>The parser on a well-formed frame\<close>

text \<open>The header a parsed frame carries: the signature is always the constant one.\<close>

definition parsed_header :: "u8 \<Rightarrow> u8 \<Rightarrow> u8 \<Rightarrow> u8 \<Rightarrow> u8 \<Rightarrow> u8 \<Rightarrow> SspPacketHeader" where
  "parsed_header d s t sz tr ck =
     \<lparr>sig0 = SIG_1, sig1 = SIG_2, destId = d, srcId = s, type = t, bodySize = sz,
      transId = tr, checksum = ck\<rparr>"

lemma Parse_loop_header:
  assumes "parseState c = PS_SIGNATURE_1"
  shows "Parse_loop c [SIG_1, SIG_2, d, s, t, sz, tr, ck] m =
     (if ck = Checksum [SIG_1, SIG_2, d, s, t, sz, tr] then
        if unat sz \<le> SSP_MAX_BODY_SIZE then
          (c\<lparr>sspDataRecv := (sspDataRecv c)\<lparr>err := SSP_PARTIAL_PACKET_HEADER_VALID,
                 header := parsed_header d s t sz tr ck\<rparr>, parseState := PS_BODY\<rparr>, False, m + 8)
        else
          (c\<lparr>sspDataRecv := (sspDataRecv c)\<lparr>err := SSP_PACKET_TOO_LARGE,
                 header := parsed_header d s t sz tr ck\<rparr>,
             parseState := PS_SIGNATURE_1, parseBytes := 0\<rparr>, True, m + 8)
      else
        (c\<lparr>sspDataRecv := (sspDataRecv c)\<lparr>err := SSP_BAD_HEADER_CHECKSUM,
               header := parsed_header d s t sz tr ck\<rparr>,
           parseState := PS_SIGNATURE_1, parseBytes := 0\<rparr>, True, m + 8))"
  using assms
  by (simp add: Parse_byte_def recv_err_def recv_header_def ParseReset_def header_bytes_def
        HEADER_SIZE_def parsed_header_def SIG_1_def SIG_2_def Let_def)


lemma Parse_loop_body:
  assumes "parseState c = PS_BODY"
    and "unat (bodySize (header (sspDataRecv c))) = n"
    and "parseBytes c = of_nat k"
    and "k + length xs = n" and "xs \<noteq> []"
    and "n \<le> length (body (sspDataRecv c))"
  shows "Parse_loop c xs m =
     (c\<lparr>sspDataRecv := (sspDataRecv c)
           \<lparr>body := take k (body (sspDataRecv c)) @ xs @ drop n (body (sspDataRecv c))\<rparr>,
        parseBytes := of_nat n, parseState := PS_FOOTER_1\<rparr>, False, m + length xs)"
  using assms
proof (induction xs arbitrary: c k m)
  case Nil
  then show ?case by simp
next
  case (Cons x xs)
  have n256: "n < 256"
    using Cons.prems(2) unsigned_less [of "bodySize (header (sspDataRecv c))", where 'a = nat]
    by simp
  have kn: "k < n" using Cons.prems(4) by simp
  have bs0: "bodySize (header (sspDataRecv c)) \<noteq> 0"
    using Cons.prems(2) kn by (auto simp: unat_gt_0 [symmetric])
  have uk: "unat (of_nat k :: u16) = k"
    using kn n256 by (simp add: unat_of_nat)
  have uk1: "unat (of_nat k + 1 :: u16) = Suc k"
  proof -
    have "(of_nat k + 1 :: u16) = of_nat (Suc k)" by simp
    then show ?thesis using kn n256 by (simp only: unat_of_nat) simp
  qed
  have kl: "k < length (body (sspDataRecv c))"
    using kn Cons.prems(6) by simp
  define B where "B = body (sspDataRecv c)"
  have upd: "B[k := x] = take k B @ x # drop (Suc k) B"
    using kl by (simp add: B_def upd_conv_take_nth_drop)
  show ?case
  proof (cases "xs = []")
    case True
    then have sk: "Suc k = n" using Cons.prems(4) by simp
    have pb: "(of_nat k + 1 :: u16) = of_nat n"
      unfolding sk [symmetric] by simp
    show ?thesis
      using Cons.prems(1,2,3) True bs0 uk uk1 upd sk
      by (simp add: Parse_byte_def Let_def B_def pb)
  next
    case False
    then have lt: "Suc k < n" using Cons.prems(4) by (cases xs) auto
    define c1 where "c1 = c\<lparr>sspDataRecv := (sspDataRecv c)\<lparr>body := B[k := x]\<rparr>,
                            parseBytes := of_nat (Suc k)\<rparr>"
    have pb: "(of_nat k + 1 :: u16) = of_nat (Suc k)" by simp
    have step: "Parse_byte c x = (c1, False)"
      using Cons.prems(1,2,3) bs0 uk uk1 lt
      by (simp add: Parse_byte_def Let_def B_def c1_def pb del: of_nat_Suc)
    have ih: "Parse_loop c1 xs (Suc m) =
       (c1\<lparr>sspDataRecv := (sspDataRecv c1)
             \<lparr>body := take (Suc k) (body (sspDataRecv c1)) @ xs @ drop n (body (sspDataRecv c1))\<rparr>,
          parseBytes := of_nat n, parseState := PS_FOOTER_1\<rparr>, False, Suc m + length xs)"
      using Cons.prems(1,2,4,6) False
      by (intro Cons.IH) (simp_all add: c1_def B_def)
    have t: "take (Suc k) (B[k := x]) = take k B @ [x]"
      using kl by (simp add: B_def take_Suc_conv_app_nth)
    have d: "drop n (B[k := x]) = drop n B"
      using kn by simp
    show ?thesis
      using step ih t d by (simp add: c1_def B_def)
  qed
qed

text \<open>
  The bytes \<^verbatim>\<open>SSPCOM_Send\<close> hands to the transport for a block, the blocks whose sizes
  agree (as every block built by \<^verbatim>\<open>SSP_SendMultiple\<close>, \<^verbatim>\<open>SendAck\<close> and \<^verbatim>\<open>SendNak\<close>
  does), and a parser that waits for a signature with the receive block of \<^verbatim>\<open>SSPCOM_Init\<close>.
\<close>

definition serialize :: "SspData \<Rightarrow> u8 list" where
  "serialize d = packet_bytes (fill_packet d)"

definition wf_frame :: "SspData \<Rightarrow> bool" where
  "wf_frame d \<longleftrightarrow>
     length (body d) \<le> SSP_MAX_BODY_SIZE
     \<and> unat (bodySize (header d)) = length (body d)
     \<and> unat (packetSize d) = HEADER_SIZE + length (body d) + 2"

definition idle_parser :: "SspComObj \<Rightarrow> bool" where
  "idle_parser c \<longleftrightarrow>
     parseState c = PS_SIGNATURE_1 \<and> parseBytes c = 0
     \<and> length (body (sspDataRecv c)) = SSP_MAX_BODY_SIZE"

text \<open>The module data after the two footer bytes, from the state before them.\<close>

definition footer_result :: "SspComObj \<Rightarrow> u8 \<Rightarrow> u8 \<Rightarrow> SspComObj" where
  "footer_result c lo hi =
     (let d = destId (header (sspDataRecv c));
          f = ucast lo + push_bit 8 (ucast hi);
          v = Crc16CalcBlock (crc_range (sspDataRecv c)) 0xFFFF
      in (if unat d \<ge> SSP_SOCKET_MAX
          then c\<lparr>currentFooter := ucast lo, sspDataRecv := (sspDataRecv c)\<lparr>err := SSP_BAD_SOCKET_ID\<rparr>\<rparr>
          else if socketToPortIdMap c d = SSP_INVALID_PORT
          then c\<lparr>currentFooter := ucast lo, sspDataRecv := (sspDataRecv c)\<lparr>err := SSP_SOCKET_NOT_OPEN\<rparr>\<rparr>
          else if f = v
          then c\<lparr>currentFooter := f, sspDataRecv := (sspDataRecv c)\<lparr>err := SSP_SUCCESS, crc := v\<rparr>\<rparr>
          else c\<lparr>currentFooter := f, sspDataRecv := (sspDataRecv c)\<lparr>err := SSP_CORRUPTED_PACKET\<rparr>\<rparr>)
         \<lparr>parseState := PS_SIGNATURE_1, parseBytes := 0\<rparr>)"

lemma Parse_loop_footer_1:
  assumes "parseState c = PS_FOOTER_1"
  shows "Parse_loop c [lo, hi] m = (footer_result c lo hi, True, m + 2)"
  using assms
  by (simp add: Parse_byte_def parse_footer_1_def parse_footer_2_def recv_err_def ParseReset_def
        Let_def crc_range_def footer_result_def)

lemma Parse_loop_footer_0:
  assumes "parseState c = PS_BODY" "bodySize (header (sspDataRecv c)) = 0"
  shows "Parse_loop c [lo, hi] m = (footer_result c lo hi, True, m + 2)"
  using assms
  by (simp add: Parse_byte_def parse_footer_1_def parse_footer_2_def recv_err_def ParseReset_def
        Let_def crc_range_def footer_result_def)


lemma serialize_bytes:
  assumes "wf_frame d"
  shows "serialize d =
     [SIG_1, SIG_2, destId (header d), srcId (header d), type (header d), bodySize (header d),
      transId (header d),
      Checksum [SIG_1, SIG_2, destId (header d), srcId (header d), type (header d),
                bodySize (header d), transId (header d)]]
     @ body d
     @ [ucast (crc (fill_packet d)), ucast (drop_bit 8 (crc (fill_packet d)))]"
proof -
  have len: "unat (packetSize (fill_packet d)) = 8 + length (body d) + 2"
    using assms by (simp add: fill_packet_def wf_frame_def HEADER_SIZE_def Let_def)
  have b: "body (fill_packet d) = body d"
    by (simp add: fill_packet_def Let_def)
  show ?thesis
    by (simp add: serialize_def packet_bytes_def len b)
       (simp add: fill_packet_def header_bytes_def HEADER_SIZE_def Let_def)
qed

lemma header_fill_packet:
  "header (fill_packet d) =
     parsed_header (destId (header d)) (srcId (header d)) (type (header d)) (bodySize (header d))
       (transId (header d))
       (Checksum [SIG_1, SIG_2, destId (header d), srcId (header d), type (header d),
                  bodySize (header d), transId (header d)])"
  by (simp add: fill_packet_def parsed_header_def header_bytes_def HEADER_SIZE_def Let_def)

lemma crc_fill_packet:
  assumes "wf_frame d"
  shows "crc (fill_packet d) = Crc16CalcBlock (header_bytes (header (fill_packet d)) @ body d) 0xFFFF"
  using assms
  by (simp add: fill_packet_def wf_frame_def crc_range_def Let_def)

text \<open>The header on the wire, and the module data once header and body are consumed.\<close>

definition wire_header :: "SspData \<Rightarrow> u8 list" where
  "wire_header d = header_bytes (header (fill_packet d))"

definition after_body :: "SspComObj \<Rightarrow> SspData \<Rightarrow> SspComObj" where
  "after_body c d =
     c\<lparr>sspDataRecv := (sspDataRecv c)
          \<lparr>err := SSP_PARTIAL_PACKET_HEADER_VALID, header := header (fill_packet d),
           body := body d @ drop (length (body d)) (body (sspDataRecv c))\<rparr>,
       parseBytes := of_nat (length (body d)),
       parseState := (if body d = [] then PS_BODY else PS_FOOTER_1)\<rparr>"

lemma wire_header_bytes:
  "wire_header d =
     [SIG_1, SIG_2, destId (header d), srcId (header d), type (header d), bodySize (header d),
      transId (header d),
      Checksum [SIG_1, SIG_2, destId (header d), srcId (header d), type (header d),
                bodySize (header d), transId (header d)]]"
  by (simp add: wire_header_def header_fill_packet parsed_header_def header_bytes_def)

lemma serialize_split:
  assumes "wf_frame d"
  shows "serialize d = wire_header d @ body d
           @ [ucast (crc (fill_packet d)), ucast (drop_bit 8 (crc (fill_packet d)))]"
  using serialize_bytes [OF assms] by (simp add: wire_header_bytes)

lemma Parse_loop_frame:
  assumes wf: "wf_frame d" and idle: "idle_parser c"
  shows "Parse_loop c (wire_header d @ body d @ [lo, hi]) 0 =
           (footer_result (after_body c d) lo hi, True, 10 + length (body d))"
proof -
  define n where "n = length (body d)"
  have sz: "unat (bodySize (header d)) = n" "n \<le> SSP_MAX_BODY_SIZE"
    using wf by (simp_all add: wf_frame_def n_def)
  have st: "parseState c = PS_SIGNATURE_1" "parseBytes c = 0"
    "length (body (sspDataRecv c)) = SSP_MAX_BODY_SIZE"
    using idle by (simp_all add: idle_parser_def)
  define c1 where "c1 = c\<lparr>sspDataRecv := (sspDataRecv c)
        \<lparr>err := SSP_PARTIAL_PACKET_HEADER_VALID, header := header (fill_packet d)\<rparr>,
      parseState := PS_BODY\<rparr>"
  have h: "Parse_loop c (wire_header d) 0 = (c1, False, 8)"
    unfolding wire_header_bytes
    using sz by (simp add: Parse_loop_header [OF st(1)] c1_def header_fill_packet
                   del: Parse_loop.simps)
  show ?thesis
  proof (cases "body d = []")
    case True
    then have n0: "n = 0" by (simp add: n_def)
    have bs0: "bodySize (header (sspDataRecv c1)) = 0"
      using sz(1) n0 by (simp add: c1_def header_fill_packet parsed_header_def unat_eq_0)
    have ps: "parseState c1 = PS_BODY" by (simp add: c1_def)
    have ab: "after_body c d = c1"
      using True st(2) by (simp add: after_body_def c1_def)
    show ?thesis
      using True h Parse_loop_footer_0 [OF ps bs0, of lo hi 8]
      by (simp add: Parse_loop_append ab del: Parse_loop.simps)
  next
    case False
    have ps: "parseState c1 = PS_BODY" by (simp add: c1_def)
    have b1: "unat (bodySize (header (sspDataRecv c1))) = n"
      using sz(1) by (simp add: c1_def header_fill_packet parsed_header_def)
    have b2: "parseBytes c1 = of_nat 0" using st(2) by (simp add: c1_def)
    have b3: "0 + length (body d) = n" by (simp add: n_def)
    have b4: "n \<le> length (body (sspDataRecv c1))"
      using sz(2) st(3) by (simp add: c1_def)
    have bd: "Parse_loop c1 (body d) 8 = (after_body c d, False, 8 + length (body d))"
      using Parse_loop_body [OF ps b1 b2 b3 False b4, of 8] False
      by (simp add: after_body_def c1_def n_def)
    have pf: "parseState (after_body c d) = PS_FOOTER_1"
      using False by (simp add: after_body_def)
    show ?thesis
      using h bd Parse_loop_footer_1 [OF pf, of lo hi "8 + length (body d)"]
      by (simp add: Parse_loop_append del: Parse_loop.simps)
  qed
qed

text \<open>What the receive block holds after a frame has been accepted.\<close>

definition accepted :: "SspData \<Rightarrow> SspData \<Rightarrow> SspData" where
  "accepted r d =
     r\<lparr>err := SSP_SUCCESS, crc := crc (fill_packet d), header := header (fill_packet d),
       body := body d @ drop (length (body d)) (body r)\<rparr>"

lemma crc_range_after_body:
  assumes "wf_frame d"
  shows "Crc16CalcBlock (crc_range (sspDataRecv (after_body c d))) 0xFFFF = crc (fill_packet d)"
proof -
  have "unat (bodySize (header (fill_packet d))) = length (body d)"
    using assms by (simp add: wf_frame_def header_fill_packet parsed_header_def)
  then show ?thesis
    using assms by (simp add: crc_range_def after_body_def crc_fill_packet)
qed

lemma footer_result_after_body:
  assumes wf: "wf_frame d"
    and dst: "unat (destId (header d)) < SSP_SOCKET_MAX"
      "socketToPortIdMap c (destId (header d)) \<noteq> SSP_INVALID_PORT"
  shows "footer_result (after_body c d) lo hi =
     (if ucast lo + push_bit 8 (ucast hi) = crc (fill_packet d)
      then c\<lparr>currentFooter := crc (fill_packet d), sspDataRecv := accepted (sspDataRecv c) d,
             parseState := PS_SIGNATURE_1, parseBytes := 0\<rparr>
      else c\<lparr>currentFooter := ucast lo + push_bit 8 (ucast hi),
             sspDataRecv := (accepted (sspDataRecv c) d)\<lparr>err := SSP_CORRUPTED_PACKET,
                               crc := crc (sspDataRecv c)\<rparr>,
             parseState := PS_SIGNATURE_1, parseBytes := 0\<rparr>)"
proof -
  have d1: "destId (header (sspDataRecv (after_body c d))) = destId (header d)"
    by (simp add: after_body_def header_fill_packet parsed_header_def)
  have m: "socketToPortIdMap (after_body c d) = socketToPortIdMap c"
    by (simp add: after_body_def)
  show ?thesis
    using dst
    by (simp add: footer_result_def Let_def d1 m crc_range_after_body [OF wf])
       (simp add: after_body_def accepted_def)
qed

section \<open>The receive loop on a frame\<close>

text \<open>
  The statics after the history loop has seen some bytes, and the world after the receive
  loop has taken bytes from a port.
\<close>

definition saved :: "ReceiveStatics \<Rightarrow> u8 list \<Rightarrow> ReceiveStatics" where
  "saved st bs =
     (case save_history (parseHistory st) (parseHistoryIdx st) bs of
        (h, i) \<Rightarrow> \<lparr>parseHistory = h, parseHistoryIdx = i\<rparr>)"

definition consumed :: "SspPortId \<Rightarrow> u8 list \<Rightarrow> SspComObj \<Rightarrow> ReceiveStatics \<Rightarrow> World \<Rightarrow> World" where
  "consumed p rest c st w =
     w\<lparr>com := c, recvStatics := st,
       hal := (hal w)\<lparr>recvDataBuf := (recvDataBuf (hal w))(p := rest)\<rparr>\<rparr>"

lemma saved_Cons: "saved (saved st [b]) bs = saved st (b # bs)"
  by (cases bs) (auto simp: saved_def split: prod.splits)

lemma Receive_pass_byte:
  assumes "recvDataBuf (hal w) p = b # bs"
    and "Parse_byte (com w) b = (c1, f)"
  shows "Receive_pass p True w =
     (consumed p bs c1 (saved (recvStatics w) [b]) w,
      if f \<and> err (sspDataRecv c1) = SSP_BAD_HEADER_CHECKSUM
           \<and> parseHistoryIdx (saved (recvStatics w) [b]) = PARSE_HISTORY_SIZE then Some False
      else if \<not> f then Some True else None)"
proof -
  have pr: "SSPHAL_PortRecv p MAX_PORT_RECV_BYTES w =
      ([b], w\<lparr>hal := (hal w)\<lparr>recvDataBuf := (recvDataBuf (hal w))(p := bs)\<rparr>\<rparr>)"
    using assms(1) by (simp add: SSPHAL_PortRecv_def MAX_PORT_RECV_BYTES_def)
  have pa: "Parse (com w) [b] = (c1, f, 1)"
    using assms(2) by (cases f) (simp_all add: Parse_def)
  obtain h i where sh: "save_history (parseHistory (recvStatics w))
      (parseHistoryIdx (recvStatics w)) [b] = (h, i)"
    by (cases "save_history (parseHistory (recvStatics w)) (parseHistoryIdx (recvStatics w)) [b]")
  have sv: "saved (recvStatics w) [b] = \<lparr>parseHistory = h, parseHistoryIdx = i\<rparr>"
    using sh by (simp add: saved_def del: save_history.simps)
  show ?thesis
    unfolding Receive_pass_def sv
    using sh by (simp add: pr pa consumed_def Let_def del: save_history.simps)
qed

lemma consumed_consumed [simp]:
  "consumed p rest c st (consumed p bs c1 st1 w) = consumed p rest c st w"
  by (simp add: consumed_def)

lemma consumed_fields [simp]:
  "com (consumed p rest c st w) = c"
  "recvDataBuf (hal (consumed p rest c st w)) p = rest"
  "events (consumed p rest c st w) = events w"
  "ssp (consumed p rest c st w) = ssp w"
  "portIsOpen (hal (consumed p rest c st w)) = portIsOpen (hal w)"
  "portSendOk (hal (consumed p rest c st w)) = portSendOk (hal w)"
  "recvStatics (consumed p rest c st w) = st"
  by (simp_all add: consumed_def)

lemma Receive_loop_bytes:
  assumes "recvDataBuf (hal w) p = bs @ rest"
    and "Parse_loop (com w) bs n = (c', True, n + length bs)"
    and "err (sspDataRecv c') \<noteq> SSP_BAD_HEADER_CHECKSUM"
  shows "Receive_loop p True w = consumed p rest c' (saved (recvStatics w) bs) w"
  using assms
proof (induction bs arbitrary: w n)
  case Nil
  then show ?case by simp
next
  case (Cons b bs)
  obtain c1 f where pb: "Parse_byte (com w) b = (c1, f)"
    by (cases "Parse_byte (com w) b") auto
  have rx: "recvDataBuf (hal w) p = b # (bs @ rest)"
    using Cons.prems(1) by simp
  note rp = Receive_pass_byte [OF rx pb]
  show ?case
  proof (cases f)
    case True
    with Cons.prems(2) pb have e: "c' = c1" "bs = []" by auto
    show ?thesis
      using True Cons.prems(3) e
      by (subst Receive_loop.simps) (simp add: rp)
  next
    case False
    with Cons.prems(2) pb have pl: "Parse_loop c1 bs (Suc n) = (c', True, Suc n + length bs)"
      by simp
    define w1 where "w1 = consumed p (bs @ rest) c1 (saved (recvStatics w) [b]) w"
    have step: "Receive_loop p True w = Receive_loop p True w1"
      using False by (subst Receive_loop.simps) (simp add: rp w1_def)
    have ih: "Receive_loop p True w1 = consumed p rest c' (saved (recvStatics w1) bs) w1"
      by (rule Cons.IH [where n = "Suc n"]) (simp_all add: pl Cons.prems(3) w1_def)
    show ?thesis
      unfolding step ih by (simp add: w1_def saved_Cons)
  qed
qed

text \<open>The block \<^verbatim>\<open>SSP_SendMultiple\<close> builds for a payload, before it is sent.\<close>

definition data_frame :: "u8 \<Rightarrow> u8 \<Rightarrow> u8 \<Rightarrow> u8 list \<Rightarrow> SspData" where
  "data_frame src dst tr payload =
     (SSPCOM_AllocateSspData (of_nat (length payload)))
       \<lparr>body := payload, dataType := SSP_SEND,
        header := zero_header\<lparr>bodySize := of_nat (length payload), srcId := src, destId := dst,
                               transId := tr, type := MSG_TYPE_DATA\<rparr>\<rparr>"

lemma wf_data_frame:
  assumes "length p \<le> SSP_MAX_BODY_SIZE"
  shows "wf_frame (data_frame src dst tr p)"
proof -
  have l: "length p \<le> 54"
    using assms by (simp add: SSP_MAX_BODY_SIZE_def SSP_MAX_PACKET_SIZE_def HEADER_SIZE_def)
  have a: "unat (of_nat (length p) :: u8) = length p"
    using l by (simp add: unat_of_nat)
  have b: "unat (of_nat (length p) :: u16) = length p"
    using l by (simp add: unat_of_nat)
  have "(10 + of_nat (length p) :: u16) = of_nat (10 + length p)" by simp
  then have c: "unat (10 + of_nat (length p) :: u16) = 10 + length p"
    using l by (simp only: unat_of_nat) simp
  show ?thesis
    using assms
    by (simp add: wf_frame_def data_frame_def SSPCOM_AllocateSspData_def HEADER_SIZE_def a b c)
qed

lemma SSPCOM_Send_ok:
  assumes "SSPCOM_GetPortId (srcId (header d)) w = Inr p"
    and "portIsOpen (hal w) p" and "portSendOk (hal w)" and "wf_frame d"
  shows "SSPCOM_Send d w =
     (SSP_SUCCESS, fill_packet d, w\<lparr>events := events w @ [PortSend p (serialize d)]\<rparr>)"
proof -
  have ne: "serialize d \<noteq> []"
    using serialize_split [OF assms(4)] by simp
  have op: "unat (srcId (header d)) < SSP_SOCKET_MAX"
    "socketToPortIdMap (com w) (srcId (header d)) \<noteq> SSP_INVALID_PORT"
    using assms(1) by (auto simp: SSPCOM_GetPortId_def split: if_splits)
  show ?thesis
    using assms(1,2,3) op ne
    by (simp add: SSPCOM_Send_def SSPCOM_IsSocketOpen_def SSPCOM_IsPortOpen_def
          SSPHAL_PortSend_def serialize_def [symmetric])
qed

lemma Receive_frame:
  assumes wf: "wf_frame d"
    and dst: "unat (destId (header d)) < SSP_SOCKET_MAX"
      "socketToPortIdMap (com w) (destId (header d)) \<noteq> SSP_INVALID_PORT"
    and idle: "idle_parser (com w)"
    and rx: "recvDataBuf (hal w) p = serialize d @ rest"
  shows "Receive_loop p True w =
     consumed p rest
       ((com w)\<lparr>currentFooter := crc (fill_packet d),
                sspDataRecv := accepted (sspDataRecv (com w)) d,
                parseState := PS_SIGNATURE_1, parseBytes := 0\<rparr>)
       (saved (recvStatics w) (serialize d)) w"
proof -
  define lo :: u8 where "lo = ucast (crc (fill_packet d))"
  define hi :: u8 where "hi = ucast (drop_bit 8 (crc (fill_packet d)))"
  have ser: "serialize d = wire_header d @ body d @ [lo, hi]"
    using serialize_split [OF wf] by (simp add: lo_def hi_def)
  have len: "length (serialize d) = 10 + length (body d)"
    by (simp add: ser wire_header_bytes)
  have rc: "ucast lo + push_bit 8 (ucast hi) = crc (fill_packet d)"
    unfolding lo_def hi_def by (rule word_recombine)
  have pl: "Parse_loop (com w) (serialize d) 0 =
      ((com w)\<lparr>currentFooter := crc (fill_packet d),
                sspDataRecv := accepted (sspDataRecv (com w)) d,
                parseState := PS_SIGNATURE_1, parseBytes := 0\<rparr>, True, 0 + length (serialize d))"
    unfolding ser [symmetric] len
    using Parse_loop_frame [OF wf idle, of lo hi] footer_result_after_body [OF wf dst, of lo hi] rc
    by (simp add: ser)
  have ne: "err (sspDataRecv ((com w)\<lparr>currentFooter := crc (fill_packet d),
                sspDataRecv := accepted (sspDataRecv (com w)) d,
                parseState := PS_SIGNATURE_1, parseBytes := 0\<rparr>)) \<noteq> SSP_BAD_HEADER_CHECKSUM"
    by (simp add: accepted_def)
  show ?thesis
    by (rule Receive_loop_bytes [OF rx pl ne])
qed

section \<open>Framing round trip\<close>

text \<open>
  The receive loop on the bytes of a frame, whatever its destination: the parser takes the
  header and the body, and the two footer bytes decide.
\<close>

lemma Receive_frame_footer:
  assumes wf: "wf_frame d" and idle: "idle_parser (com w)"
    and rx: "recvDataBuf (hal w) p = serialize d @ rest"
  shows "Receive_loop p True w =
     consumed p rest
       (footer_result (after_body (com w) d)
          (ucast (crc (fill_packet d))) (ucast (drop_bit 8 (crc (fill_packet d)))))
       (saved (recvStatics w) (serialize d)) w"
proof -
  define lo :: u8 where "lo = ucast (crc (fill_packet d))"
  define hi :: u8 where "hi = ucast (drop_bit 8 (crc (fill_packet d)))"
  have ser: "serialize d = wire_header d @ body d @ [lo, hi]"
    using serialize_split [OF wf] by (simp add: lo_def hi_def)
  have len: "length (serialize d) = 10 + length (body d)"
    by (simp add: ser wire_header_bytes)
  define c' where "c' = footer_result (after_body (com w) d) lo hi"
  have pl: "Parse_loop (com w) (serialize d) 0 = (c', True, 0 + length (serialize d))"
    unfolding len using Parse_loop_frame [OF wf idle, of lo hi] by (simp add: ser c'_def)
  have ne: "err (sspDataRecv c') \<noteq> SSP_BAD_HEADER_CHECKSUM"
    by (simp add: c'_def footer_result_def Let_def)
  show ?thesis
    using Receive_loop_bytes [OF rx pl ne] by (simp add: c'_def lo_def hi_def)
qed

lemma footer_result_fields:
  assumes wf: "wf_frame d"
    and r_def: "r = sspDataRecv (footer_result (after_body c d)
                    (ucast (crc (fill_packet d))) (ucast (drop_bit 8 (crc (fill_packet d)))))"
  shows "err r = (if SSP_SOCKET_MAX \<le> unat (destId (header d)) then SSP_BAD_SOCKET_ID
                  else if socketToPortIdMap c (destId (header d)) = SSP_INVALID_PORT
                  then SSP_SOCKET_NOT_OPEN else SSP_SUCCESS)"
    and "header r = header (fill_packet d)"
    and "body r = body d @ drop (length (body d)) (body (sspDataRecv c))"
    and "err r = SSP_SUCCESS \<Longrightarrow> crc r = crc (fill_packet d)"
proof -
  have d1: "destId (header (sspDataRecv (after_body c d))) = destId (header d)"
    by (simp add: after_body_def header_fill_packet parsed_header_def)
  have m: "socketToPortIdMap (after_body c d) = socketToPortIdMap c"
    by (simp add: after_body_def)
  have rc: "ucast (ucast (crc (fill_packet d)) :: u8)
             + push_bit 8 (ucast (ucast (drop_bit 8 (crc (fill_packet d))) :: u8))
           = crc (fill_packet d)"
    by (rule word_recombine)
  show "err r = (if SSP_SOCKET_MAX \<le> unat (destId (header d)) then SSP_BAD_SOCKET_ID
                  else if socketToPortIdMap c (destId (header d)) = SSP_INVALID_PORT
                  then SSP_SOCKET_NOT_OPEN else SSP_SUCCESS)"
    by (simp add: r_def footer_result_def Let_def d1 m rc crc_range_after_body [OF wf])
  show "header r = header (fill_packet d)"
    by (simp add: r_def footer_result_def Let_def d1 m rc crc_range_after_body [OF wf])
       (simp add: after_body_def)
  show "body r = body d @ drop (length (body d)) (body (sspDataRecv c))"
    by (simp add: r_def footer_result_def Let_def d1 m rc crc_range_after_body [OF wf])
       (simp add: after_body_def)
  show "crc r = crc (fill_packet d)" if "err r = SSP_SUCCESS"
    using that
    by (simp add: r_def footer_result_def Let_def d1 m rc crc_range_after_body [OF wf]
          split: if_splits)
qed

text \<open>
  C2, as the code has it. A data block for a payload of at most \<^verbatim>\<open>SSP_MAX_BODY_SIZE\<close>
  bytes, sent with \<^verbatim>\<open>SSPCOM_Send\<close> from a bound source socket over an open port, reaches
  the transport as one byte run. Fed to a receiver whose parser waits for a signature, the
  run is consumed entirely and the receive block holds the same source, destination,
  transaction identifier, type and payload. The status \<^verbatim>\<open>SSPCOM_ProcessReceive\<close> returns
  depends on the destination: \<^verbatim>\<open>SSP_BAD_SOCKET_ID\<close> when it is not below
  \<^verbatim>\<open>SSP_SOCKET_MAX\<close>, \<^verbatim>\<open>SSP_SOCKET_NOT_OPEN\<close> when it is below and not bound to a port at
  the receiver, and \<^verbatim>\<open>SSP_SUCCESS\<close>, with the CRC of the sent block, otherwise.
\<close>

theorem framing_roundtrip:
  assumes "length p \<le> SSP_MAX_BODY_SIZE"
    and "SSPCOM_GetPortId src ws = Inr ps" and "portIsOpen (hal ws) ps" and "portSendOk (hal ws)"
    and "idle_parser (com wr)" and "portIsOpen (hal wr) pr" and "recvDataBuf (hal wr) pr = []"
  shows "\<exists>d' ws' bytes r wr'.
       SSPCOM_Send (data_frame src dst tr p) ws = (SSP_SUCCESS, d', ws')
     \<and> events ws' = events ws @ [PortSend ps bytes]
     \<and> SSPCOM_ProcessReceive pr (feed pr bytes wr) = (err r, Some r, wr')
     \<and> err r = (if SSP_SOCKET_MAX \<le> unat dst then SSP_BAD_SOCKET_ID
                else if socketToPortIdMap (com wr) dst = SSP_INVALID_PORT
                then SSP_SOCKET_NOT_OPEN else SSP_SUCCESS)
     \<and> srcId (header r) = src \<and> destId (header r) = dst
     \<and> transId (header r) = tr \<and> type (header r) = MSG_TYPE_DATA
     \<and> take (unat (bodySize (header r))) (body r) = p
     \<and> (err r = SSP_SUCCESS \<longrightarrow> crc r = crc d')
     \<and> recvDataBuf (hal wr') pr = []"
proof -
  define d where "d = data_frame src dst tr p"
  have wf: "wf_frame d"
    using assms(1) by (simp add: d_def wf_data_frame)
  have hd: "srcId (header d) = src" "destId (header d) = dst" "transId (header d) = tr"
    "type (header d) = MSG_TYPE_DATA" "body d = p"
    by (simp_all add: d_def data_frame_def)
  have bs: "unat (bodySize (header d)) = length p"
    using wf hd(5) by (simp add: wf_frame_def)
  have snd: "SSPCOM_Send d ws =
     (SSP_SUCCESS, fill_packet d, ws\<lparr>events := events ws @ [PortSend ps (serialize d)]\<rparr>)"
    using assms(2,3,4) wf by (intro SSPCOM_Send_ok) (simp_all add: hd)
  define w0 where "w0 = feed pr (serialize d) wr"
  have w0: "com w0 = com wr" "recvDataBuf (hal w0) pr = serialize d @ []"
    "portIsOpen (hal w0) = portIsOpen (hal wr)"
    using assms(7) by (simp_all add: w0_def feed_def)
  define c' where "c' = footer_result (after_body (com wr) d)
          (ucast (crc (fill_packet d))) (ucast (drop_bit 8 (crc (fill_packet d))))"
  define r where "r = sspDataRecv c'"
  define w1 where "w1 = consumed pr [] c' (saved (recvStatics w0) (serialize d)) w0"
  have rl: "Receive_loop pr True w0 = w1"
    using assms(5) Receive_frame_footer [OF wf _ w0(2)] by (simp add: w0(1) w1_def c'_def)
  have rcv: "SSPCOM_ProcessReceive pr w0 = (err r, Some r, w1)"
    using assms(6)
    by (simp add: SSPCOM_ProcessReceive_def SSPCOM_IsPortOpen_def Receive_def rl w0(3) Let_def)
       (simp add: w1_def r_def)
  have rr: "r = sspDataRecv (footer_result (after_body (com wr) d)
                    (ucast (crc (fill_packet d))) (ucast (drop_bit 8 (crc (fill_packet d)))))"
    by (simp add: r_def c'_def)
  note ff = footer_result_fields [OF wf rr]
  have e: "err r = (if SSP_SOCKET_MAX \<le> unat dst then SSP_BAD_SOCKET_ID
                else if socketToPortIdMap (com wr) dst = SSP_INVALID_PORT
                then SSP_SOCKET_NOT_OPEN else SSP_SUCCESS)"
    using ff(1) by (simp add: hd)
  have flds: "srcId (header r) = src" "destId (header r) = dst"
    "transId (header r) = tr" "type (header r) = MSG_TYPE_DATA"
    using hd by (simp_all add: ff(2) header_fill_packet parsed_header_def)
  have pay: "take (unat (bodySize (header r))) (body r) = p"
    using bs hd(5) by (simp add: ff(2,3) header_fill_packet parsed_header_def)
  have cr: "err r = SSP_SUCCESS \<longrightarrow> crc r = crc (fill_packet d)"
    using ff(4) by simp
  have em: "recvDataBuf (hal w1) pr = []"
    by (simp add: w1_def)
  show ?thesis
    unfolding d_def [symmetric]
    using snd rcv e flds pay cr em
    by (intro exI [of _ "fill_packet d"] exI [of _ "ws\<lparr>events := events ws @ [PortSend ps (serialize d)]\<rparr>"]
          exI [of _ "serialize d"] exI [of _ r] exI [of _ w1])
       (simp add: w0_def)
qed

theorem framing_roundtrip_witness:
  "length [0x68, 0x69, 0 :: u8] \<le> SSP_MAX_BODY_SIZE
   \<and> SSPCOM_GetPortId 0 two_sockets = Inr SSP_PORT1
   \<and> portIsOpen (hal two_sockets) SSP_PORT1 \<and> portSendOk (hal two_sockets)
   \<and> idle_parser (com two_sockets)
   \<and> recvDataBuf (hal two_sockets) SSP_PORT1 = []
   \<and> (\<exists>d' ws' bytes r wr'.
         SSPCOM_Send (data_frame 0 1 0 [0x68, 0x69, 0]) two_sockets = (SSP_SUCCESS, d', ws')
       \<and> events ws' = events two_sockets @ [PortSend SSP_PORT1 bytes]
       \<and> SSPCOM_ProcessReceive SSP_PORT1 (feed SSP_PORT1 bytes two_sockets) = (SSP_SUCCESS, Some r, wr')
       \<and> err r = SSP_SUCCESS \<and> srcId (header r) = 0 \<and> destId (header r) = 1
       \<and> transId (header r) = 0 \<and> type (header r) = MSG_TYPE_DATA
       \<and> take (unat (bodySize (header r))) (body r) = [0x68, 0x69, 0] \<and> crc r = crc d'
       \<and> recvDataBuf (hal wr') SSP_PORT1 = [])
   \<and> (\<exists>d' ws' bytes r wr'.
         SSPCOM_Send (data_frame 0 2 0 [0x68, 0x69, 0]) two_sockets = (SSP_SUCCESS, d', ws')
       \<and> events ws' = events two_sockets @ [PortSend SSP_PORT1 bytes]
       \<and> SSPCOM_ProcessReceive SSP_PORT1 (feed SSP_PORT1 bytes two_sockets)
            = (SSP_SOCKET_NOT_OPEN, Some r, wr')
       \<and> srcId (header r) = 0 \<and> destId (header r) = 2 \<and> transId (header r) = 0
       \<and> take (unat (bodySize (header r))) (body r) = [0x68, 0x69, 0])"
proof -
  have h1: "length [0x68, 0x69, 0 :: u8] \<le> SSP_MAX_BODY_SIZE" by code_simp
  have h2: "SSPCOM_GetPortId 0 two_sockets = Inr SSP_PORT1" by code_simp
  have h3: "portIsOpen (hal two_sockets) SSP_PORT1" by code_simp
  have h4: "portSendOk (hal two_sockets)" by code_simp
  have h5: "\<not> SSP_SOCKET_MAX \<le> unat (1 :: u8)" "\<not> SSP_SOCKET_MAX \<le> unat (2 :: u8)"
    by code_simp+
  have h6: "socketToPortIdMap (com two_sockets) 1 \<noteq> SSP_INVALID_PORT"
    "socketToPortIdMap (com two_sockets) 2 = SSP_INVALID_PORT" by code_simp+
  have h7: "idle_parser (com two_sockets)" by code_simp
  have h9: "recvDataBuf (hal two_sockets) SSP_PORT1 = []" by code_simp
  from framing_roundtrip [OF h1 h2 h3 h4 h7 h3 h9, where dst = 1 and tr = 0]
  obtain d' ws' bytes r wr' where a:
    "SSPCOM_Send (data_frame 0 1 0 [0x68, 0x69, 0]) two_sockets = (SSP_SUCCESS, d', ws')"
    "events ws' = events two_sockets @ [PortSend SSP_PORT1 bytes]"
    "SSPCOM_ProcessReceive SSP_PORT1 (feed SSP_PORT1 bytes two_sockets) = (err r, Some r, wr')"
    "err r = (if SSP_SOCKET_MAX \<le> unat (1 :: u8) then SSP_BAD_SOCKET_ID
                else if socketToPortIdMap (com two_sockets) 1 = SSP_INVALID_PORT
                then SSP_SOCKET_NOT_OPEN else SSP_SUCCESS)"
    "srcId (header r) = 0" "destId (header r) = 1" "transId (header r) = 0"
    "type (header r) = MSG_TYPE_DATA"
    "take (unat (bodySize (header r))) (body r) = [0x68, 0x69, 0]"
    "err r = SSP_SUCCESS \<longrightarrow> crc r = crc d'"
    "recvDataBuf (hal wr') SSP_PORT1 = []"
    by blast
  have ea: "err r = SSP_SUCCESS"
    using a(4) h5(1) h6(1) by simp
  from framing_roundtrip [OF h1 h2 h3 h4 h7 h3 h9, where dst = 2 and tr = 0]
  obtain d2 ws2 bytes2 r2 wr2 where b:
    "SSPCOM_Send (data_frame 0 2 0 [0x68, 0x69, 0]) two_sockets = (SSP_SUCCESS, d2, ws2)"
    "events ws2 = events two_sockets @ [PortSend SSP_PORT1 bytes2]"
    "SSPCOM_ProcessReceive SSP_PORT1 (feed SSP_PORT1 bytes2 two_sockets) = (err r2, Some r2, wr2)"
    "err r2 = (if SSP_SOCKET_MAX \<le> unat (2 :: u8) then SSP_BAD_SOCKET_ID
                else if socketToPortIdMap (com two_sockets) 2 = SSP_INVALID_PORT
                then SSP_SOCKET_NOT_OPEN else SSP_SUCCESS)"
    "srcId (header r2) = 0" "destId (header r2) = 2" "transId (header r2) = 0"
    "take (unat (bodySize (header r2))) (body r2) = [0x68, 0x69, 0]"
    by blast
  have eb: "err r2 = SSP_SOCKET_NOT_OPEN"
    using b(4) h5(2) h6(2) by simp
  have A: "\<exists>d' ws' bytes r wr'.
         SSPCOM_Send (data_frame 0 1 0 [0x68, 0x69, 0]) two_sockets = (SSP_SUCCESS, d', ws')
       \<and> events ws' = events two_sockets @ [PortSend SSP_PORT1 bytes]
       \<and> SSPCOM_ProcessReceive SSP_PORT1 (feed SSP_PORT1 bytes two_sockets) = (SSP_SUCCESS, Some r, wr')
       \<and> err r = SSP_SUCCESS \<and> srcId (header r) = 0 \<and> destId (header r) = 1
       \<and> transId (header r) = 0 \<and> type (header r) = MSG_TYPE_DATA
       \<and> take (unat (bodySize (header r))) (body r) = [0x68, 0x69, 0] \<and> crc r = crc d'
       \<and> recvDataBuf (hal wr') SSP_PORT1 = []"
    using a ea by (intro exI [of _ d'] exI [of _ ws'] exI [of _ bytes] exI [of _ r] exI [of _ wr']) simp
  have B: "\<exists>d' ws' bytes r wr'.
         SSPCOM_Send (data_frame 0 2 0 [0x68, 0x69, 0]) two_sockets = (SSP_SUCCESS, d', ws')
       \<and> events ws' = events two_sockets @ [PortSend SSP_PORT1 bytes]
       \<and> SSPCOM_ProcessReceive SSP_PORT1 (feed SSP_PORT1 bytes two_sockets)
            = (SSP_SOCKET_NOT_OPEN, Some r, wr')
       \<and> srcId (header r) = 0 \<and> destId (header r) = 2 \<and> transId (header r) = 0
       \<and> take (unat (bodySize (header r))) (body r) = [0x68, 0x69, 0]"
    using b eb by (intro exI [of _ d2] exI [of _ ws2] exI [of _ bytes2] exI [of _ r2] exI [of _ wr2]) simp
  show ?thesis
    using h1 h2 h3 h4 h7 h9 A B by blast
qed

text \<open>
  The claim as stated fails for a destination the receiver does not know: a frame for
  socket 5 is sent and parsed, and the parser reports \<^verbatim>\<open>SSP_BAD_SOCKET_ID\<close>.
\<close>

theorem framing_roundtrip_counterexample:
  "length [1, 2 :: u8] \<le> SSP_MAX_BODY_SIZE
   \<and> fst (SSPCOM_Send (data_frame 0 5 0 [1, 2]) two_sockets) = SSP_SUCCESS
   \<and> events (snd (snd (SSPCOM_Send (data_frame 0 5 0 [1, 2]) two_sockets)))
        = [PortSend SSP_PORT1 (serialize (data_frame 0 5 0 [1, 2]))]
   \<and> fst (SSPCOM_ProcessReceive SSP_PORT1
            (feed SSP_PORT1 (serialize (data_frame 0 5 0 [1, 2])) two_sockets)) = SSP_BAD_SOCKET_ID"
  by code_simp

section \<open>Single-bit flips\<close>

lemma flip_differs:
  assumes "k < 8"
  shows "(b :: u8) XOR push_bit k 1 \<noteq> b"
proof
  assume e: "b XOR push_bit k 1 = b"
  have "bit (b XOR push_bit k 1) k = (\<not> bit b k)"
    using assms by (simp add: bit_simps)
  then show False using e by simp
qed

lemma Checksum7: "Checksum [a, b, c, d, e, f, g] = a + b + c + d + e + f + g"
  by (simp add: Checksum_def)

lemma wire_header_body [simp]: "wire_header (d\<lparr>body := b\<rparr>) = wire_header d"
  by (simp add: wire_header_bytes)

lemma length_wire_header [simp]: "length (wire_header d) = 8"
  by (simp add: wire_header_bytes)

lemma corrupted_footer:
  assumes wf: "wf_frame d" and idle: "idle_parser c"
    and dst: "unat (destId (header d)) < SSP_SOCKET_MAX"
      "socketToPortIdMap c (destId (header d)) \<noteq> SSP_INVALID_PORT"
    and ne: "ucast lo + push_bit 8 (ucast hi) \<noteq> crc (fill_packet d)"
  shows "\<exists>c'. Parse c (wire_header d @ body d @ [lo, hi]) = (c', True, 10 + length (body d))
            \<and> err (sspDataRecv c') = SSP_CORRUPTED_PACKET"
  using Parse_loop_frame [OF wf idle, of lo hi] footer_result_after_body [OF wf dst, of lo hi] ne
  by (simp add: Parse_def accepted_def)

lemma body_flip:
  assumes wf: "wf_frame d" and idle: "idle_parser c"
    and dst: "unat (destId (header d)) < SSP_SOCKET_MAX"
      "socketToPortIdMap c (destId (header d)) \<noteq> SSP_INVALID_PORT"
    and j: "j < length (body d)" and x: "x \<noteq> body d ! j"
  shows "\<exists>c'. Parse c (wire_header d @ (body d)[j := x]
                      @ [ucast (crc (fill_packet d)), ucast (drop_bit 8 (crc (fill_packet d)))])
               = (c', True, 10 + length (body d))
            \<and> err (sspDataRecv c') = SSP_CORRUPTED_PACKET"
proof -
  define d' where "d' = d\<lparr>body := (body d)[j := x]\<rparr>"
  have wf': "wf_frame d'"
    using wf by (simp add: wf_frame_def d'_def)
  have hdr: "header (fill_packet d') = header (fill_packet d)"
    by (simp add: header_fill_packet d'_def)
  have b: "body d = take j (body d) @ (body d ! j) # drop (Suc j) (body d)"
    using j by (simp add: id_take_nth_drop [symmetric])
  have b': "body d' = take j (body d) @ x # drop (Suc j) (body d)"
    using j by (simp add: d'_def upd_conv_take_nth_drop)
  have c1: "crc (fill_packet d) =
      Crc16CalcBlock ((header_bytes (header (fill_packet d)) @ take j (body d))
                        @ (body d ! j) # drop (Suc j) (body d)) 0xFFFF"
    using crc_fill_packet [OF wf] b by (metis append.assoc)
  have c2: "crc (fill_packet d') =
      Crc16CalcBlock ((header_bytes (header (fill_packet d)) @ take j (body d))
                        @ x # drop (Suc j) (body d)) 0xFFFF"
    using crc_fill_packet [OF wf'] b' hdr by (metis append.assoc)
  have ne: "crc (fill_packet d) \<noteq> crc (fill_packet d')"
    unfolding c1 c2 using x crc_single_byte [of "body d ! j" x] by metis
  have rc: "ucast (ucast (crc (fill_packet d)) :: u8)
             + push_bit 8 (ucast (ucast (drop_bit 8 (crc (fill_packet d))) :: u8))
           \<noteq> crc (fill_packet d')"
    using ne by (simp add: word_recombine)
  have dst': "unat (destId (header d')) < SSP_SOCKET_MAX"
    "socketToPortIdMap c (destId (header d')) \<noteq> SSP_INVALID_PORT"
    using dst by (simp_all add: d'_def)
  show ?thesis
    using corrupted_footer [OF wf' idle dst' rc]
    by (simp add: d'_def)
qed

lemma trailer_flip:
  assumes wf: "wf_frame d" and idle: "idle_parser c"
    and dst: "unat (destId (header d)) < SSP_SOCKET_MAX"
      "socketToPortIdMap c (destId (header d)) \<noteq> SSP_INVALID_PORT"
    and ne: "lo \<noteq> ucast (crc (fill_packet d)) \<or> hi \<noteq> ucast (drop_bit 8 (crc (fill_packet d)))"
  shows "\<exists>c'. Parse c (wire_header d @ body d @ [lo, hi]) = (c', True, 10 + length (body d))
            \<and> err (sspDataRecv c') = SSP_CORRUPTED_PACKET"
proof -
  have "ucast lo + push_bit 8 (ucast hi) \<noteq> crc (fill_packet d)"
    using ne word_split_inj [of lo hi "crc (fill_packet d)"] by blast
  then show ?thesis
    by (rule corrupted_footer [OF wf idle dst])
qed

lemma serialize_data_frame:
  assumes "length p \<le> SSP_MAX_BODY_SIZE"
  shows "serialize (data_frame src dst tr p) =
     [SIG_1, SIG_2, dst, src, MSG_TYPE_DATA, of_nat (length p), tr,
      SIG_1 + SIG_2 + dst + src + MSG_TYPE_DATA + of_nat (length p) + tr] @ p
     @ [ucast (Crc16CalcBlock
                 ([SIG_1, SIG_2, dst, src, MSG_TYPE_DATA, of_nat (length p), tr,
                   SIG_1 + SIG_2 + dst + src + MSG_TYPE_DATA + of_nat (length p) + tr] @ p) 0xFFFF),
        ucast (drop_bit 8 (Crc16CalcBlock
                 ([SIG_1, SIG_2, dst, src, MSG_TYPE_DATA, of_nat (length p), tr,
                   SIG_1 + SIG_2 + dst + src + MSG_TYPE_DATA + of_nat (length p) + tr] @ p) 0xFFFF))]"
proof -
  have wf: "wf_frame (data_frame src dst tr p)"
    by (rule wf_data_frame [OF assms])
  have h: "header_bytes (header (fill_packet (data_frame src dst tr p))) =
     [SIG_1, SIG_2, dst, src, MSG_TYPE_DATA, of_nat (length p), tr,
      SIG_1 + SIG_2 + dst + src + MSG_TYPE_DATA + of_nat (length p) + tr]"
    by (simp add: header_fill_packet parsed_header_def header_bytes_def data_frame_def Checksum7)
  have b: "body (data_frame src dst tr p) = p"
    by (simp add: data_frame_def)
  show ?thesis
    using serialize_split [OF wf] crc_fill_packet [OF wf]
    by (simp add: wire_header_def h b)
qed

lemmas crc_eval = Crc16CalcBlock_def crc16_byte_def crc16_bit_def SIG_1_def SIG_2_def
  MSG_TYPE_DATA_def SSP_MAX_BODY_SIZE_def SSP_MAX_PACKET_SIZE_def HEADER_SIZE_def

text \<open>The receive loop on a damaged frame.\<close>

lemma Receive_loop_empty:
  assumes "recvDataBuf (hal w) p = []"
  shows "Receive_loop p True w = w"
  using assms
  by (subst Receive_loop.simps)
     (simp add: Receive_pass_def SSPHAL_PortRecv_def MAX_PORT_RECV_BYTES_def fun_upd_idem)

lemma saved_Nil [simp]: "saved st [] = st"
  by (simp add: saved_def)

lemma consumed_same:
  assumes "recvDataBuf (hal w) p = rest"
  shows "consumed p rest (com w) (recvStatics w) w = w"
  using assms by (simp add: consumed_def fun_upd_idem)

lemma Receive_loop_prefix:
  assumes "recvDataBuf (hal w) p = bs @ rest"
    and "Parse_loop (com w) bs n = (c', False, m)"
  shows "Receive_loop p True w =
           Receive_loop p True (consumed p rest c' (saved (recvStatics w) bs) w)"
  using assms
proof (induction bs arbitrary: w n)
  case Nil
  then show ?case by (auto simp: consumed_same)
next
  case (Cons b bs)
  obtain c1 f where pb: "Parse_byte (com w) b = (c1, f)"
    by (cases "Parse_byte (com w) b") auto
  have nf: "\<not> f"
    using Cons.prems(2) pb by (cases f) auto
  have pl: "Parse_loop c1 bs (Suc n) = (c', False, m)"
    using Cons.prems(2) pb nf by simp
  have rx: "recvDataBuf (hal w) p = b # (bs @ rest)"
    using Cons.prems(1) by simp
  note rp = Receive_pass_byte [OF rx pb]
  define w1 where "w1 = consumed p (bs @ rest) c1 (saved (recvStatics w) [b]) w"
  have step: "Receive_loop p True w = Receive_loop p True w1"
    using nf by (subst Receive_loop.simps) (simp add: rp w1_def)
  have ih: "Receive_loop p True w1 =
      Receive_loop p True (consumed p rest c' (saved (recvStatics w1) bs) w1)"
    by (rule Cons.IH [where n = "Suc n"]) (simp_all add: pl w1_def)
  show ?case
    unfolding step ih by (simp add: w1_def saved_Cons)
qed

lemma Receive_loop_bad_header:
  assumes "recvDataBuf (hal w) p = bs @ rest"
    and "Parse_loop (com w) bs n = (c', True, n + length bs)"
    and "err (sspDataRecv c') = SSP_BAD_HEADER_CHECKSUM"
    and "parseHistoryIdx (saved (recvStatics w) bs) = PARSE_HISTORY_SIZE"
  shows "Receive_loop p True w =
           Receive_loop p False (consumed p rest c' (saved (recvStatics w) bs) w)"
  using assms
proof (induction bs arbitrary: w n)
  case Nil
  then show ?case by simp
next
  case (Cons b bs)
  obtain c1 f where pb: "Parse_byte (com w) b = (c1, f)"
    by (cases "Parse_byte (com w) b") auto
  have rx: "recvDataBuf (hal w) p = b # (bs @ rest)"
    using Cons.prems(1) by simp
  note rp = Receive_pass_byte [OF rx pb]
  show ?case
  proof (cases f)
    case True
    with Cons.prems(2) pb have e: "c' = c1" "bs = []" by auto
    show ?thesis
      using True Cons.prems(3,4) e
      by (subst Receive_loop.simps) (simp add: rp)
  next
    case False
    with Cons.prems(2) pb have pl: "Parse_loop c1 bs (Suc n) = (c', True, Suc n + length bs)"
      by simp
    define w1 where "w1 = consumed p (bs @ rest) c1 (saved (recvStatics w) [b]) w"
    have step: "Receive_loop p True w = Receive_loop p True w1"
      using False by (subst Receive_loop.simps) (simp add: rp w1_def)
    have ix: "parseHistoryIdx (saved (recvStatics w1) bs) = PARSE_HISTORY_SIZE"
      using Cons.prems(4) by (simp add: w1_def saved_Cons)
    have ih: "Receive_loop p True w1 =
        Receive_loop p False (consumed p rest c' (saved (recvStatics w1) bs) w1)"
      by (rule Cons.IH [where n = "Suc n"])
         (simp_all add: pl Cons.prems(3,4) w1_def saved_Cons)
    show ?thesis
      unfolding step ih by (simp add: w1_def saved_Cons)
  qed
qed

text \<open>Bytes without \<^verbatim>\<open>SIG_1\<close> leave a parser that looks for a signature looking for one.\<close>

lemma Parse_loop_scan:
  assumes "parseState c = PS_SIGNATURE_1" and "SIG_1 \<notin> set bs"
  shows "\<exists>c'. Parse_loop c bs n = (c', False, n + length bs)
            \<and> parseState c' = PS_SIGNATURE_1
            \<and> err (sspDataRecv c') = (if bs = [] then err (sspDataRecv c) else SSP_BAD_SIGNATURE)"
  using assms
proof (induction bs arbitrary: c n)
  case Nil
  then show ?case by simp
next
  case (Cons b bs)
  define c1 where "c1 = fst (Parse_byte c b)"
  have nb: "b \<noteq> SIG_1"
    using Cons.prems(2) by auto
  have pb: "Parse_byte c b = (c1, False)" "parseState c1 = PS_SIGNATURE_1"
    "err (sspDataRecv c1) = SSP_BAD_SIGNATURE"
    using Cons.prems(1) nb
    by (simp_all add: c1_def Parse_byte_def Let_def ParseReset_def recv_err_def recv_header_def)
  from Cons.prems(2) have "SIG_1 \<notin> set bs" by simp
  from Cons.IH [OF pb(2) this, of "Suc n"] obtain c' where
    "Parse_loop c1 bs (Suc n) = (c', False, Suc n + length bs)"
    "parseState c' = PS_SIGNATURE_1"
    "err (sspDataRecv c') = (if bs = [] then err (sspDataRecv c1) else SSP_BAD_SIGNATURE)"
    by blast
  then show ?case
    using pb by (auto simp del: Parse_loop.simps simp add: Parse_loop.simps(2))
qed

lemma Parse_loop_scan_2:
  assumes "parseState c = PS_SIGNATURE_1" and "x \<noteq> SIG_1" and "x \<noteq> SIG_2"
    and "SIG_1 \<notin> set bs"
  shows "\<exists>c' m. Parse_loop c (SIG_1 # x # bs) n = (c', False, m)
            \<and> parseState c' = PS_SIGNATURE_1 \<and> err (sspDataRecv c') = SSP_BAD_SIGNATURE"
proof -
  define c1 where "c1 = fst (Parse_byte c SIG_1)"
  have p1: "Parse_byte c SIG_1 = (c1, False)" "parseState c1 = PS_SIGNATURE_2"
    using assms(1)
    by (simp_all add: c1_def Parse_byte_def Let_def ParseReset_def recv_err_def recv_header_def)
  define c2 where "c2 = fst (Parse_byte c1 x)"
  have p2: "Parse_byte c1 x = (c2, False)" "parseState c2 = PS_SIGNATURE_1"
    "err (sspDataRecv c2) = SSP_BAD_SIGNATURE"
    using p1(2) assms(2,3)
    by (simp_all add: c2_def Parse_byte_def Let_def ParseReset_def recv_err_def recv_header_def)
  from Parse_loop_scan [OF p2(2) assms(4), of "Suc (Suc n)"] obtain c' where
    "Parse_loop c2 bs (Suc (Suc n)) = (c', False, Suc (Suc n) + length bs)"
    "parseState c' = PS_SIGNATURE_1"
    "err (sspDataRecv c') = (if bs = [] then err (sspDataRecv c2) else SSP_BAD_SIGNATURE)"
    by blast
  then show ?thesis
    using p1 p2 by (auto simp del: Parse_loop.simps simp add: Parse_loop.simps(2))
qed

lemma Receive_loop_scanned:
  assumes "recvDataBuf (hal w) p = bs"
    and "Parse_loop (com w) bs n = (c', False, m)"
  shows "com (Receive_loop p True w) = c'"
proof -
  have rx: "recvDataBuf (hal w) p = bs @ []" using assms(1) by simp
  show ?thesis
    unfolding Receive_loop_prefix [OF rx assms(2)]
    by (simp add: Receive_loop_empty)
qed

text \<open>The pass that parses the history again, when the history holds no signature.\<close>

lemma Receive_loop_reparse:
  assumes st: "parseState (com w) = PS_SIGNATURE_1"
    and len: "length (parseHistory (recvStatics w)) = PARSE_HISTORY_SIZE"
    and ns: "SIG_1 \<notin> set (tl (parseHistory (recvStatics w)))"
  shows "\<exists>w1. Receive_loop p False w = Receive_loop p True w1
           \<and> parseState (com w1) = PS_SIGNATURE_1
           \<and> err (sspDataRecv (com w1)) = SSP_BAD_SIGNATURE
           \<and> recvDataBuf (hal w1) = recvDataBuf (hal w)"
proof -
  define h where "h = parseHistory (recvStatics w)"
  have l8: "length h = 8"
    using len by (simp add: h_def PARSE_HISTORY_SIZE_def HEADER_SIZE_def)
  have tk: "take (PARSE_HISTORY_SIZE - Suc 0) (drop (Suc 0) h) = tl h"
    using l8 by (simp add: PARSE_HISTORY_SIZE_def HEADER_SIZE_def drop_Suc)
  have big: "\<not> PARSE_HISTORY_SIZE \<le> Suc 0" "\<not> length h \<le> Suc 0"
    using l8 by (simp_all add: PARSE_HISTORY_SIZE_def HEADER_SIZE_def)
  have ne: "tl h \<noteq> []"
    using l8 by (cases h) auto
  from Parse_loop_scan [OF st, of "tl h" 0] ns obtain c' where
    pl: "Parse_loop (com w) (tl h) 0 = (c', False, 0 + length (tl h))"
      "parseState c' = PS_SIGNATURE_1" "err (sspDataRecv c') = SSP_BAD_SIGNATURE"
    using ne by (auto simp: h_def)
  obtain hh ix where sh: "save_history h 0 (tl h) = (hh, ix)"
    by (cases "save_history h 0 (tl h)")
  define w1 where "w1 = w\<lparr>recvStatics := (recvStatics w)\<lparr>parseHistoryIdx := 0\<rparr>,
      com := c', recvStatics := \<lparr>parseHistory = hh, parseHistoryIdx = ix\<rparr>\<rparr>"
  have rp: "Receive_pass p False w = (w1, Some True)"
    unfolding Receive_pass_def
    using pl(1,3) ne sh
    by (simp add: h_def [symmetric] tk big Parse_def Let_def w1_def
          del: save_history.simps)
  have "Receive_loop p False w = Receive_loop p True w1"
    by (subst Receive_loop.simps) (simp add: rp)
  moreover have "com w1 = c'" "recvDataBuf (hal w1) = recvDataBuf (hal w)"
    by (simp_all add: w1_def)
  ultimately show ?thesis
    using pl(2,3) by auto
qed

lemma saved_full:
  assumes "parseHistoryIdx st = PARSE_HISTORY_SIZE"
  shows "saved st bs = st"
  using assms by (cases bs) (simp_all add: saved_def)

lemma saved_fresh:
  assumes "length (parseHistory st) = PARSE_HISTORY_SIZE" and "parseHistoryIdx st = 0"
  shows "saved st [a1, a2, a3, a4, a5, a6, a7, a8] =
           \<lparr>parseHistory = [a1, a2, a3, a4, a5, a6, a7, a8], parseHistoryIdx = PARSE_HISTORY_SIZE\<rparr>"
proof -
  have "length (parseHistory st) = 8"
    using assms(1) by (simp add: PARSE_HISTORY_SIZE_def HEADER_SIZE_def)
  then obtain b1 b2 b3 b4 b5 b6 b7 b8 where h: "parseHistory st = [b1, b2, b3, b4, b5, b6, b7, b8]"
    by (auto simp: length_Suc_conv numeral_eq_Suc)
  show ?thesis
    using assms(2) by (simp add: saved_def h PARSE_HISTORY_SIZE_def HEADER_SIZE_def)
qed

lemma Receive_loop_header_flip:
  assumes st: "parseState (com w) = PS_SIGNATURE_1"
    and rx: "recvDataBuf (hal w) p = [SIG_1, SIG_2, a, b, c, e, f, g] @ rest"
    and ck: "g \<noteq> SIG_1 + SIG_2 + a + b + c + e + f"
    and len: "length (parseHistory (recvStatics w)) = PARSE_HISTORY_SIZE"
    and hist: "parseHistoryIdx (recvStatics w) = 0
               \<or> parseHistoryIdx (recvStatics w) = PARSE_HISTORY_SIZE
                 \<and> SIG_1 \<notin> set (tl (parseHistory (recvStatics w)))"
    and ns: "SIG_1 \<notin> set [SIG_2, a, b, c, e, f, g]" "SIG_1 \<notin> set rest"
  shows "err (sspDataRecv (com (Receive_loop p True w))) = SSP_BAD_SIGNATURE"
proof -
  define hf where "hf = [SIG_1, SIG_2, a, b, c, e, f, g]"
  define c' where "c' = (com w)\<lparr>sspDataRecv := (sspDataRecv (com w))\<lparr>err := SSP_BAD_HEADER_CHECKSUM,
               header := parsed_header a b c e f g\<rparr>,
           parseState := PS_SIGNATURE_1, parseBytes := 0\<rparr>"
  have pl: "Parse_loop (com w) hf 0 = (c', True, 0 + length hf)"
    unfolding hf_def Parse_loop_header [OF st]
    using ck by (simp add: Checksum7 c'_def)
  have c': "err (sspDataRecv c') = SSP_BAD_HEADER_CHECKSUM" "parseState c' = PS_SIGNATURE_1"
    by (simp_all add: c'_def)
  define st1 where "st1 = saved (recvStatics w) hf"
  have st1: "parseHistoryIdx st1 = PARSE_HISTORY_SIZE"
    "length (parseHistory st1) = PARSE_HISTORY_SIZE"
    "SIG_1 \<notin> set (tl (parseHistory st1))"
    using hist len ns(1)
    by (auto simp: st1_def hf_def saved_full saved_fresh PARSE_HISTORY_SIZE_def HEADER_SIZE_def)
  define w1 where "w1 = consumed p rest c' st1 w"
  have rx': "recvDataBuf (hal w) p = hf @ rest"
    using rx by (simp add: hf_def)
  have s1: "Receive_loop p True w = Receive_loop p False w1"
    unfolding w1_def st1_def
    by (rule Receive_loop_bad_header [OF rx' pl c'(1)]) (use st1(1) in \<open>simp add: st1_def\<close>)
  have w1: "parseState (com w1) = PS_SIGNATURE_1"
    "length (parseHistory (recvStatics w1)) = PARSE_HISTORY_SIZE"
    "SIG_1 \<notin> set (tl (parseHistory (recvStatics w1)))"
    "recvDataBuf (hal w1) p = rest"
    using c'(2) st1(2,3) by (simp_all add: w1_def)
  from Receive_loop_reparse [OF w1(1,2,3), of p] obtain w2 where w2:
    "Receive_loop p False w1 = Receive_loop p True w2"
    "parseState (com w2) = PS_SIGNATURE_1"
    "err (sspDataRecv (com w2)) = SSP_BAD_SIGNATURE"
    "recvDataBuf (hal w2) = recvDataBuf (hal w1)"
    by blast
  have rx2: "recvDataBuf (hal w2) p = rest"
    using w2(4) w1(4) by simp
  from Parse_loop_scan [OF w2(2) ns(2), of 0] obtain c2 where c2:
    "Parse_loop (com w2) rest 0 = (c2, False, 0 + length rest)"
    "err (sspDataRecv c2) = (if rest = [] then err (sspDataRecv (com w2)) else SSP_BAD_SIGNATURE)"
    by blast
  have "com (Receive_loop p True w2) = c2"
    by (rule Receive_loop_scanned [OF rx2 c2(1)])
  then show ?thesis
    using s1 w2(1,3) c2(2) by simp
qed

lemma flip_tail_parse:
  assumes wf: "wf_frame d" and idle: "idle_parser c"
    and dst: "unat (destId (header d)) < SSP_SOCKET_MAX"
      "socketToPortIdMap c (destId (header d)) \<noteq> SSP_INVALID_PORT"
    and i: "8 \<le> i" "i < length (serialize d)" and x: "x \<noteq> serialize d ! i"
  shows "\<exists>c'. Parse_loop c ((serialize d)[i := x]) 0
                 = (c', True, 0 + length ((serialize d)[i := x]))
            \<and> err (sspDataRecv c') = SSP_CORRUPTED_PACKET"
proof -
  define lo :: u8 where "lo = ucast (crc (fill_packet d))"
  define hi :: u8 where "hi = ucast (drop_bit 8 (crc (fill_packet d)))"
  define n where "n = length (body d)"
  have ser: "serialize d = wire_header d @ body d @ [lo, hi]"
    using serialize_split [OF wf] by (simp add: lo_def hi_def)
  have len: "length (serialize d) = 10 + n"
    by (simp add: ser n_def)
  have "length ((serialize d)[i := x]) = 10 + n"
    using len by simp
  then have ne: "(serialize d)[i := x] \<noteq> []"
    by auto
  consider (bdy) "i - 8 < n" | (lo) "i = 8 + n" | (hi) "i = 9 + n"
    using i len by linarith
  then have "\<exists>c'. Parse c ((serialize d)[i := x]) = (c', True, 10 + length (body d))
     \<and> err (sspDataRecv c') = SSP_CORRUPTED_PACKET"
  proof cases
    case bdy
    have upd: "(serialize d)[i := x] = wire_header d @ (body d)[i - 8 := x] @ [lo, hi]"
      using bdy i(1) by (simp add: ser list_update_append n_def)
    have nth: "serialize d ! i = body d ! (i - 8)"
      using bdy i(1) by (simp add: ser nth_append n_def)
    have xb: "x \<noteq> body d ! (i - 8)" using x nth by simp
    have j: "i - 8 < length (body d)" using bdy by (simp add: n_def)
    show ?thesis
      using body_flip [OF wf idle dst j xb] unfolding upd lo_def hi_def by blast
  next
    case lo
    have upd: "(serialize d)[i := x] = wire_header d @ body d @ [x, hi]"
      using lo by (simp add: ser list_update_append n_def)
    have nth: "serialize d ! i = lo"
      using lo by (simp add: ser nth_append n_def)
    have xl: "x \<noteq> ucast (crc (fill_packet d)) \<or> hi \<noteq> ucast (drop_bit 8 (crc (fill_packet d)))"
      using x nth by (simp add: lo_def)
    show ?thesis
      using trailer_flip [OF wf idle dst xl] unfolding upd by blast
  next
    case hi
    have upd: "(serialize d)[i := x] = wire_header d @ body d @ [lo, x]"
      using hi by (simp add: ser list_update_append n_def)
    have nth: "serialize d ! i = hi"
      using hi by (simp add: ser nth_append n_def)
    have xh: "lo \<noteq> ucast (crc (fill_packet d)) \<or> x \<noteq> ucast (drop_bit 8 (crc (fill_packet d)))"
      using x nth by (simp add: hi_def)
    show ?thesis
      using trailer_flip [OF wf idle dst xh] unfolding upd by blast
  qed
  then show ?thesis
    using ne len by (simp add: Parse_def n_def)
qed

text \<open>
  C5, as the code has it. Take a well-formed block whose destination socket is in range and
  bound at the receiver, its bytes as \<^verbatim>\<open>SSPCOM_Send\<close> emits them with one bit flipped, and
  a receiver with an open port, an empty receive queue and a parser that waits for a
  signature. When the flip is in the body or in the CRC, \<^verbatim>\<open>SSPCOM_ProcessReceive\<close> returns
  \<^verbatim>\<open>SSP_CORRUPTED_PACKET\<close>. When it is in the signature or in the header, the receiver
  gives the frame up and searches what follows for a signature: if no byte after the first
  of the flipped sequence is \<^verbatim>\<open>SIG_1\<close>, and the header history is empty, or full with no
  \<^verbatim>\<open>SIG_1\<close> after its first byte, it finds none and \<^verbatim>\<open>SSPCOM_ProcessReceive\<close> returns
  \<^verbatim>\<open>SSP_BAD_SIGNATURE\<close>. The body case rests on the CRC-16 modelled from the
  specification, which tells apart two blocks that differ in one byte.
\<close>

theorem single_bit_flip_detected:
  assumes wf: "wf_frame d"
    and dst: "unat (destId (header d)) < SSP_SOCKET_MAX"
      "socketToPortIdMap (com w) (destId (header d)) \<noteq> SSP_INVALID_PORT"
    and idle: "idle_parser (com w)"
    and op: "portIsOpen (hal w) p" and rx: "recvDataBuf (hal w) p = []"
    and i: "i < length (serialize d)" and k: "k < 8"
    and bytes: "bytes = (serialize d)[i := serialize d ! i XOR push_bit k 1]"
  shows "(HEADER_SIZE \<le> i \<longrightarrow>
            fst (SSPCOM_ProcessReceive p (feed p bytes w)) = SSP_CORRUPTED_PACKET)
     \<and> (i < HEADER_SIZE \<and> SIG_1 \<notin> set (tl bytes)
          \<and> length (parseHistory (recvStatics w)) = PARSE_HISTORY_SIZE
          \<and> (parseHistoryIdx (recvStatics w) = 0
              \<or> parseHistoryIdx (recvStatics w) = PARSE_HISTORY_SIZE
                \<and> SIG_1 \<notin> set (tl (parseHistory (recvStatics w))))
        \<longrightarrow> fst (SSPCOM_ProcessReceive p (feed p bytes w)) = SSP_BAD_SIGNATURE)"
proof -
  define x where "x = serialize d ! i XOR push_bit k 1"
  have x: "x \<noteq> serialize d ! i"
    unfolding x_def by (rule flip_differs [OF k])
  have bx: "bytes = (serialize d)[i := x]"
    by (simp add: bytes x_def)
  define w0 where "w0 = feed p bytes w"
  have w0: "com w0 = com w" "recvStatics w0 = recvStatics w" "recvDataBuf (hal w0) p = bytes"
    "portIsOpen (hal w0) = portIsOpen (hal w)"
    using rx by (simp_all add: w0_def feed_def)
  have res: "fst (SSPCOM_ProcessReceive p w0) = err (sspDataRecv (com (Receive_loop p True w0)))"
    using op by (simp add: SSPCOM_ProcessReceive_def SSPCOM_IsPortOpen_def Receive_def w0(4) Let_def)
  have st: "parseState (com w0) = PS_SIGNATURE_1"
    using idle by (simp add: idle_parser_def w0(1))
  define rest where "rest = body d @ [ucast (crc (fill_packet d)), ucast (drop_bit 8 (crc (fill_packet d)))]"
  have ser: "serialize d =
     [SIG_1, SIG_2, destId (header d), srcId (header d), type (header d), bodySize (header d),
      transId (header d),
      SIG_1 + SIG_2 + destId (header d) + srcId (header d) + type (header d)
        + bodySize (header d) + transId (header d)] @ rest"
    using serialize_bytes [OF wf] by (simp add: rest_def Checksum7)
  have tail: "fst (SSPCOM_ProcessReceive p w0) = SSP_CORRUPTED_PACKET" if "8 \<le> i"
  proof -
    from flip_tail_parse [OF wf idle dst that i x] obtain c' where c':
      "Parse_loop (com w0) bytes 0 = (c', True, 0 + length bytes)"
      "err (sspDataRecv c') = SSP_CORRUPTED_PACKET"
      unfolding bx w0(1) by blast
    have rx0: "recvDataBuf (hal w0) p = bytes @ []" using w0(3) by simp
    have ne: "err (sspDataRecv c') \<noteq> SSP_BAD_HEADER_CHECKSUM" using c'(2) by simp
    show ?thesis
      unfolding res Receive_loop_bytes [OF rx0 c'(1) ne] using c'(2) by simp
  qed
  have head: "fst (SSPCOM_ProcessReceive p w0) = SSP_BAD_SIGNATURE"
    if lt: "i < 8" and ns: "SIG_1 \<notin> set (tl bytes)"
      and len: "length (parseHistory (recvStatics w)) = PARSE_HISTORY_SIZE"
      and hist: "parseHistoryIdx (recvStatics w) = 0
              \<or> parseHistoryIdx (recvStatics w) = PARSE_HISTORY_SIZE
                \<and> SIG_1 \<notin> set (tl (parseHistory (recvStatics w)))"
  proof -
    have len0: "length (parseHistory (recvStatics w0)) = PARSE_HISTORY_SIZE"
      using len by (simp add: w0(2))
    have hist0: "parseHistoryIdx (recvStatics w0) = 0
              \<or> parseHistoryIdx (recvStatics w0) = PARSE_HISTORY_SIZE
                \<and> SIG_1 \<notin> set (tl (parseHistory (recvStatics w0)))"
      using hist by (simp add: w0(2))
    have hdr_case: "fst (SSPCOM_ProcessReceive p w0) = SSP_BAD_SIGNATURE"
      if "bytes = [SIG_1, SIG_2, a, b, c, e, f, g] @ rest"
        and "g \<noteq> SIG_1 + SIG_2 + a + b + c + e + f" for a b c e f g
    proof -
      have rx1: "recvDataBuf (hal w0) p = [SIG_1, SIG_2, a, b, c, e, f, g] @ rest"
        using w0(3) that(1) by simp
      have n1: "SIG_1 \<notin> set [SIG_2, a, b, c, e, f, g]" "SIG_1 \<notin> set rest"
        using ns unfolding that(1) by auto
      show ?thesis
        unfolding res by (rule Receive_loop_header_flip [OF st rx1 that(2) len0 hist0 n1])
    qed
    define D where "D = destId (header d)"
    define S where "S = srcId (header d)"
    define T where "T = type (header d)"
    define Z where "Z = bodySize (header d)"
    define R where "R = transId (header d)"
    have ser': "serialize d = [SIG_1, SIG_2, D, S, T, Z, R, SIG_1 + SIG_2 + D + S + T + Z + R] @ rest"
      using ser by (simp add: D_def S_def T_def Z_def R_def)
    from lt consider (sig0) "i = 0" | (sig1) "i = 1" | (dstb) "i = 2" | (srcb) "i = 3"
      | (kind) "i = 4" | (siz) "i = 5" | (trn) "i = 6" | (chk) "i = 7"
      by linarith
    then show ?thesis
    proof cases
      case sig0
      have b: "bytes = x # tl (serialize d)" and nx: "x \<noteq> SIG_1"
        using x sig0 by (simp_all add: bx ser)
      have "SIG_1 \<notin> set bytes"
        using ns nx unfolding b by auto
      from Parse_loop_scan [OF st this, of 0] obtain c' where
        "Parse_loop (com w0) bytes 0 = (c', False, 0 + length bytes)"
        "err (sspDataRecv c') = (if bytes = [] then err (sspDataRecv (com w0)) else SSP_BAD_SIGNATURE)"
        by blast
      then show ?thesis
        unfolding res using Receive_loop_scanned [OF w0(3), of 0 c'] b by simp
    next
      case sig1
      have b: "bytes = SIG_1 # x # drop 2 (serialize d)" and nx: "x \<noteq> SIG_2"
        using x sig1 by (simp_all add: bx ser)
      have n1: "x \<noteq> SIG_1" "SIG_1 \<notin> set (drop 2 (serialize d))"
        using ns unfolding b by auto
      from Parse_loop_scan_2 [OF st n1(1) nx n1(2), of 0] obtain c' m where
        "Parse_loop (com w0) bytes 0 = (c', False, m)"
        "err (sspDataRecv c') = SSP_BAD_SIGNATURE"
        unfolding b by blast
      then show ?thesis
        unfolding res using Receive_loop_scanned [OF w0(3), of 0 c' m] by simp
    next
      case dstb
      have "x \<noteq> D" using x dstb by (simp add: ser')
      then have "SIG_1 + SIG_2 + D + S + T + Z + R \<noteq> SIG_1 + SIG_2 + x + S + T + Z + R"
        by simp
      then have ck: "SIG_1 + SIG_2 + D + S + T + Z + R \<noteq> SIG_1 + SIG_2 + x + S + T + Z + R" .
      have "bytes = [SIG_1, SIG_2, x, S, T, Z, R, SIG_1 + SIG_2 + D + S + T + Z + R] @ rest"
        using dstb by (simp add: bx ser')
      then show ?thesis
        using ck by (rule hdr_case)
    next
      case srcb
      have "x \<noteq> S" using x srcb by (simp add: ser')
      then have "SIG_1 + SIG_2 + D + S + T + Z + R \<noteq> SIG_1 + SIG_2 + D + x + T + Z + R"
        by simp
      then have ck: "SIG_1 + SIG_2 + D + S + T + Z + R \<noteq> SIG_1 + SIG_2 + D + x + T + Z + R" .
      have "bytes = [SIG_1, SIG_2, D, x, T, Z, R, SIG_1 + SIG_2 + D + S + T + Z + R] @ rest"
        using srcb by (simp add: bx ser')
      then show ?thesis
        using ck by (rule hdr_case)
    next
      case kind
      have "x \<noteq> T" using x kind by (simp add: ser')
      then have "SIG_1 + SIG_2 + D + S + T + Z + R \<noteq> SIG_1 + SIG_2 + D + S + x + Z + R"
        by simp
      then have ck: "SIG_1 + SIG_2 + D + S + T + Z + R \<noteq> SIG_1 + SIG_2 + D + S + x + Z + R" .
      have "bytes = [SIG_1, SIG_2, D, S, x, Z, R, SIG_1 + SIG_2 + D + S + T + Z + R] @ rest"
        using kind by (simp add: bx ser')
      then show ?thesis
        using ck by (rule hdr_case)
    next
      case siz
      have "x \<noteq> Z" using x siz by (simp add: ser')
      then have "SIG_1 + SIG_2 + D + S + T + Z + R \<noteq> SIG_1 + SIG_2 + D + S + T + x + R"
        by simp
      then have ck: "SIG_1 + SIG_2 + D + S + T + Z + R \<noteq> SIG_1 + SIG_2 + D + S + T + x + R" .
      have "bytes = [SIG_1, SIG_2, D, S, T, x, R, SIG_1 + SIG_2 + D + S + T + Z + R] @ rest"
        using siz by (simp add: bx ser')
      then show ?thesis
        using ck by (rule hdr_case)
    next
      case trn
      have "x \<noteq> R" using x trn by (simp add: ser')
      then have "SIG_1 + SIG_2 + D + S + T + Z + R \<noteq> SIG_1 + SIG_2 + D + S + T + Z + x"
        by simp
      then have ck: "SIG_1 + SIG_2 + D + S + T + Z + R \<noteq> SIG_1 + SIG_2 + D + S + T + Z + x" .
      have "bytes = [SIG_1, SIG_2, D, S, T, Z, x, SIG_1 + SIG_2 + D + S + T + Z + R] @ rest"
        using trn by (simp add: bx ser')
      then show ?thesis
        using ck by (rule hdr_case)
    next
      case chk
      have "x \<noteq> SIG_1 + SIG_2 + D + S + T + Z + R" using x chk by (simp add: ser')
      then have ck: "x \<noteq> SIG_1 + SIG_2 + D + S + T + Z + R" .
      have "bytes = [SIG_1, SIG_2, D, S, T, Z, R, x] @ rest"
        using chk by (simp add: bx ser')
      then show ?thesis
        using ck by (rule hdr_case)
    qed
  qed
  show ?thesis
    using tail head by (simp add: w0_def HEADER_SIZE_def)
qed

text \<open>A frame from socket 0 to socket 1 with transaction identifier 5 and the payload "AB".\<close>

lemma sample_bytes:
  "serialize (data_frame 0 1 5 [0x41, 0x42]) = [190, 239, 1, 0, 0, 2, 5, 181, 65, 66, 135, 150]"
  by (simp add: serialize_data_frame crc_eval)

theorem single_bit_flip_detected_witness:
  "wf_frame (data_frame 0 1 5 [0x41, 0x42])
   \<and> unat (destId (header (data_frame 0 1 5 [0x41, 0x42]))) < SSP_SOCKET_MAX
   \<and> socketToPortIdMap (com two_sockets) (destId (header (data_frame 0 1 5 [0x41, 0x42])))
        \<noteq> SSP_INVALID_PORT
   \<and> idle_parser (com two_sockets) \<and> portIsOpen (hal two_sockets) SSP_PORT1
   \<and> recvDataBuf (hal two_sockets) SSP_PORT1 = []
   \<and> length (parseHistory (recvStatics two_sockets)) = PARSE_HISTORY_SIZE
   \<and> parseHistoryIdx (recvStatics two_sockets) = 0
   \<and> (serialize (data_frame 0 1 5 [0x41, 0x42]))
        [9 := serialize (data_frame 0 1 5 [0x41, 0x42]) ! 9 XOR push_bit 3 1]
      = [190, 239, 1, 0, 0, 2, 5, 181, 65, 74, 135, 150]
   \<and> fst (SSPCOM_ProcessReceive SSP_PORT1
        (feed SSP_PORT1 [190, 239, 1, 0, 0, 2, 5, 181, 65, 74, 135, 150] two_sockets))
      = SSP_CORRUPTED_PACKET
   \<and> (serialize (data_frame 0 1 5 [0x41, 0x42]))
        [3 := serialize (data_frame 0 1 5 [0x41, 0x42]) ! 3 XOR push_bit 0 1]
      = [190, 239, 1, 1, 0, 2, 5, 181, 65, 66, 135, 150]
   \<and> SIG_1 \<notin> set (tl [190, 239, 1, 1, 0, 2, 5, 181, 65, 66, 135, 150])
   \<and> fst (SSPCOM_ProcessReceive SSP_PORT1
        (feed SSP_PORT1 [190, 239, 1, 1, 0, 2, 5, 181, 65, 66, 135, 150] two_sockets))
      = SSP_BAD_SIGNATURE"
proof -
  have h1: "wf_frame (data_frame 0 1 5 [0x41, 0x42])"
    by (rule wf_data_frame) (simp add: crc_eval)
  have h2: "unat (destId (header (data_frame 0 1 5 [0x41, 0x42]))) < SSP_SOCKET_MAX"
    by code_simp
  have h3: "socketToPortIdMap (com two_sockets)
      (destId (header (data_frame 0 1 5 [0x41, 0x42]))) \<noteq> SSP_INVALID_PORT" by code_simp
  have h4: "idle_parser (com two_sockets)" by code_simp
  have h5: "portIsOpen (hal two_sockets) SSP_PORT1" by code_simp
  have h6: "recvDataBuf (hal two_sockets) SSP_PORT1 = []" by code_simp
  have h7: "length (parseHistory (recvStatics two_sockets)) = PARSE_HISTORY_SIZE" by code_simp
  have h8: "parseHistoryIdx (recvStatics two_sockets) = 0" by code_simp
  have i9: "9 < length (serialize (data_frame 0 1 5 [0x41, 0x42]))"
    and i3: "3 < length (serialize (data_frame 0 1 5 [0x41, 0x42]))"
    unfolding sample_bytes by simp_all
  have k3: "(3 :: nat) < 8" and k0: "(0 :: nat) < 8" by simp_all
  have b9: "[190, 239, 1, 0, 0, 2, 5, 181, 65, 74, 135, 150]
      = (serialize (data_frame 0 1 5 [0x41, 0x42]))
          [9 := serialize (data_frame 0 1 5 [0x41, 0x42]) ! 9 XOR push_bit 3 1]"
    unfolding sample_bytes by simp
  have b3: "[190, 239, 1, 1, 0, 2, 5, 181, 65, 66, 135, 150]
      = (serialize (data_frame 0 1 5 [0x41, 0x42]))
          [3 := serialize (data_frame 0 1 5 [0x41, 0x42]) ! 3 XOR push_bit 0 1]"
    unfolding sample_bytes by simp
  have n3: "SIG_1 \<notin> set (tl [190, 239, 1, 1, 0, 2, 5, 181, 65, 66, 135, 150])"
    by (simp add: SIG_1_def)
  have s9: "HEADER_SIZE \<le> (9 :: nat)" and s3: "(3 :: nat) < HEADER_SIZE"
    by (simp_all add: HEADER_SIZE_def)
  have a: "fst (SSPCOM_ProcessReceive SSP_PORT1
        (feed SSP_PORT1 [190, 239, 1, 0, 0, 2, 5, 181, 65, 74, 135, 150] two_sockets))
      = SSP_CORRUPTED_PACKET"
    using single_bit_flip_detected [OF h1 h2 h3 h4 h5 h6 i9 k3 b9] s9 by blast
  have b: "fst (SSPCOM_ProcessReceive SSP_PORT1
        (feed SSP_PORT1 [190, 239, 1, 1, 0, 2, 5, 181, 65, 66, 135, 150] two_sockets))
      = SSP_BAD_SIGNATURE"
    using single_bit_flip_detected [OF h1 h2 h3 h4 h5 h6 i3 k0 b3] s3 n3 h7 h8 by blast
  show ?thesis
    using h1 h2 h3 h4 h5 h6 h7 h8 b9 [symmetric] b3 [symmetric] n3 a b by blast
qed

text \<open>
  The claim as stated fails, and so does a reading that spares the signature: the result
  can be \<^verbatim>\<open>SSP_SUCCESS\<close>. After a flip in the signature or in the header the receiver
  gives the frame up and looks for a signature in the bytes that follow. Here the payload
  of the frame is itself the encoding of an empty frame with transaction identifier 7.
  With the lowest bit of the first signature byte flipped, and with the lowest bit of the
  transaction identifier flipped, the receiver accepts the inner frame.
\<close>

definition tunnelled :: SspData where
  "tunnelled = data_frame 0 1 8 (serialize (data_frame 0 1 7 []))"

lemma inner_bytes: "serialize (data_frame 0 1 7 []) = [190, 239, 1, 0, 0, 0, 7, 181, 22, 107]"
  by (simp add: serialize_data_frame crc_eval)

lemma tunnelled_bytes:
  "serialize tunnelled =
     [190, 239, 1, 0, 0, 10, 8, 192, 190, 239, 1, 0, 0, 0, 7, 181, 22, 107, 253, 172]"
  unfolding tunnelled_def inner_bytes
  by (simp add: serialize_data_frame crc_eval)

theorem single_bit_flip_detected_counterexample:
  "wf_frame tunnelled
   \<and> fst (SSPCOM_ProcessReceive SSP_PORT1
         (feed SSP_PORT1 ((serialize tunnelled)[0 := serialize tunnelled ! 0 XOR push_bit 0 1])
            two_sockets)) = SSP_SUCCESS
   \<and> fst (SSPCOM_ProcessReceive SSP_PORT1
         (feed SSP_PORT1 ((serialize tunnelled)[6 := serialize tunnelled ! 6 XOR push_bit 0 1])
            two_sockets)) = SSP_SUCCESS"
proof -
  have wf: "wf_frame tunnelled"
    unfolding tunnelled_def inner_bytes
    by (rule wf_data_frame) (simp add: crc_eval)
  have b0: "(serialize tunnelled)[0 := serialize tunnelled ! 0 XOR push_bit 0 1] =
     [191, 239, 1, 0, 0, 10, 8, 192, 190, 239, 1, 0, 0, 0, 7, 181, 22, 107, 253, 172]"
    unfolding tunnelled_bytes by simp
  have b6: "(serialize tunnelled)[6 := serialize tunnelled ! 6 XOR push_bit 0 1] =
     [190, 239, 1, 0, 0, 10, 9, 192, 190, 239, 1, 0, 0, 0, 7, 181, 22, 107, 253, 172]"
    unfolding tunnelled_bytes by simp
  have r0: "fst (SSPCOM_ProcessReceive SSP_PORT1
         (feed SSP_PORT1
            [191, 239, 1, 0, 0, 10, 8, 192, 190, 239, 1, 0, 0, 0, 7, 181, 22, 107, 253, 172]
            two_sockets)) = SSP_SUCCESS"
    by code_simp
  have r6: "fst (SSPCOM_ProcessReceive SSP_PORT1
         (feed SSP_PORT1
            [190, 239, 1, 0, 0, 10, 9, 192, 190, 239, 1, 0, 0, 0, 7, 181, 22, 107, 253, 172]
            two_sockets)) = SSP_SUCCESS"
    by code_simp
  show ?thesis
    unfolding b0 b6 using wf r0 r6 by simp
qed


section \<open>Resynchronisation after a bad header checksum\<close>

text \<open>A valid encoding: the frame from socket 0 to socket 1 with the payload "hi" and a zero byte.\<close>

definition message :: "u8 list" where
  "message = serialize (data_frame 0 1 0 [0x68, 0x69, 0])"

lemma message_bytes: "message = [190, 239, 1, 0, 0, 3, 0, 177, 104, 105, 0, 213, 187]"
  by (simp add: message_def serialize_data_frame crc_eval)

text \<open>
  C6 at the prefix 00 BE EF. The signature pair in the prefix is followed by
  BE EF 01 00 00 03, which is not a valid header: its checksum fails. The message alone is
  received with \<^verbatim>\<open>SSP_SUCCESS\<close>. With the prefix in front, the history holds the first
  eight bytes read, which start one byte before the signature pair, so the byte that failed
  the checksum is not in it and is lost when the history is re-parsed; the receive loop
  consumes every byte, ends with \<^verbatim>\<open>SSP_BAD_SIGNATURE\<close> and never delivers the message.
\<close>

theorem resync_loses_message:
  "err (sspDataRecv (fst (Parse (com two_sockets) [0xBE, 0xEF, 0xBE, 0xEF, 1, 0, 0, 3])))
       = SSP_BAD_HEADER_CHECKSUM
   \<and> fst (SSPCOM_ProcessReceive SSP_PORT1 (feed SSP_PORT1 message two_sockets)) = SSP_SUCCESS
   \<and> fst (SSPCOM_ProcessReceive SSP_PORT1
          (feed SSP_PORT1 ([0x00, 0xBE, 0xEF] @ message) two_sockets)) = SSP_BAD_SIGNATURE
   \<and> recvDataBuf (hal (snd (snd (SSPCOM_ProcessReceive SSP_PORT1
          (feed SSP_PORT1 ([0x00, 0xBE, 0xEF] @ message) two_sockets))))) SSP_PORT1 = []"
  unfolding message_bytes
  by code_simp

section \<open>Receiving a data frame\<close>

text \<open>The state after \<^verbatim>\<open>SSPCOM_ProcessReceive\<close> has taken one whole frame from a port.\<close>

definition frame_taken :: "SspPortId \<Rightarrow> SspData \<Rightarrow> World \<Rightarrow> World" where
  "frame_taken p d w =
     consumed p []
       ((com w)\<lparr>currentFooter := crc (fill_packet d),
                sspDataRecv := accepted (sspDataRecv (com w)) d,
                parseState := PS_SIGNATURE_1, parseBytes := 0\<rparr>)
       (saved (recvStatics w) (serialize d)) w"

lemma SSPCOM_ProcessReceive_frame:
  assumes wf: "wf_frame d"
    and dst: "unat (destId (header d)) < SSP_SOCKET_MAX"
      "socketToPortIdMap (com w) (destId (header d)) \<noteq> SSP_INVALID_PORT"
    and idle: "idle_parser (com w)" and op: "portIsOpen (hal w) p"
    and rx: "recvDataBuf (hal w) p = serialize d"
  shows "SSPCOM_ProcessReceive p w =
     (SSP_SUCCESS, Some (accepted (sspDataRecv (com w)) d), frame_taken p d w)"
proof -
  have rx': "recvDataBuf (hal w) p = serialize d @ []" using rx by simp
  show ?thesis
    using op Receive_frame [OF wf dst idle rx']
    by (simp add: SSPCOM_ProcessReceive_def SSPCOM_IsPortOpen_def Receive_def Let_def
          frame_taken_def accepted_def)
qed

lemma frame_taken_fields [simp]:
  "events (frame_taken p d w) = events w"
  "ssp (frame_taken p d w) = ssp w"
  "socketToPortIdMap (com (frame_taken p d w)) = socketToPortIdMap (com w)"
  "portIsOpen (hal (frame_taken p d w)) = portIsOpen (hal w)"
  "portSendOk (hal (frame_taken p d w)) = portSendOk (hal w)"
  "recvDataBuf (hal (frame_taken p d w)) p = []"
  "sspDataRecv (com (frame_taken p d w)) = accepted (sspDataRecv (com w)) d"
  "tick (frame_taken p d w) = tick w"
  by (simp_all add: frame_taken_def consumed_def)


text \<open>The block \<^verbatim>\<open>SendAck\<close> and \<^verbatim>\<open>SendNak\<close> send does not depend on what it held before.\<close>

lemma wf_ack_nak_block:
  assumes "wf_frame b" and "body b = []"
  shows "wf_frame (ack_nak_block t h b)" and "body (ack_nak_block t h b) = []"
  using assms by (simp_all add: wf_frame_def ack_nak_block_def)

lemma wf_fill_packet:
  assumes "wf_frame b"
  shows "wf_frame (fill_packet b)"
  using assms by (simp add: wf_frame_def fill_packet_def Let_def)

lemma body_fill_packet [simp]: "body (fill_packet b) = body b"
  by (simp add: fill_packet_def Let_def)

definition ack_nak_bytes :: "u8 \<Rightarrow> SspPacketHeader \<Rightarrow> u8 list" where
  "ack_nak_bytes t h =
     (let hb = [SIG_1, SIG_2, srcId h, destId h, t, 0, transId h,
                SIG_1 + SIG_2 + srcId h + destId h + t + 0 + transId h];
          c = Crc16CalcBlock hb 0xFFFF
      in hb @ [ucast c, ucast (drop_bit 8 c)])"

lemma serialize_ack_nak:
  assumes "wf_frame b" and "body b = []"
  shows "serialize (ack_nak_block t h b) = ack_nak_bytes t h"
proof -
  have wf: "wf_frame (ack_nak_block t h b)"
    using assms by (rule wf_ack_nak_block)
  have bd: "body (ack_nak_block t h b) = []"
    using assms by (rule wf_ack_nak_block)
  have hb: "header_bytes (header (fill_packet (ack_nak_block t h b))) =
     [SIG_1, SIG_2, srcId h, destId h, t, 0, transId h,
      SIG_1 + SIG_2 + srcId h + destId h + t + 0 + transId h]"
    by (simp add: header_fill_packet parsed_header_def header_bytes_def ack_nak_block_def Checksum7)
  show ?thesis
    using serialize_split [OF wf] crc_fill_packet [OF wf]
    by (simp add: wire_header_def hb bd ack_nak_bytes_def Let_def)
qed

lemma SendAckNak:
  assumes blk: "sspDataForAckNak (ssp w) = Some b" "wf_frame b" "body b = []"
    and prt: "SSPCOM_GetPortId (destId h) w = Inr p" "portIsOpen (hal w) p" "portSendOk (hal w)"
  shows "SendAck h w =
           w\<lparr>events := events w @ [PortSend p (ack_nak_bytes MSG_TYPE_ACK h)],
             ssp := (ssp w)\<lparr>sspDataForAckNak := Some (fill_packet (ack_nak_block MSG_TYPE_ACK h b))\<rparr>\<rparr>"
    and "SendNak h w =
           w\<lparr>events := events w @ [PortSend p (ack_nak_bytes MSG_TYPE_NAK h)],
             ssp := (ssp w)\<lparr>sspDataForAckNak := Some (fill_packet (ack_nak_block MSG_TYPE_NAK h b))\<rparr>\<rparr>"
proof -
  have s: "SSPCOM_Send (ack_nak_block t h b) w =
     (SSP_SUCCESS, fill_packet (ack_nak_block t h b),
      w\<lparr>events := events w @ [PortSend p (ack_nak_bytes t h)]\<rparr>)" for t
  proof -
    have src: "srcId (header (ack_nak_block t h b)) = destId h"
      by (simp add: ack_nak_block_def)
    show ?thesis
      using SSPCOM_Send_ok [of "ack_nak_block t h b" w p] prt blk
      by (simp add: src wf_ack_nak_block serialize_ack_nak)
  qed
  show "SendAck h w =
           w\<lparr>events := events w @ [PortSend p (ack_nak_bytes MSG_TYPE_ACK h)],
             ssp := (ssp w)\<lparr>sspDataForAckNak := Some (fill_packet (ack_nak_block MSG_TYPE_ACK h b))\<rparr>\<rparr>"
    using blk(1) by (simp add: SendAck_def s)
  show "SendNak h w =
           w\<lparr>events := events w @ [PortSend p (ack_nak_bytes MSG_TYPE_NAK h)],
             ssp := (ssp w)\<lparr>sspDataForAckNak := Some (fill_packet (ack_nak_block MSG_TYPE_NAK h b))\<rparr>\<rparr>"
    using blk(1) by (simp add: SendNak_def s)
qed

lemma events_timeouts [simp]: "events (ProcessReceive_timeouts p w) = events w"
  by (simp add: ProcessReceive_timeouts_def set_queue_def)

lemma ack_nak_bytes_fill [simp]: "ack_nak_bytes t (header (fill_packet d)) = ack_nak_bytes t (header d)"
  by (simp add: ack_nak_bytes_def header_fill_packet parsed_header_def)

lemma GetPortId_frame_taken [simp]:
  "SSPCOM_GetPortId s (frame_taken p d w) = SSPCOM_GetPortId s w"
  by (simp add: SSPCOM_GetPortId_def)

lemma serialize_nonempty: "wf_frame d \<Longrightarrow> serialize d \<noteq> []"
  using serialize_split [of d] by simp

lemma SSPCOM_ProcessReceive_unbound:
  assumes wf: "wf_frame d"
    and dst: "\<forall>q. SSPCOM_GetPortId (destId (header d)) w \<noteq> Inr q"
    and idle: "idle_parser (com w)" and op: "portIsOpen (hal w) p"
    and rx: "recvDataBuf (hal w) p = serialize d"
  shows "\<exists>e r w1. SSPCOM_ProcessReceive p w = (e, r, w1)
           \<and> (e = SSP_BAD_SOCKET_ID \<or> e = SSP_SOCKET_NOT_OPEN)
           \<and> events w1 = events w \<and> ssp w1 = ssp w"
proof -
  define lo :: u8 where "lo = ucast (crc (fill_packet d))"
  define hi :: u8 where "hi = ucast (drop_bit 8 (crc (fill_packet d)))"
  have ser: "serialize d = wire_header d @ body d @ [lo, hi]"
    using serialize_split [OF wf] by (simp add: lo_def hi_def)
  have len: "length (serialize d) = 10 + length (body d)"
    by (simp add: ser)
  define c' where "c' = footer_result (after_body (com w) d) lo hi"
  have d1: "destId (header (sspDataRecv (after_body (com w) d))) = destId (header d)"
    by (simp add: after_body_def header_fill_packet parsed_header_def)
  have m: "socketToPortIdMap (after_body (com w) d) = socketToPortIdMap (com w)"
    by (simp add: after_body_def)
  have un: "unat (destId (header d)) \<ge> SSP_SOCKET_MAX
        \<or> socketToPortIdMap (com w) (destId (header d)) = SSP_INVALID_PORT"
    using dst by (auto simp: SSPCOM_GetPortId_def split: if_splits)
  have e: "err (sspDataRecv c') = SSP_BAD_SOCKET_ID \<or> err (sspDataRecv c') = SSP_SOCKET_NOT_OPEN"
    using un by (auto simp: c'_def footer_result_def Let_def d1 m)
  have pl: "Parse_loop (com w) (serialize d) 0 = (c', True, 0 + length (serialize d))"
    unfolding len using Parse_loop_frame [OF wf idle, of lo hi] by (simp add: ser c'_def)
  have ne: "err (sspDataRecv c') \<noteq> SSP_BAD_HEADER_CHECKSUM"
    using e by auto
  have rx': "recvDataBuf (hal w) p = serialize d @ []" using rx by simp
  have "Receive_loop p True w = consumed p [] c' (saved (recvStatics w) (serialize d)) w"
    by (rule Receive_loop_bytes [OF rx' pl ne])
  then show ?thesis
    using op e
    by (auto simp: SSPCOM_ProcessReceive_def SSPCOM_IsPortOpen_def Receive_def Let_def)
qed

text \<open>
  C3, as the code has it. A data frame arrives whole on an open port whose parser waits for
  a signature, addressed to a socket without a listener; the block for ACK and NAK exists
  (\<^verbatim>\<open>SSP_Init\<close> has run). If the destination socket is bound to an open port whose
  transport accepts the send, \<^verbatim>\<open>ProcessReceive\<close> adds exactly one event: the NAK frame
  (type 2, empty body, source and destination swapped, same transaction identifier) handed
  to that port; no listener is called. If the destination socket is not bound to a port, or
  out of range, the parser reports \<^verbatim>\<open>SSP_SOCKET_NOT_OPEN\<close> or \<^verbatim>\<open>SSP_BAD_SOCKET_ID\<close> and
  \<^verbatim>\<open>ProcessReceive\<close> adds no event: no NAK and no listener call.
\<close>

theorem data_without_listener:
  assumes wf: "wf_frame d" and ty: "type (header d) = MSG_TYPE_DATA"
    and idle: "idle_parser (com w)" and op: "portIsOpen (hal w) portId"
    and rx: "recvDataBuf (hal w) portId = serialize d"
    and nol: "socketToCallbackMap (ssp w) (destId (header d)) = None"
    and blk: "sspDataForAckNak (ssp w) = Some b" "wf_frame b" "body b = []"
  shows "(\<forall>p. SSPCOM_GetPortId (destId (header d)) w = Inr p \<and> portIsOpen (hal w) p
              \<and> portSendOk (hal w) \<longrightarrow>
            events (ProcessReceive portId w)
              = events w @ [PortSend p (ack_nak_bytes MSG_TYPE_NAK (header d))])
       \<and> ((\<forall>p. SSPCOM_GetPortId (destId (header d)) w \<noteq> Inr p) \<longrightarrow>
            events (ProcessReceive portId w) = events w
            \<and> (fst (SSPCOM_ProcessReceive portId w) = SSP_BAD_SOCKET_ID
                \<or> fst (SSPCOM_ProcessReceive portId w) = SSP_SOCKET_NOT_OPEN))"
proof -
  have bound: "events (ProcessReceive portId w)
          = events w @ [PortSend p (ack_nak_bytes MSG_TYPE_NAK (header d))]"
    if a: "SSPCOM_GetPortId (destId (header d)) w = Inr p \<and> portIsOpen (hal w) p
              \<and> portSendOk (hal w)" for p
  proof -
    from a have dst: "unat (destId (header d)) < SSP_SOCKET_MAX"
      "socketToPortIdMap (com w) (destId (header d)) \<noteq> SSP_INVALID_PORT"
      by (auto simp: SSPCOM_GetPortId_def split: if_splits)
    define r where "r = accepted (sspDataRecv (com w)) d"
    define w1 where "w1 = frame_taken portId d w"
    have rcv: "SSPCOM_ProcessReceive portId w = (SSP_SUCCESS, Some r, w1)"
      unfolding r_def w1_def by (rule SSPCOM_ProcessReceive_frame [OF wf dst idle op rx])
    have hr: "type (header r) = MSG_TYPE_DATA" "destId (header r) = destId (header d)"
      "header r = header (fill_packet d)"
      using ty by (simp_all add: r_def accepted_def header_fill_packet parsed_header_def)
    have nak: "SendNak (header r) w1 =
        w1\<lparr>events := events w1 @ [PortSend p (ack_nak_bytes MSG_TYPE_NAK (header r))],
           ssp := (ssp w1)\<lparr>sspDataForAckNak :=
                     Some (fill_packet (ack_nak_block MSG_TYPE_NAK (header r) b))\<rparr>\<rparr>"
      using a blk by (intro SendAckNak(2)) (simp_all add: w1_def hr(2))
    have pk: "ProcessReceive_packet portId SSP_SUCCESS (Some r) w1 = SendNak (header r) w1"
      using nol hr(1,2)
      by (simp add: ProcessReceive_packet_def GetCallbackListener_def w1_def MSG_TYPE_DATA_def
            MSG_TYPE_ACK_def MSG_TYPE_NAK_def)
    have ne: "\<not> SSPHAL_IsRecvQueueEmpty portId w"
      using rx serialize_nonempty [OF wf] by (simp add: SSPHAL_IsRecvQueueEmpty_def)
    have bytes: "ack_nak_bytes MSG_TYPE_NAK (header r) = ack_nak_bytes MSG_TYPE_NAK (header d)"
      by (simp add: hr(3))
    have ev: "events (SendNak (header r) w1)
            = events w @ [PortSend p (ack_nak_bytes MSG_TYPE_NAK (header d))]"
      unfolding nak bytes by (simp add: w1_def)
    show "events (ProcessReceive portId w)
            = events w @ [PortSend p (ack_nak_bytes MSG_TYPE_NAK (header d))]"
      using ne by (simp add: ProcessReceive_def rcv pk ev)
  qed
  have unbound: "events (ProcessReceive portId w) = events w
            \<and> (fst (SSPCOM_ProcessReceive portId w) = SSP_BAD_SOCKET_ID
                \<or> fst (SSPCOM_ProcessReceive portId w) = SSP_SOCKET_NOT_OPEN)"
    if u: "\<forall>p. SSPCOM_GetPortId (destId (header d)) w \<noteq> Inr p"
  proof -
    from SSPCOM_ProcessReceive_unbound [OF wf u idle op rx] obtain e r w1 where
      rcv: "SSPCOM_ProcessReceive portId w = (e, r, w1)"
      and e: "e = SSP_BAD_SOCKET_ID \<or> e = SSP_SOCKET_NOT_OPEN"
      and ev: "events w1 = events w" by blast
    have pk: "ProcessReceive_packet portId e r w1 = w1"
      using e by (auto simp: ProcessReceive_packet_def split: option.splits)
    have ne: "\<not> SSPHAL_IsRecvQueueEmpty portId w"
      using rx serialize_nonempty [OF wf] by (simp add: SSPHAL_IsRecvQueueEmpty_def)
    have "events (ProcessReceive portId w) = events w"
      using ne by (simp add: ProcessReceive_def rcv pk ev)
    then show ?thesis
      using rcv e by auto
  qed
  show ?thesis
    using bound unbound by blast
qed

lemma feed_fields [simp]:
  "com (feed p bs w) = com w"
  "ssp (feed p bs w) = ssp w"
  "events (feed p bs w) = events w"
  "portIsOpen (hal (feed p bs w)) = portIsOpen (hal w)"
  "portSendOk (hal (feed p bs w)) = portSendOk (hal w)"
  "recvDataBuf (hal (feed p bs w)) p = recvDataBuf (hal w) p @ bs"
  "SSPCOM_GetPortId s (feed p bs w) = SSPCOM_GetPortId s w"
  by (simp_all add: feed_def SSPCOM_GetPortId_def)

theorem data_without_listener_witness:
  "wf_frame (data_frame 1 0 5 [1]) \<and> type (header (data_frame 1 0 5 [1])) = MSG_TYPE_DATA
   \<and> idle_parser (com two_sockets) \<and> portIsOpen (hal two_sockets) SSP_PORT1
   \<and> portSendOk (hal two_sockets)
   \<and> recvDataBuf (hal (feed SSP_PORT1 (serialize (data_frame 1 0 5 [1])) two_sockets)) SSP_PORT1
        = serialize (data_frame 1 0 5 [1])
   \<and> socketToCallbackMap (ssp two_sockets) 0 = None
   \<and> SSPCOM_GetPortId 0 two_sockets = Inr SSP_PORT1
   \<and> events two_sockets = []
   \<and> events (ProcessReceive SSP_PORT1
         (feed SSP_PORT1 (serialize (data_frame 1 0 5 [1])) two_sockets))
        = [PortSend SSP_PORT1 (ack_nak_bytes MSG_TYPE_NAK (header (data_frame 1 0 5 [1])))]"
proof -
  define w where "w = feed SSP_PORT1 (serialize (data_frame 1 0 5 [1])) two_sockets"
  have wf: "wf_frame (data_frame 1 0 5 [1])" by code_simp
  have ty: "type (header (data_frame 1 0 5 [1])) = MSG_TYPE_DATA" by code_simp
  have idle0: "idle_parser (com two_sockets)" by code_simp
  have op0: "portIsOpen (hal two_sockets) SSP_PORT1" by code_simp
  have ok0: "portSendOk (hal two_sockets)" by code_simp
  have rx0: "recvDataBuf (hal two_sockets) SSP_PORT1 = []" by code_simp
  have dd: "destId (header (data_frame 1 0 5 [1])) = 0" by code_simp
  have nol0: "socketToCallbackMap (ssp two_sockets) 0 = None" by code_simp
  have gp0: "SSPCOM_GetPortId 0 two_sockets = Inr SSP_PORT1" by code_simp
  have ev0: "events two_sockets = []" by code_simp
  have blk0: "sspDataForAckNak (ssp two_sockets) = Some (SSPCOM_AllocateSspData 0)" by code_simp
  have wfb: "wf_frame (SSPCOM_AllocateSspData 0)" by code_simp
  have bb: "body (SSPCOM_AllocateSspData 0) = []" by code_simp
  have idle: "idle_parser (com w)" using idle0 by (simp add: w_def)
  have op: "portIsOpen (hal w) SSP_PORT1" using op0 by (simp add: w_def)
  have rx: "recvDataBuf (hal w) SSP_PORT1 = serialize (data_frame 1 0 5 [1])"
    using rx0 by (simp add: w_def)
  have nol: "socketToCallbackMap (ssp w) (destId (header (data_frame 1 0 5 [1]))) = None"
    using nol0 by (simp add: w_def dd)
  have blk: "sspDataForAckNak (ssp w) = Some (SSPCOM_AllocateSspData 0)"
    using blk0 by (simp add: w_def)
  have bound: "SSPCOM_GetPortId (destId (header (data_frame 1 0 5 [1]))) w = Inr SSP_PORT1
      \<and> portIsOpen (hal w) SSP_PORT1 \<and> portSendOk (hal w)"
    using gp0 op0 ok0 by (simp add: w_def dd)
  have "events (ProcessReceive SSP_PORT1 w)
      = events w @ [PortSend SSP_PORT1 (ack_nak_bytes MSG_TYPE_NAK (header (data_frame 1 0 5 [1])))]"
    using data_without_listener [OF wf ty idle op rx nol blk wfb bb] bound by blast
  then show ?thesis
    using wf ty idle0 op0 ok0 rx nol0 gp0 ev0 by (simp add: w_def)
qed

text \<open>
  The claim as stated fails for an unbound destination: socket 2 is not open and has no
  listener, a data frame for it arrives, and \<^verbatim>\<open>SSP_Process\<close> sends nothing.
\<close>

lemma unbound_bytes: "serialize (data_frame 0 2 0 [1]) = [190, 239, 2, 0, 0, 1, 0, 176, 1, 171, 99]"
  by (simp add: serialize_data_frame crc_eval)

theorem data_without_listener_counterexample:
  "socketToCallbackMap (ssp two_sockets) 2 = None
   \<and> \<not> SSPCOM_IsSocketOpen 2 two_sockets
   \<and> events two_sockets = []
   \<and> events (SSP_Process (feed SSP_PORT1 (serialize (data_frame 0 2 0 [1])) two_sockets)) = []"
  unfolding unbound_bytes by code_simp

section \<open>Duplicate suppression\<close>

lemma set_queue_fields [simp]:
  "com (set_queue p q w) = com w"
  "hal (set_queue p q w) = hal w"
  "events (set_queue p q w) = events w"
  "tick (set_queue p q w) = tick w"
  "recvStatics (set_queue p q w) = recvStatics w"
  "socketToCallbackMap (ssp (set_queue p q w)) = socketToCallbackMap (ssp w)"
  "socketToUserDataMap (ssp (set_queue p q w)) = socketToUserDataMap (ssp w)"
  "lastReceivedTransId (ssp (set_queue p q w)) = lastReceivedTransId (ssp w)"
  "sspDataForAckNak (ssp (set_queue p q w)) = sspDataForAckNak (ssp w)"
  "SSPCOM_GetPortId s (set_queue p q w) = SSPCOM_GetPortId s w"
  by (simp_all add: set_queue_def SSPCOM_GetPortId_def)

lemma timeouts_fields [simp]:
  "com (ProcessReceive_timeouts p w) = com w"
  "hal (ProcessReceive_timeouts p w) = hal w"
  "tick (ProcessReceive_timeouts p w) = tick w"
  "socketToCallbackMap (ssp (ProcessReceive_timeouts p w)) = socketToCallbackMap (ssp w)"
  "socketToUserDataMap (ssp (ProcessReceive_timeouts p w)) = socketToUserDataMap (ssp w)"
  "lastReceivedTransId (ssp (ProcessReceive_timeouts p w)) = lastReceivedTransId (ssp w)"
  "sspDataForAckNak (ssp (ProcessReceive_timeouts p w)) = sspDataForAckNak (ssp w)"
  "SSPCOM_GetPortId s (ProcessReceive_timeouts p w) = SSPCOM_GetPortId s w"
  by (simp_all add: ProcessReceive_timeouts_def)








section \<open>Retry budget\<close>

lemma fill_packet_idem: "fill_packet (fill_packet d) = fill_packet d"
  by (simp add: fill_packet_def Let_def header_bytes_def crc_range_def HEADER_SIZE_def)

lemma serialize_fill_packet: "serialize (fill_packet d) = serialize d"
  by (simp add: serialize_def fill_packet_idem)

text \<open>
  The clock advances between calls of \<^verbatim>\<open>SSP_Process\<close>: a run is the list of the tick
  counts at which it is called.
\<close>

definition process_at :: "u32 \<Rightarrow> World \<Rightarrow> World" where
  "process_at t w = SSP_Process (w\<lparr>tick := t\<rparr>)"

definition process_run :: "u32 list \<Rightarrow> World \<Rightarrow> World" where
  "process_run ts w = foldl (\<lambda>v t. process_at t v) w ts"

fun spaced :: "u32 list \<Rightarrow> bool" where
  "spaced (a # b # ts) \<longleftrightarrow> unat (b - a) > SSP_ACK_TIMEOUT \<and> spaced (b # ts)"
| "spaced ts \<longleftrightarrow> True"

text \<open>
  A sender whose peer is silent: the source socket of the block is bound to an open port
  that accepts sends, nothing arrives on any port, and the other lists are empty.
\<close>

definition linked :: "SspPortId \<Rightarrow> SspData \<Rightarrow> World \<Rightarrow> bool" where
  "linked p d w \<longleftrightarrow>
     SSPCOM_GetPortId (srcId (header d)) w = Inr p \<and> portIsOpen (hal w) p \<and> portSendOk (hal w)
     \<and> (\<forall>q. recvDataBuf (hal w) q = []) \<and> (\<forall>q. q \<noteq> p \<longrightarrow> queue w q = [])"

text \<open>The listener call that reports the failure, when the source socket has a listener.\<close>

definition notice :: "SspData \<Rightarrow> World \<Rightarrow> Event list" where
  "notice d w =
     (case socketToCallbackMap (ssp w) (srcId (header d)) of
        None \<Rightarrow> []
      | Some cb \<Rightarrow>
          [Callback cb (srcId (header d)) (body d) (ucast (bodySize (header d))) (dataType d)
             SSP_SEND_RETRIES_FAILED (socketToUserDataMap (ssp w) (srcId (header d)))])"

lemma set_queue_same: "queue w q = xs \<Longrightarrow> set_queue q xs w = w"
  by (simp add: set_queue_def queue_def fun_upd_idem)

lemma port_quiet:
  assumes "queue w q = []" and "recvDataBuf (hal w) q = []"
  shows "ProcessSend q (ProcessReceive q w) = w"
  using assms
  by (simp add: ProcessReceive_def SSPHAL_IsRecvQueueEmpty_def ProcessReceive_timeouts_def
        set_queue_same ProcessSend_def ListFront_def)

lemma process_port_quiet:
  assumes "queue w q = []" and "recvDataBuf (hal w) q = []"
  shows "process_port q (w, b) = (w, b)"
  using assms by (simp add: process_port_def port_quiet ListSize_def)

lemma ProcessReceive_silent:
  assumes "recvDataBuf (hal w) p = []" and "queue w p = [sd]"
  shows "ProcessReceive p w = set_queue p [check_timeout (tick w) sd] w"
  using assms
  by (simp add: ProcessReceive_def SSPHAL_IsRecvQueueEmpty_def ProcessReceive_timeouts_def
        MAX_SEND_DATA_BLOCKS_def SSP_MAX_MESSAGES_def)

lemma SSP_Process_one:
  assumes p: "p \<noteq> SSP_INVALID_PORT" and op: "portIsOpen (hal w) p"
    and quiet: "\<forall>q. q \<noteq> p \<longrightarrow> queue w q = [] \<and> recvDataBuf (hal w) q = []"
    and X: "X = ProcessSend p (ProcessReceive p w)"
    and quietX: "\<forall>q. q \<noteq> p \<longrightarrow> queue X q = [] \<and> recvDataBuf (hal X) q = []"
    and len: "length (queue X p) \<le> SSP_MAX_MESSAGES"
  shows "SSP_Process w = (if queue X p = [] then SSPHAL_PowerSave True X else X)"
proof -
  have sz: "unat (ListSize p X) = length (queue X p)"
    using len by (rule unat_ListSize)
  have own: "process_port p (v, b) = (ProcessSend p (ProcessReceive p v),
               if queue (ProcessSend p (ProcessReceive p v)) p = [] then b else False)"
    if "portIsOpen (hal v) p" "length (queue (ProcessSend p (ProcessReceive p v)) p) \<le> SSP_MAX_MESSAGES"
    for v b
    using that by (simp add: process_port_def SSPCOM_IsPortOpen_def Let_def unat_ListSize)
  have other: "process_port q (v, b) = (v, b)"
    if "q \<noteq> p" "queue v q = [] \<and> recvDataBuf (hal v) q = []" for q v b
  proof (cases "portIsOpen (hal v) q")
    case True
    then show ?thesis using that by (simp add: process_port_quiet)
  next
    case False
    then show ?thesis by (simp add: process_port_def SSPCOM_IsPortOpen_def)
  qed
  from p consider "p = SSP_PORT1" | "p = SSP_PORT2" by (cases p) auto
  then show ?thesis
  proof cases
    case 1
    have a: "process_port SSP_PORT1 (w, True) = (X, queue X p = [])"
      using own [of w True] op len X 1 by simp
    have b: "process_port SSP_PORT2 (X, queue X p = []) = (X, queue X p = [])"
      using other [of SSP_PORT2 X] quietX 1 by simp
    show ?thesis
      by (simp add: SSP_Process_def a b)
  next
    case 2
    have a: "process_port SSP_PORT1 (w, True) = (w, True)"
      using other [of SSP_PORT1 w] quiet 2 by simp
    have b: "process_port SSP_PORT2 (w, True) = (X, queue X p = [])"
      using own [of w True] op len X 2 by simp
    show ?thesis
      by (simp add: SSP_Process_def a b)
  qed
qed

lemma ProcessSend_waiting:
  assumes "queue w p = [sd]" and "state sd = RECEIVE_STATE"
  shows "ProcessSend p w = w"
  using assms by (simp add: ProcessSend_def ListFront_def)

lemma SSPCOM_Send_again:
  assumes "SSPCOM_GetPortId (srcId (header d)) w = Inr p"
    and "portIsOpen (hal w) p" and "portSendOk (hal w)" and "wf_frame d"
    and "dd = d \<or> dd = fill_packet d"
  shows "SSPCOM_Send dd w =
     (SSP_SUCCESS, fill_packet d, w\<lparr>events := events w @ [PortSend p (serialize d)]\<rparr>)"
proof -
  have s: "srcId (header (fill_packet d)) = srcId (header d)"
    by (simp add: header_fill_packet parsed_header_def)
  have "SSPCOM_Send (fill_packet d) w =
     (SSP_SUCCESS, fill_packet (fill_packet d),
      w\<lparr>events := events w @ [PortSend p (serialize (fill_packet d))]\<rparr>)"
    using assms(1,2,3) by (intro SSPCOM_Send_ok wf_fill_packet [OF assms(4)]) (simp_all add: s)
  then show ?thesis
    using assms(5) SSPCOM_Send_ok [OF assms(1,2,3,4)]
    by (auto simp: fill_packet_idem serialize_fill_packet)
qed

lemma ProcessSend_sends:
  assumes q: "queue w p = [sd]" and st: "state sd = SEND_STATE"
    and n: "unat (sendRetries sd) \<le> SSP_MAX_RETRIES"
    and link: "SSPCOM_GetPortId (srcId (header d)) w = Inr p" "portIsOpen (hal w) p"
      "portSendOk (hal w)"
    and wf: "wf_frame d" and dd: "sspData sd = d \<or> sspData sd = fill_packet d"
  shows "ProcessSend p w =
     set_queue p [sd\<lparr>sendRetries := sendRetries sd + 1, sspData := fill_packet d,
                     sendTickStamp := tick w, state := RECEIVE_STATE\<rparr>]
       (w\<lparr>events := events w @ [PortSend p (serialize d)]\<rparr>)"
proof -
  have snd: "SSPCOM_Send (sspData sd) w =
     (SSP_SUCCESS, fill_packet d, w\<lparr>events := events w @ [PortSend p (serialize d)]\<rparr>)"
    by (rule SSPCOM_Send_again [OF link wf dd])
  show ?thesis
    using q st n
    by (simp add: ProcessSend_def ListFront_def Let_def snd set_front_def queue_def)
qed

lemma ProcessSend_gives_up:
  assumes q: "queue w p = [sd]" and st: "state sd = SEND_STATE"
    and n: "unat (sendRetries sd) > SSP_MAX_RETRIES"
    and ty: "type (header d) = MSG_TYPE_DATA"
    and wf: "wf_frame d" and dd: "sspData sd = d \<or> sspData sd = fill_packet d"
  shows "ProcessSend p w =
     set_queue p [] (w\<lparr>events := events w @ notice d w\<rparr>)"
proof -
  define sd2 where "sd2 = sd\<lparr>sendRetries := sendRetries sd + 1,
      sspData := (sspData sd)\<lparr>err := SSP_SEND_RETRIES_FAILED\<rparr>\<rparr>"
  define w1 where "w1 = set_front p sd2 w"
  have h: "type (header (sspData sd2)) = MSG_TYPE_DATA"
    "srcId (header (sspData sd2)) = srcId (header d)"
    "bodySize (header (sspData sd2)) = bodySize (header d)"
    "body (sspData sd2) = body d" "dataType (sspData sd2) = dataType d"
    "err (sspData sd2) = SSP_SEND_RETRIES_FAILED"
    using dd ty
    by (auto simp: sd2_def header_fill_packet parsed_header_def fill_packet_def Let_def)
  have bs: "unat (bodySize (header d)) = length (body d)"
    using wf by (simp add: wf_frame_def)
  have q1: "queue w1 p = [sd2]"
    using q by (simp add: w1_def set_front_def)
  have nl: "NotifyListener (srcId (header (sspData sd2))) (sspData sd2) w1 =
      w1\<lparr>events := events w1 @ notice d w\<rparr>"
    by (simp add: NotifyListener_def CallbackListener_def GetCallbackListener_def h bs notice_def
          w1_def set_front_def set_queue_def split: option.splits)
  have er: "ListErase p sd2 (w1\<lparr>events := events w1 @ notice d w\<rparr>)
      = set_queue p [] (w\<lparr>events := events w @ notice d w\<rparr>)"
    using q1 by (simp add: ListErase_def same_packet_def queue_def w1_def set_front_def
                   set_queue_def)
  have "ProcessSend p w =
      ListErase p sd2 (NotifyListener (srcId (header (sspData sd2))) (sspData sd2) w1)"
    using q st n by (simp add: ProcessSend_def ListFront_def Let_def sd2_def w1_def)
  then show ?thesis
    by (simp only: nl er)
qed

text \<open>What a call of \<^verbatim>\<open>SSP_Process\<close> leaves as it was while the peer is silent.\<close>

definition same_link :: "SspPortId \<Rightarrow> World \<Rightarrow> World \<Rightarrow> bool" where
  "same_link p w v \<longleftrightarrow>
     com v = com w \<and> portIsOpen (hal v) = portIsOpen (hal w)
     \<and> portSendOk (hal v) = portSendOk (hal w) \<and> recvDataBuf (hal v) = recvDataBuf (hal w)
     \<and> socketToCallbackMap (ssp v) = socketToCallbackMap (ssp w)
     \<and> socketToUserDataMap (ssp v) = socketToUserDataMap (ssp w)
     \<and> (\<forall>q. q \<noteq> p \<longrightarrow> queue v q = queue w q)"

lemma process_at_shape:
  assumes link: "linked p d w"
    and X: "ProcessSend p (ProcessReceive p (w\<lparr>tick := t\<rparr>)) = X"
    and same: "same_link p w X" and len: "length (queue X p) \<le> 1"
  shows "linked p d (process_at t w)" and "notice d (process_at t w) = notice d w"
    and "queue (process_at t w) p = queue X p" and "events (process_at t w) = events X"
proof -
  define w0 where "w0 = w\<lparr>tick := t\<rparr>"
  have l: "SSPCOM_GetPortId (srcId (header d)) w = Inr p" "portIsOpen (hal w) p"
    "portSendOk (hal w)" "\<forall>q. recvDataBuf (hal w) q = []" "\<forall>q. q \<noteq> p \<longrightarrow> queue w q = []"
    using link by (simp_all add: linked_def)
  have p: "p \<noteq> SSP_INVALID_PORT"
    using l(1) by (auto simp: SSPCOM_GetPortId_def split: if_splits)
  have s: "com X = com w" "portIsOpen (hal X) = portIsOpen (hal w)"
    "portSendOk (hal X) = portSendOk (hal w)" "recvDataBuf (hal X) = recvDataBuf (hal w)"
    "socketToCallbackMap (ssp X) = socketToCallbackMap (ssp w)"
    "socketToUserDataMap (ssp X) = socketToUserDataMap (ssp w)"
    "\<forall>q. q \<noteq> p \<longrightarrow> queue X q = queue w q"
    using same by (simp_all add: same_link_def)
  have op0: "portIsOpen (hal w0) p" using l(2) by (simp add: w0_def)
  have quiet0: "\<forall>q. q \<noteq> p \<longrightarrow> queue w0 q = [] \<and> recvDataBuf (hal w0) q = []"
    using l(4,5) by (simp add: w0_def queue_def)
  have quietX: "\<forall>q. q \<noteq> p \<longrightarrow> queue X q = [] \<and> recvDataBuf (hal X) q = []"
    using l(4,5) s(4,7) by simp
  have len': "length (queue X p) \<le> SSP_MAX_MESSAGES"
    using len by (simp add: SSP_MAX_MESSAGES_def)
  have Y: "process_at t w = (if queue X p = [] then SSPHAL_PowerSave True X else X)"
    unfolding process_at_def w0_def [symmetric]
    by (rule SSP_Process_one [OF p op0 quiet0 _ quietX len']) (simp add: X [symmetric] w0_def)
  show "queue (process_at t w) p = queue X p"
    by (simp add: Y)
  show "events (process_at t w) = events X"
    by (simp add: Y SSPHAL_PowerSave_def)
  show "notice d (process_at t w) = notice d w"
    using s(5,6) by (simp add: Y notice_def SSPHAL_PowerSave_def split: option.splits)
  have "SSPCOM_GetPortId s (process_at t w) = SSPCOM_GetPortId s w" for s
    using s(1) by (simp add: Y SSPHAL_PowerSave_def SSPCOM_GetPortId_def)
  then have g: "SSPCOM_GetPortId (srcId (header d)) (process_at t w) = Inr p"
    using l(1) by simp
  show "linked p d (process_at t w)"
    unfolding linked_def
    using g l(2,3,4) s(2,3,4) quietX
    by (simp add: Y) (simp add: SSPHAL_PowerSave_def)
qed

lemma process_at_entry:
  assumes link: "linked p d w" and wf: "wf_frame d" and ty: "type (header d) = MSG_TYPE_DATA"
    and q: "queue w p = [sd]" and dd: "sspData sd = d \<or> sspData sd = fill_packet d"
  shows "linked p d (process_at t w)" and "notice d (process_at t w) = notice d w"
    and "state sd = RECEIVE_STATE \<Longrightarrow> unat (t - sendTickStamp sd) \<le> SSP_ACK_TIMEOUT \<Longrightarrow>
          queue (process_at t w) p = [sd] \<and> events (process_at t w) = events w"
    and "state sd = SEND_STATE \<or> unat (t - sendTickStamp sd) > SSP_ACK_TIMEOUT \<Longrightarrow>
          unat (sendRetries sd) \<le> SSP_MAX_RETRIES \<Longrightarrow>
          queue (process_at t w) p =
            [sd\<lparr>sendRetries := sendRetries sd + 1, sspData := fill_packet d,
                sendTickStamp := t, state := RECEIVE_STATE\<rparr>]
          \<and> events (process_at t w) = events w @ [PortSend p (serialize d)]"
    and "state sd = SEND_STATE \<or> unat (t - sendTickStamp sd) > SSP_ACK_TIMEOUT \<Longrightarrow>
          unat (sendRetries sd) > SSP_MAX_RETRIES \<Longrightarrow>
          queue (process_at t w) p = [] \<and> events (process_at t w) = events w @ notice d w"
proof -
  define w0 where "w0 = w\<lparr>tick := t\<rparr>"
  define sd' where "sd' = check_timeout t sd"
  define R where "R = set_queue p [sd'] w0"
  have l: "SSPCOM_GetPortId (srcId (header d)) w = Inr p" "portIsOpen (hal w) p"
    "portSendOk (hal w)" "\<forall>q. recvDataBuf (hal w) q = []" "\<forall>q. q \<noteq> p \<longrightarrow> queue w q = []"
    using link by (simp_all add: linked_def)
  have rcv: "ProcessReceive p w0 = R"
    unfolding R_def sd'_def
    using ProcessReceive_silent [of w0 p sd] l(4) q by (simp add: w0_def queue_def)
  have gR: "SSPCOM_GetPortId s R = SSPCOM_GetPortId s w" for s
    by (simp add: R_def w0_def set_queue_def SSPCOM_GetPortId_def)
  have nR: "notice d R = notice d w"
    by (simp add: R_def w0_def set_queue_def notice_def split: option.splits)
  have R: "queue R p = [sd']" "tick R = t" "events R = events w"
    "SSPCOM_GetPortId (srcId (header d)) R = Inr p" "portIsOpen (hal R) p" "portSendOk (hal R)"
    "notice d R = notice d w"
    using l(1,2,3) gR nR
    by (simp_all add: R_def w0_def set_queue_def queue_def)
  have sR: "same_link p w R"
    by (simp add: same_link_def R_def w0_def set_queue_def queue_def)
  have dd': "sspData sd' = d \<or> sspData sd' = fill_packet d"
    using dd by (simp add: sd'_def check_timeout_def)
  have rt: "sendRetries sd' = sendRetries sd"
    by (simp add: sd'_def check_timeout_def)
  consider (W) "state sd = RECEIVE_STATE" "unat (t - sendTickStamp sd) \<le> SSP_ACK_TIMEOUT"
    | (S) "state sd = SEND_STATE \<or> unat (t - sendTickStamp sd) > SSP_ACK_TIMEOUT"
          "unat (sendRetries sd) \<le> SSP_MAX_RETRIES"
    | (F) "state sd = SEND_STATE \<or> unat (t - sendTickStamp sd) > SSP_ACK_TIMEOUT"
          "unat (sendRetries sd) > SSP_MAX_RETRIES"
    by (cases "state sd") (meson not_le)+
  then have "\<exists>X. ProcessSend p (ProcessReceive p w0) = X \<and> same_link p w X
      \<and> length (queue X p) \<le> 1
      \<and> (state sd = RECEIVE_STATE \<and> unat (t - sendTickStamp sd) \<le> SSP_ACK_TIMEOUT
           \<longrightarrow> queue X p = [sd] \<and> events X = events w)
      \<and> ((state sd = SEND_STATE \<or> unat (t - sendTickStamp sd) > SSP_ACK_TIMEOUT)
           \<and> unat (sendRetries sd) \<le> SSP_MAX_RETRIES
           \<longrightarrow> queue X p = [sd\<lparr>sendRetries := sendRetries sd + 1, sspData := fill_packet d,
                                 sendTickStamp := t, state := RECEIVE_STATE\<rparr>]
               \<and> events X = events w @ [PortSend p (serialize d)])
      \<and> ((state sd = SEND_STATE \<or> unat (t - sendTickStamp sd) > SSP_ACK_TIMEOUT)
           \<and> unat (sendRetries sd) > SSP_MAX_RETRIES
           \<longrightarrow> queue X p = [] \<and> events X = events w @ notice d w)"
  proof cases
    case W
    have e: "sd' = sd" "state sd' = RECEIVE_STATE"
      using W by (simp_all add: sd'_def check_timeout_def)
    have "ProcessSend p R = R"
      by (rule ProcessSend_waiting [OF R(1) e(2)])
    then show ?thesis
      using W sR R(1,3) e(1) by (auto simp: rcv)
  next
    case S
    have st: "state sd' = SEND_STATE"
      using S(1) by (cases "state sd") (auto simp: sd'_def check_timeout_def)
    have n: "unat (sendRetries sd') \<le> SSP_MAX_RETRIES"
      using S(2) rt by simp
    have e: "sd'\<lparr>sendRetries := sendRetries sd' + 1, sspData := fill_packet d,
                 sendTickStamp := tick R, state := RECEIVE_STATE\<rparr>
            = sd\<lparr>sendRetries := sendRetries sd + 1, sspData := fill_packet d,
                 sendTickStamp := t, state := RECEIVE_STATE\<rparr>"
      by (simp add: sd'_def check_timeout_def R(2))
    note ps = ProcessSend_sends [OF R(1) st n R(4,5,6) wf dd', unfolded e]
    have "same_link p w (ProcessSend p R)"
      using sR by (simp add: ps same_link_def set_queue_def queue_def)
    moreover have "queue (ProcessSend p R) p =
        [sd\<lparr>sendRetries := sendRetries sd + 1, sspData := fill_packet d,
            sendTickStamp := t, state := RECEIVE_STATE\<rparr>]"
      by (simp add: ps)
    moreover have "events (ProcessSend p R) = events w @ [PortSend p (serialize d)]"
      by (simp add: ps set_queue_def R(3))
    ultimately show ?thesis
      using S by (auto simp: rcv)
  next
    case F
    have st: "state sd' = SEND_STATE"
      using F(1) by (cases "state sd") (auto simp: sd'_def check_timeout_def)
    have n: "unat (sendRetries sd') > SSP_MAX_RETRIES"
      using F(2) rt by simp
    note ps = ProcessSend_gives_up [OF R(1) st n ty wf dd']
    have "same_link p w (ProcessSend p R)"
      using sR by (simp add: ps same_link_def set_queue_def queue_def)
    moreover have "queue (ProcessSend p R) p = []"
      by (simp add: ps)
    moreover have "events (ProcessSend p R) = events w @ notice d w"
      by (simp add: ps set_queue_def R(3,7))
    ultimately show ?thesis
      using F by (auto simp: rcv)
  qed
  then obtain X where X: "ProcessSend p (ProcessReceive p w0) = X" "same_link p w X"
    and len: "length (queue X p) \<le> 1"
    and XW: "state sd = RECEIVE_STATE \<and> unat (t - sendTickStamp sd) \<le> SSP_ACK_TIMEOUT
           \<longrightarrow> queue X p = [sd] \<and> events X = events w"
    and XS: "(state sd = SEND_STATE \<or> unat (t - sendTickStamp sd) > SSP_ACK_TIMEOUT)
           \<and> unat (sendRetries sd) \<le> SSP_MAX_RETRIES
           \<longrightarrow> queue X p = [sd\<lparr>sendRetries := sendRetries sd + 1, sspData := fill_packet d,
                                 sendTickStamp := t, state := RECEIVE_STATE\<rparr>]
               \<and> events X = events w @ [PortSend p (serialize d)]"
    and XF: "(state sd = SEND_STATE \<or> unat (t - sendTickStamp sd) > SSP_ACK_TIMEOUT)
           \<and> unat (sendRetries sd) > SSP_MAX_RETRIES
           \<longrightarrow> queue X p = [] \<and> events X = events w @ notice d w"
    by blast
  note sh = process_at_shape [OF link X(1) [unfolded w0_def] X(2) len]
  show "linked p d (process_at t w)" by (rule sh(1))
  show "notice d (process_at t w) = notice d w" by (rule sh(2))
  show "queue (process_at t w) p = [sd] \<and> events (process_at t w) = events w"
    if "state sd = RECEIVE_STATE" "unat (t - sendTickStamp sd) \<le> SSP_ACK_TIMEOUT"
    using that XW by (simp add: sh(3,4))
  show "queue (process_at t w) p =
            [sd\<lparr>sendRetries := sendRetries sd + 1, sspData := fill_packet d,
                sendTickStamp := t, state := RECEIVE_STATE\<rparr>]
          \<and> events (process_at t w) = events w @ [PortSend p (serialize d)]"
    if "state sd = SEND_STATE \<or> unat (t - sendTickStamp sd) > SSP_ACK_TIMEOUT"
      "unat (sendRetries sd) \<le> SSP_MAX_RETRIES"
    using that XS by (simp add: sh(3,4))
  show "queue (process_at t w) p = [] \<and> events (process_at t w) = events w @ notice d w"
    if "state sd = SEND_STATE \<or> unat (t - sendTickStamp sd) > SSP_ACK_TIMEOUT"
      "unat (sendRetries sd) > SSP_MAX_RETRIES"
    using that XF by (simp add: sh(3,4))
qed

lemma process_run_Cons [simp]: "process_run (t # ts) w = process_run ts (process_at t w)"
  by (simp add: process_run_def)

lemma process_run_Nil [simp]: "process_run [] w = w"
  by (simp add: process_run_def)

lemma process_at_done:
  assumes link: "linked p d w" and q: "queue w p = []"
  shows "linked p d (process_at t w)" and "notice d (process_at t w) = notice d w"
    and "queue (process_at t w) p = []" and "events (process_at t w) = events w"
proof -
  define w0 where "w0 = w\<lparr>tick := t\<rparr>"
  have l: "\<forall>q. recvDataBuf (hal w) q = []"
    using link by (simp add: linked_def)
  have X: "ProcessSend p (ProcessReceive p (w\<lparr>tick := t\<rparr>)) = w0"
    unfolding w0_def [symmetric]
    using q l by (intro port_quiet) (simp_all add: w0_def queue_def)
  have same: "same_link p w w0"
    by (simp add: same_link_def w0_def queue_def)
  have len: "length (queue w0 p) \<le> 1"
    using q by (simp add: w0_def queue_def)
  note sh = process_at_shape [OF link X same len]
  show "linked p d (process_at t w)" by (rule sh(1))
  show "notice d (process_at t w) = notice d w" by (rule sh(2))
  show "queue (process_at t w) p = []" using q sh(3) by (simp add: w0_def queue_def)
  show "events (process_at t w) = events w" by (simp add: sh(4) w0_def)
qed

text \<open>
  The two kinds of state a run passes through: the entry is in the list and its frame has
  been sent \<open>n\<close> times, or the entry is gone and the failure has been reported.
\<close>

definition retrying :: "SspPortId \<Rightarrow> SspData \<Rightarrow> Event list \<Rightarrow> Event list \<Rightarrow> nat \<Rightarrow> World \<Rightarrow> bool" where
  "retrying p d e0 fin n w \<longleftrightarrow>
     linked p d w \<and> notice d w = fin
     \<and> (\<exists>sd. queue w p = [sd] \<and> (sspData sd = d \<or> sspData sd = fill_packet d)
              \<and> unat (sendRetries sd) = n)
     \<and> events w = e0 @ replicate n (PortSend p (serialize d))"

definition gave_up :: "SspPortId \<Rightarrow> SspData \<Rightarrow> Event list \<Rightarrow> Event list \<Rightarrow> World \<Rightarrow> bool" where
  "gave_up p d e0 fin w \<longleftrightarrow>
     linked p d w \<and> notice d w = fin \<and> queue w p = []
     \<and> events w = e0 @ replicate (SSP_MAX_RETRIES + 1) (PortSend p (serialize d)) @ fin"

lemma unat_retries_Suc:
  assumes "unat (r :: u32) \<le> SSP_MAX_RETRIES"
  shows "unat (r + 1) = Suc (unat r)"
proof -
  have "unat r < 4294967295" using assms by (simp add: SSP_MAX_RETRIES_def)
  then show ?thesis by (simp add: unat_word_ariths)
qed

lemma retrying_step:
  assumes wf: "wf_frame d" and ty: "type (header d) = MSG_TYPE_DATA"
    and r: "retrying p d e0 fin n w" and n: "n \<le> SSP_MAX_RETRIES + 1"
  shows "(\<exists>m. m \<le> SSP_MAX_RETRIES + 1 \<and> retrying p d e0 fin m (process_at t w))
       \<or> gave_up p d e0 fin (process_at t w)"
proof -
  from r obtain sd where link: "linked p d w" and fin: "notice d w = fin"
    and q: "queue w p = [sd]" and dd: "sspData sd = d \<or> sspData sd = fill_packet d"
    and rn: "unat (sendRetries sd) = n"
    and ev: "events w = e0 @ replicate n (PortSend p (serialize d))"
    by (auto simp: retrying_def)
  note st = process_at_entry [OF link wf ty q dd, of t]
  consider (W) "state sd = RECEIVE_STATE" "unat (t - sendTickStamp sd) \<le> SSP_ACK_TIMEOUT"
    | (S) "state sd = SEND_STATE \<or> unat (t - sendTickStamp sd) > SSP_ACK_TIMEOUT"
          "unat (sendRetries sd) \<le> SSP_MAX_RETRIES"
    | (F) "state sd = SEND_STATE \<or> unat (t - sendTickStamp sd) > SSP_ACK_TIMEOUT"
          "unat (sendRetries sd) > SSP_MAX_RETRIES"
    by (cases "state sd") (meson not_le)+
  then show ?thesis
  proof cases
    case W
    have "retrying p d e0 fin n (process_at t w)"
      using st(1,2) st(3) [OF W] fin dd rn ev by (auto simp: retrying_def)
    then show ?thesis using n by blast
  next
    case S
    have "retrying p d e0 fin (Suc n) (process_at t w)"
      using st(1,2) st(4) [OF S] fin rn ev unat_retries_Suc [OF S(2)]
      by (auto simp: retrying_def replicate_append_same)
    moreover have "Suc n \<le> SSP_MAX_RETRIES + 1"
      using S(2) rn by simp
    ultimately show ?thesis by blast
  next
    case F
    have "n = SSP_MAX_RETRIES + 1"
      using F(2) rn n by simp
    then have "gave_up p d e0 fin (process_at t w)"
      using st(1,2) st(5) [OF F] fin ev by (auto simp: gave_up_def)
    then show ?thesis by blast
  qed
qed

lemma gave_up_step:
  assumes "gave_up p d e0 fin w"
  shows "gave_up p d e0 fin (process_at t w)"
proof -
  from assms have link: "linked p d w" and q: "queue w p = []"
    by (simp_all add: gave_up_def)
  show ?thesis
    using assms process_at_done [OF link q, of t] by (simp add: gave_up_def)
qed

lemma gave_up_run:
  assumes "gave_up p d e0 fin w"
  shows "gave_up p d e0 fin (process_run ts w)"
  using assms by (induction ts arbitrary: w) (simp_all add: gave_up_step)

lemma retrying_run:
  assumes wf: "wf_frame d" and ty: "type (header d) = MSG_TYPE_DATA"
    and r: "(\<exists>m. m \<le> SSP_MAX_RETRIES + 1 \<and> retrying p d e0 fin m w) \<or> gave_up p d e0 fin w"
  shows "(\<exists>m. m \<le> SSP_MAX_RETRIES + 1 \<and> retrying p d e0 fin m (process_run ts w))
       \<or> gave_up p d e0 fin (process_run ts w)"
  using r
proof (induction ts arbitrary: w)
  case Nil
  then show ?case by simp
next
  case (Cons t ts)
  have "(\<exists>m. m \<le> SSP_MAX_RETRIES + 1 \<and> retrying p d e0 fin m (process_at t w))
       \<or> gave_up p d e0 fin (process_at t w)"
    using Cons.prems retrying_step [OF wf ty, of p e0 fin _ w t] gave_up_step [of p d e0 fin w t]
    by blast
  from Cons.IH [OF this] show ?case by simp
qed

lemma spaced_run:
  assumes wf: "wf_frame d" and ty: "type (header d) = MSG_TYPE_DATA"
    and link: "linked p d w" and fin: "notice d w = fin"
    and q: "queue w p = [sd]" and dd: "sspData sd = d \<or> sspData sd = fill_packet d"
    and ev: "events w = e0 @ replicate (unat (sendRetries sd)) (PortSend p (serialize d))"
    and n: "unat (sendRetries sd) \<le> SSP_MAX_RETRIES + 1"
    and due: "state sd = SEND_STATE \<or> unat (t - sendTickStamp sd) > SSP_ACK_TIMEOUT"
    and sp: "spaced (t # ts)"
    and len: "SSP_MAX_RETRIES + 2 \<le> unat (sendRetries sd) + length (t # ts)"
  shows "gave_up p d e0 fin (process_run (t # ts) w)"
  using link fin q dd ev n due sp len
proof (induction ts arbitrary: w sd t)
  case Nil
  then have F: "unat (sendRetries sd) > SSP_MAX_RETRIES" by simp
  note st = process_at_entry [OF Nil.prems(1) wf ty Nil.prems(3,4), of t]
  have "unat (sendRetries sd) = SSP_MAX_RETRIES + 1"
    using F Nil.prems(6) by simp
  then show ?case
    using st(1,2) st(5) [OF Nil.prems(7) F] Nil.prems(2,5) by (simp add: gave_up_def)
next
  case (Cons t2 ts)
  note st = process_at_entry [OF Cons.prems(1) wf ty Cons.prems(3,4), of t]
  show ?case
  proof (cases "unat (sendRetries sd) \<le> SSP_MAX_RETRIES")
    case True
    define sd' where "sd' = sd\<lparr>sendRetries := sendRetries sd + 1, sspData := fill_packet d,
                sendTickStamp := t, state := RECEIVE_STATE\<rparr>"
    have s: "queue (process_at t w) p = [sd']"
      "events (process_at t w) = events w @ [PortSend p (serialize d)]"
      using st(4) [OF Cons.prems(7) True] by (simp_all add: sd'_def)
    have rn: "unat (sendRetries sd') = Suc (unat (sendRetries sd))"
      using unat_retries_Suc [OF True] by (simp add: sd'_def)
    have "gave_up p d e0 fin (process_run (t2 # ts) (process_at t w))"
    proof (rule Cons.IH [where sd = sd'])
      show "linked p d (process_at t w)" by (rule st(1))
      show "notice d (process_at t w) = fin" using st(2) Cons.prems(2) by simp
      show "queue (process_at t w) p = [sd']" by (rule s(1))
      show "sspData sd' = d \<or> sspData sd' = fill_packet d" by (simp add: sd'_def)
      show "events (process_at t w) = e0 @ replicate (unat (sendRetries sd')) (PortSend p (serialize d))"
        using s(2) Cons.prems(5) by (simp add: rn replicate_append_same)
      show "unat (sendRetries sd') \<le> SSP_MAX_RETRIES + 1" using True rn by simp
      show "state sd' = SEND_STATE \<or> SSP_ACK_TIMEOUT < unat (t2 - sendTickStamp sd')"
        using Cons.prems(8) by (simp add: sd'_def)
      show "spaced (t2 # ts)" using Cons.prems(8) by simp
      show "SSP_MAX_RETRIES + 2 \<le> unat (sendRetries sd') + length (t2 # ts)"
        using Cons.prems(9) rn by simp
    qed
    then show ?thesis by simp
  next
    case False
    then have F: "unat (sendRetries sd) > SSP_MAX_RETRIES" by simp
    have "unat (sendRetries sd) = SSP_MAX_RETRIES + 1"
      using F Cons.prems(6) by simp
    then have "gave_up p d e0 fin (process_at t w)"
      using st(1,2) st(5) [OF Cons.prems(7) F] Cons.prems(2,5) by (simp add: gave_up_def)
    then have "gave_up p d e0 fin (process_run (t2 # ts) (process_at t w))"
      by (rule gave_up_run)
    then show ?thesis by simp
  qed
qed

text \<open>
  C1, as the code has it. A data block is alone in the send list of its port and not yet
  sent; its source socket is bound to that port, which is open and accepts sends; nothing
  arrives on any port and the other lists are empty. \<^verbatim>\<open>SSP_Process\<close> is called at the tick
  counts \<open>ts\<close>. \<^verbatim>\<open>ProcessSend\<close> compares the retry counter with \<^verbatim>\<open>SSP_MAX_RETRIES\<close> and
  then increments it, so the frame goes out \<^verbatim>\<open>SSP_MAX_RETRIES\<close> + 1 times, five with the
  build options of the source. However the calls are timed: once the entry has left the
  list, the events added are exactly \<^verbatim>\<open>SSP_MAX_RETRIES\<close> + 1 transmissions of the frame
  followed by the failure report, which is one call of the source socket's listener with
  \<^verbatim>\<open>SSP_SEND_RETRIES_FAILED\<close> when that socket has a listener, and no block is in use;
  while the entry is in the list, the events added are at most \<^verbatim>\<open>SSP_MAX_RETRIES\<close> + 1
  transmissions and nothing else; and when the calls are more than \<^verbatim>\<open>SSP_ACK_TIMEOUT\<close>
  apart and at least \<^verbatim>\<open>SSP_MAX_RETRIES\<close> + 2 in number, the entry has left the list.
\<close>

theorem retry_budget:
  assumes link: "linked p d w" and wf: "wf_frame d" and ty: "type (header d) = MSG_TYPE_DATA"
    and q: "queue w p = [sd]" and sd: "sspData sd = d" "state sd = SEND_STATE"
      "sendRetries sd = 0"
  shows "(queue (process_run ts w) p = [] \<longrightarrow>
            events (process_run ts w) =
              events w @ replicate (SSP_MAX_RETRIES + 1) (PortSend p (serialize d)) @ notice d w
            \<and> blocks_in_use (process_run ts w) = 0)
       \<and> (queue (process_run ts w) p \<noteq> [] \<longrightarrow>
            (\<exists>n \<le> SSP_MAX_RETRIES + 1.
               events (process_run ts w) = events w @ replicate n (PortSend p (serialize d))))
       \<and> (spaced ts \<and> SSP_MAX_RETRIES + 2 \<le> length ts \<longrightarrow> queue (process_run ts w) p = [])"
proof -
  define v where "v = process_run ts w"
  have r0: "retrying p d (events w) (notice d w) 0 w"
    using link q sd by (simp add: retrying_def)
  then have "(\<exists>m. m \<le> SSP_MAX_RETRIES + 1 \<and> retrying p d (events w) (notice d w) m w)
       \<or> gave_up p d (events w) (notice d w) w"
    by blast
  from retrying_run [OF wf ty this, of ts]
  have inv: "(\<exists>m. m \<le> SSP_MAX_RETRIES + 1 \<and> retrying p d (events w) (notice d w) m v)
       \<or> gave_up p d (events w) (notice d w) v"
    by (simp add: v_def)
  have none: "blocks_in_use v = 0" if "linked p d v" "queue v p = []"
  proof -
    have "queue v q = []" for q
      using that by (cases "q = p") (simp_all add: linked_def)
    then show ?thesis by (simp add: blocks_in_use_def)
  qed
  have a: "events v = events w @ replicate (SSP_MAX_RETRIES + 1) (PortSend p (serialize d))
                @ notice d w \<and> blocks_in_use v = 0" if "queue v p = []"
    using inv that none by (auto simp: retrying_def gave_up_def)
  have b: "\<exists>n \<le> SSP_MAX_RETRIES + 1. events v = events w @ replicate n (PortSend p (serialize d))"
    if "queue v p \<noteq> []"
    using inv that by (auto simp: retrying_def gave_up_def)
  have c: "queue v p = []" if "spaced ts" "SSP_MAX_RETRIES + 2 \<le> length ts"
  proof -
    from that(2) obtain t ts' where ts: "ts = t # ts'"
      by (cases ts) (simp_all add: SSP_MAX_RETRIES_def)
    have "gave_up p d (events w) (notice d w) (process_run (t # ts') w)"
      using that sd by (intro spaced_run [OF wf ty link refl q]) (simp_all add: ts)
    then show ?thesis by (simp add: v_def ts gave_up_def)
  qed
  show ?thesis
    unfolding v_def [symmetric] using a b c by blast
qed

text \<open>
  A node that has queued one byte from socket 1, which has listener 7, to socket 0, and
  six calls of \<^verbatim>\<open>SSP_Process\<close> 300 ms apart.
\<close>

definition one_queued :: World where
  "one_queued =
     (case SSP_Send 1 0 (Some [0x41]) 1 two_sockets of Some (e, w) \<Rightarrow> w | None \<Rightarrow> two_sockets)"

lemma one_queued_bytes:
  "serialize (data_frame 1 0 0 [0x41]) = [190, 239, 0, 1, 0, 1, 0, 175, 65, 128, 178]"
  by (simp add: serialize_data_frame crc_eval)

lemma one_queued_linked: "linked SSP_PORT1 (data_frame 1 0 0 [0x41]) one_queued"
proof -
  have g: "SSPCOM_GetPortId (srcId (header (data_frame 1 0 0 [0x41]))) one_queued = Inr SSP_PORT1"
    by code_simp
  have o: "portIsOpen (hal one_queued) SSP_PORT1" "portSendOk (hal one_queued)"
    by code_simp+
  have rx: "recvDataBuf (hal one_queued) q = []" for q
  proof -
    have "recvDataBuf (hal one_queued) SSP_INVALID_PORT = []"
      "recvDataBuf (hal one_queued) SSP_PORT1 = []"
      "recvDataBuf (hal one_queued) SSP_PORT2 = []" by code_simp+
    then show ?thesis by (cases q) simp_all
  qed
  have oq: "queue one_queued q = []" if "q \<noteq> SSP_PORT1" for q
  proof -
    have "queue one_queued SSP_INVALID_PORT = []" "queue one_queued SSP_PORT2 = []"
      by code_simp+
    then show ?thesis using that by (cases q) simp_all
  qed
  show ?thesis
    unfolding linked_def using g o rx oq by blast
qed

lemma one_queued_frame:
  "wf_frame (data_frame 1 0 0 [0x41])" "type (header (data_frame 1 0 0 [0x41])) = MSG_TYPE_DATA"
  by (rule wf_data_frame, simp add: crc_eval) (simp add: data_frame_def)

lemma one_queued_entry:
  "queue one_queued SSP_PORT1 =
     [\<lparr>sendTickStamp = 0, sendRetries = 0, state = SEND_STATE,
       sspData = data_frame 1 0 0 [0x41]\<rparr>]"
  by code_simp

lemma one_queued_events: "events one_queued = []"
  by code_simp

lemma one_queued_notice:
  "notice (data_frame 1 0 0 [0x41]) one_queued
     = [Callback 7 1 [65] 1 SSP_SEND SSP_SEND_RETRIES_FAILED 42]"
  by code_simp

lemma six_calls:
  "spaced [0, 300, 600, 900, 1200, 1500]"
  "SSP_MAX_RETRIES + 2 \<le> length [0, 300, 600, 900, 1200, 1500 :: u32]"
  by (simp_all add: SSP_ACK_TIMEOUT_def SSP_MAX_RETRIES_def)

theorem retry_budget_witness:
  "linked SSP_PORT1 (data_frame 1 0 0 [0x41]) one_queued
   \<and> wf_frame (data_frame 1 0 0 [0x41])
   \<and> type (header (data_frame 1 0 0 [0x41])) = MSG_TYPE_DATA
   \<and> queue one_queued SSP_PORT1 =
       [\<lparr>sendTickStamp = 0, sendRetries = 0, state = SEND_STATE,
         sspData = data_frame 1 0 0 [0x41]\<rparr>]
   \<and> spaced [0, 300, 600, 900, 1200, 1500]
   \<and> SSP_MAX_RETRIES + 2 \<le> length [0, 300, 600, 900, 1200, 1500 :: u32]
   \<and> queue (process_run [0, 300, 600, 900, 1200, 1500] one_queued) SSP_PORT1 = []
   \<and> events (process_run [0, 300, 600, 900, 1200, 1500] one_queued) =
       replicate 5 (PortSend SSP_PORT1 [190, 239, 0, 1, 0, 1, 0, 175, 65, 128, 178])
       @ [Callback 7 1 [65] 1 SSP_SEND SSP_SEND_RETRIES_FAILED 42]"
proof -
  define sd where "sd = \<lparr>sendTickStamp = 0, sendRetries = 0, state = SEND_STATE,
                          sspData = data_frame 1 0 0 [0x41]\<rparr>"
  have hq: "queue one_queued SSP_PORT1 = [sd]"
    unfolding sd_def by (rule one_queued_entry)
  have hs: "sspData sd = data_frame 1 0 0 [0x41]" "state sd = SEND_STATE" "sendRetries sd = 0"
    by (simp_all add: sd_def)
  note t = retry_budget [OF one_queued_linked one_queued_frame hq hs,
      of "[0, 300, 600, 900, 1200, 1500]"]
  from t six_calls
  have qe: "queue (process_run [0, 300, 600, 900, 1200, 1500] one_queued) SSP_PORT1 = []"
    by blast
  with t have "events (process_run [0, 300, 600, 900, 1200, 1500] one_queued) =
      events one_queued
        @ replicate (SSP_MAX_RETRIES + 1) (PortSend SSP_PORT1 (serialize (data_frame 1 0 0 [0x41])))
        @ notice (data_frame 1 0 0 [0x41]) one_queued"
    by blast
  then have ev: "events (process_run [0, 300, 600, 900, 1200, 1500] one_queued) =
       replicate 5 (PortSend SSP_PORT1 [190, 239, 0, 1, 0, 1, 0, 175, 65, 128, 178])
       @ [Callback 7 1 [65] 1 SSP_SEND SSP_SEND_RETRIES_FAILED 42]"
    by (simp only: one_queued_events one_queued_bytes one_queued_notice SSP_MAX_RETRIES_def) simp
  show ?thesis
    using one_queued_linked one_queued_frame one_queued_entry six_calls qe ev by blast
qed

text \<open>
  The claim as stated fails: the frame goes out five times, once more than
  \<^verbatim>\<open>SSP_MAX_RETRIES\<close>, before the failure is reported and the entry is removed.
\<close>

theorem retry_budget_counterexample:
  "SSP_MAX_RETRIES = 4
   \<and> events one_queued = []
   \<and> events (process_run [0, 300, 600, 900, 1200, 1500] one_queued) =
       [PortSend SSP_PORT1 [190, 239, 0, 1, 0, 1, 0, 175, 65, 128, 178],
        PortSend SSP_PORT1 [190, 239, 0, 1, 0, 1, 0, 175, 65, 128, 178],
        PortSend SSP_PORT1 [190, 239, 0, 1, 0, 1, 0, 175, 65, 128, 178],
        PortSend SSP_PORT1 [190, 239, 0, 1, 0, 1, 0, 175, 65, 128, 178],
        PortSend SSP_PORT1 [190, 239, 0, 1, 0, 1, 0, 175, 65, 128, 178],
        Callback 7 1 [65] 1 SSP_SEND SSP_SEND_RETRIES_FAILED 42]"
proof -
  define sd where "sd = \<lparr>sendTickStamp = 0, sendRetries = 0, state = SEND_STATE,
                          sspData = data_frame 1 0 0 [0x41]\<rparr>"
  have hq: "queue one_queued SSP_PORT1 = [sd]"
    unfolding sd_def by (rule one_queued_entry)
  have "gave_up SSP_PORT1 (data_frame 1 0 0 [0x41]) [] 
          [Callback 7 1 [65] 1 SSP_SEND SSP_SEND_RETRIES_FAILED 42]
          (process_run [0, 300, 600, 900, 1200, 1500] one_queued)"
    using six_calls
    by (intro spaced_run [OF one_queued_frame one_queued_linked one_queued_notice hq])
       (simp_all add: sd_def one_queued_events)
  then have "events (process_run [0, 300, 600, 900, 1200, 1500] one_queued) =
       replicate (SSP_MAX_RETRIES + 1)
         (PortSend SSP_PORT1 (serialize (data_frame 1 0 0 [0x41])))
       @ [Callback 7 1 [65] 1 SSP_SEND SSP_SEND_RETRIES_FAILED 42]"
    by (simp add: gave_up_def)
  then have "events (process_run [0, 300, 600, 900, 1200, 1500] one_queued) =
       [PortSend SSP_PORT1 [190, 239, 0, 1, 0, 1, 0, 175, 65, 128, 178],
        PortSend SSP_PORT1 [190, 239, 0, 1, 0, 1, 0, 175, 65, 128, 178],
        PortSend SSP_PORT1 [190, 239, 0, 1, 0, 1, 0, 175, 65, 128, 178],
        PortSend SSP_PORT1 [190, 239, 0, 1, 0, 1, 0, 175, 65, 128, 178],
        PortSend SSP_PORT1 [190, 239, 0, 1, 0, 1, 0, 175, 65, 128, 178],
        Callback 7 1 [65] 1 SSP_SEND SSP_SEND_RETRIES_FAILED 42]"
    by (simp only: one_queued_bytes SSP_MAX_RETRIES_def) (simp add: numeral_eq_Suc)
  then show ?thesis
    using one_queued_events by (simp add: SSP_MAX_RETRIES_def)
qed

end
